(* ===== verification/RPC_Prelude.thy ===== *)
theory RPC_Prelude
  imports Main "HOL-Library.Word"
begin

unbundle bit_operations_syntax

text \<open>
  Shared vocabulary of the development: the Rust \<open>Result\<close> type, the machine integers with
  the checked and saturating operations the crates call, \<open>Duration\<close> and \<open>SystemTime\<close> as
  nanosecond counts, and the \<open>str\<close> methods. A Rust \<open>str\<close> is modelled by its UTF-8 bytes, so
  \<open>length\<close> is Rust's \<open>len()\<close> and a HOL \<open>char\<close> is one byte.
\<close>

section \<open>Collections of facts\<close>

named_theorems result_simps \<open>elimination of the error monad\<close>
named_theorems sat_simps \<open>saturating and checked machine arithmetic, read in nat or int\<close>

section \<open>Result\<close>

abbreviation Ok :: "'a \<Rightarrow> 'e + 'a" where "Ok x \<equiv> Inr x"
abbreviation Err :: "'e \<Rightarrow> 'e + 'a" where "Err e \<equiv> Inl e"

definition is_ok :: "'e + 'a \<Rightarrow> bool" where
  "is_ok r = (case r of Inl _ \<Rightarrow> False | Inr _ \<Rightarrow> True)"

text \<open>The \<open>?\<close> operator: continue with the value, or return the error at once.\<close>

definition and_then :: "'e + 'a \<Rightarrow> ('a \<Rightarrow> 'e + 'b) \<Rightarrow> 'e + 'b" where
  "and_then r f = (case r of Inl e \<Rightarrow> Inl e | Inr x \<Rightarrow> f x)"

definition ok_or :: "'a option \<Rightarrow> 'e \<Rightarrow> 'e + 'a" where
  "ok_or r e = (case r of None \<Rightarrow> Inl e | Some x \<Rightarrow> Inr x)"

definition map_err :: "('e \<Rightarrow> 'f) \<Rightarrow> 'e + 'a \<Rightarrow> 'f + 'a" where
  "map_err g r = (case r of Inl e \<Rightarrow> Inl (g e) | Inr x \<Rightarrow> Inr x)"

text \<open>\<open>if bad { return Err(e) }\<close> followed by the rest of the function.\<close>

definition reject_if :: "bool \<Rightarrow> 'e \<Rightarrow> 'e + 'a \<Rightarrow> 'e + 'a" where
  "reject_if bad e rest = (if bad then Inl e else rest)"

text \<open>A \<open>for\<close> loop whose body is a fallible check ended by \<open>?\<close>.\<close>

fun check_each :: "('a \<Rightarrow> 'e + unit) \<Rightarrow> 'a list \<Rightarrow> 'e + unit" where
  "check_each f [] = Inr ()"
| "check_each f (x # xs) = and_then (f x) (\<lambda>_. check_each f xs)"

text \<open>\<open>into_iter().map(f).collect::<Result<Vec<_>, _>>()\<close>: stop at the first error.\<close>

fun collect_results :: "('a \<Rightarrow> 'e + 'b) \<Rightarrow> 'a list \<Rightarrow> 'e + 'b list" where
  "collect_results f [] = Inr []"
| "collect_results f (x # xs) =
     and_then (f x) (\<lambda>y. and_then (collect_results f xs) (\<lambda>ys. Inr (y # ys)))"

lemma is_ok_simps [simp]: "is_ok (Inr x)" "\<not> is_ok (Inl e)"
  by (simp_all add: is_ok_def)

lemma is_ok_iff: "is_ok r \<longleftrightarrow> (\<exists>x. r = Inr x)"
  by (cases r) simp_all

lemma not_is_ok_iff: "\<not> is_ok r \<longleftrightarrow> (\<exists>e. r = Inl e)"
  by (cases r) simp_all

lemma and_then_simps [simp]:
  "and_then (Inl e) f = Inl e" "and_then (Inr x) f = f x"
  by (simp_all add: and_then_def)

lemma and_then_Ok_iff [result_simps]:
  "and_then r f = Inr y \<longleftrightarrow> (\<exists>x. r = Inr x \<and> f x = Inr y)"
  by (cases r) simp_all

lemma and_then_Err_iff [result_simps]:
  "and_then r f = Inl e \<longleftrightarrow> r = Inl e \<or> (\<exists>x. r = Inr x \<and> f x = Inl e)"
  by (cases r) simp_all

lemma ok_or_simps [simp]:
  "ok_or None e = Inl e" "ok_or (Some x) e = Inr x"
  by (simp_all add: ok_or_def)

lemma ok_or_Ok_iff [result_simps]: "ok_or r e = Inr x \<longleftrightarrow> r = Some x"
  by (cases r) simp_all

lemma ok_or_Err_iff [result_simps]: "ok_or r e = Inl e' \<longleftrightarrow> r = None \<and> e' = e"
  by (cases r) auto

lemma map_err_simps [simp]:
  "map_err g (Inl e) = Inl (g e)" "map_err g (Inr x) = Inr x"
  by (simp_all add: map_err_def)

lemma map_err_Ok_iff [result_simps]: "map_err g r = Inr x \<longleftrightarrow> r = Inr x"
  by (cases r) simp_all

lemma map_err_Err_iff [result_simps]: "map_err g r = Inl e \<longleftrightarrow> (\<exists>e'. r = Inl e' \<and> e = g e')"
  by (cases r) auto

lemma reject_if_simps [simp]:
  "reject_if True e r = Inl e" "reject_if False e r = r"
  by (simp_all add: reject_if_def)

lemma reject_if_Ok_iff [result_simps]: "reject_if b e r = Inr x \<longleftrightarrow> \<not> b \<and> r = Inr x"
  by (cases b) simp_all

lemma reject_if_Err_iff [result_simps]:
  "reject_if b e r = Inl e' \<longleftrightarrow> (b \<and> e' = e) \<or> (\<not> b \<and> r = Inl e')"
  by (cases b) auto

lemma check_each_Ok_iff [result_simps]:
  "check_each f xs = Inr u \<longleftrightarrow> (\<forall>x \<in> set xs. f x = Inr ())"
  by (induction xs) (auto simp: result_simps)

lemma collect_results_Ok_iff:
  "collect_results f xs = Inr ys \<longleftrightarrow> list_all2 (\<lambda>x y. f x = Inr y) xs ys"
  by (induction xs arbitrary: ys) (auto simp: result_simps list_all2_Cons1)

lemma collect_results_guard:
  assumes "\<And>x y. f x = Inr y \<longleftrightarrow> P x \<and> y = x"
  shows "collect_results f xs = Inr ys \<longleftrightarrow> list_all P xs \<and> ys = xs"
proof -
  have "list_all2 (\<lambda>x y. P x \<and> y = x) xs ys \<longleftrightarrow> list_all P xs \<and> ys = xs"
    by (induction xs arbitrary: ys) (auto simp: list_all2_Cons1)
  then show ?thesis by (simp add: collect_results_Ok_iff assms)
qed

section \<open>Machine integers\<close>

type_synonym u8 = "8 word"
type_synonym u32 = "32 word"
type_synonym u64 = "64 word"
type_synonym i32 = "32 word"
type_synonym i64 = "64 word"
type_synonym usize = "64 word"

definition saturating_add :: "'a::len word \<Rightarrow> 'a word \<Rightarrow> 'a word" where
  "saturating_add a b = (if unat a + unat b < 2 ^ LENGTH('a) then a + b else - 1)"

definition saturating_sub :: "'a::len word \<Rightarrow> 'a word \<Rightarrow> 'a word" where
  "saturating_sub a b = (if b \<le> a then a - b else 0)"

definition saturating_mul :: "'a::len word \<Rightarrow> 'a word \<Rightarrow> 'a word" where
  "saturating_mul a b = (if unat a * unat b < 2 ^ LENGTH('a) then a * b else - 1)"

definition i64_in_range :: "int \<Rightarrow> bool" where
  "i64_in_range v \<longleftrightarrow> - (2 ^ 63) \<le> v \<and> v < 2 ^ 63"

definition i64_checked_add :: "i64 \<Rightarrow> i64 \<Rightarrow> i64 option" where
  "i64_checked_add a b =
     (if i64_in_range (sint a + sint b) then Some (word_of_int (sint a + sint b)) else None)"

definition i64_checked_sub :: "i64 \<Rightarrow> i64 \<Rightarrow> i64 option" where
  "i64_checked_sub a b =
     (if i64_in_range (sint a - sint b) then Some (word_of_int (sint a - sint b)) else None)"

definition i64_clamp :: "int \<Rightarrow> i64" where
  "i64_clamp v = word_of_int (max (- (2 ^ 63)) (min v (2 ^ 63 - 1)))"

definition i64_saturating_add :: "i64 \<Rightarrow> i64 \<Rightarrow> i64" where
  "i64_saturating_add a b = i64_clamp (sint a + sint b)"

definition i64_saturating_sub :: "i64 \<Rightarrow> i64 \<Rightarrow> i64" where
  "i64_saturating_sub a b = i64_clamp (sint a - sint b)"

text \<open>\<open>i64::try_from\<close> of a \<open>u64\<close> held as a natural number.\<close>

definition i64_try_from :: "nat \<Rightarrow> i64 option" where
  "i64_try_from n = (if n < 2 ^ 63 then Some (word_of_nat n) else None)"

lemma unat_less_range: "unat (w :: 'a::len word) < 2 ^ LENGTH('a)"
  by (rule unsigned_less)

lemma unat_word_of_nat: "n < 2 ^ LENGTH('a) \<Longrightarrow> unat (word_of_nat n :: 'a::len word) = n"
  by (simp add: unsigned_of_nat take_bit_nat_eq_self)

lemma unat_two_power: "k < LENGTH('a) \<Longrightarrow> unat ((2 :: 'a::len word) ^ k) = 2 ^ k"
  using unat_word_of_nat [of "2 ^ k", where 'a = 'a] by simp

lemma unat_word_max: "unat (max a b :: 'a::len word) = max (unat a) (unat b)"
  by (simp add: max_def word_le_nat_alt)

lemma unat_word_min: "unat (min a b :: 'a::len word) = min (unat a) (unat b)"
  by (simp add: min_def word_le_nat_alt)

lemma unat_max_word: "unat (- 1 :: 'a::len word) = 2 ^ LENGTH('a) - 1"
  by (simp add: unsigned_minus_1_eq_mask mask_eq_exp_minus_1)

lemma unat_saturating_add [sat_simps]:
  "unat (saturating_add a b :: 'a::len word) = min (unat a + unat b) (2 ^ LENGTH('a) - 1)"
proof (cases "unat a + unat b < 2 ^ LENGTH('a)")
  case True
  then have "unat (a + b) = unat a + unat b"
    by (simp add: unat_word_ariths(1))
  with True show ?thesis by (simp add: saturating_add_def)
next
  case False
  then show ?thesis by (simp add: saturating_add_def unat_max_word)
qed

lemma saturating_add_of_nat:
  assumes "Suc n < 2 ^ LENGTH('a)"
  shows "saturating_add (word_of_nat n :: 'a::len word) 1 = word_of_nat (Suc n)"
proof -
  have "unat (saturating_add (word_of_nat n :: 'a word) 1) = unat (word_of_nat (Suc n) :: 'a word)"
    using assms unat_word_of_nat [of n, where 'a = 'a] unat_word_of_nat [of "Suc n", where 'a = 'a]
    by (simp add: unat_saturating_add del: of_nat_Suc)
  then show ?thesis by (rule unsigned_word_eqI)
qed

lemma unat_saturating_mul [sat_simps]:
  "unat (saturating_mul a b :: 'a::len word) = min (unat a * unat b) (2 ^ LENGTH('a) - 1)"
proof (cases "unat a * unat b < 2 ^ LENGTH('a)")
  case True
  then have "unat (a * b) = unat a * unat b"
    by (simp add: unat_word_ariths(2))
  with True show ?thesis by (simp add: saturating_mul_def)
next
  case False
  then show ?thesis by (simp add: saturating_mul_def unat_max_word)
qed

lemma unat_saturating_sub [sat_simps]:
  "unat (saturating_sub a b :: 'a::len word) = unat a - unat b"
  by (auto simp: saturating_sub_def unat_sub word_le_nat_alt)

lemma sint_word_of_int_i64: "i64_in_range v \<Longrightarrow> sint (word_of_int v :: i64) = v"
  by (simp add: i64_in_range_def sint_sbintrunc' signed_take_bit_int_eq_self)

lemma sint_i64_range: "i64_in_range (sint (a :: i64))"
  using sint_ge [of a] sint_lt [of a] by (simp add: i64_in_range_def)

lemma word_of_int_i64_iff: "i64_in_range v \<Longrightarrow> (word_of_int v :: i64) = c \<longleftrightarrow> sint c = v"
  using sint_word_of_int_i64 [of v] by (auto intro: signed_word_eqI)

lemma i64_checked_add_Some_iff [sat_simps]:
  "i64_checked_add a b = Some c \<longleftrightarrow> i64_in_range (sint a + sint b) \<and> sint c = sint a + sint b"
  using word_of_int_i64_iff [of "sint a + sint b" c] by (simp add: i64_checked_add_def)

lemma i64_checked_sub_Some_iff [sat_simps]:
  "i64_checked_sub a b = Some c \<longleftrightarrow> i64_in_range (sint a - sint b) \<and> sint c = sint a - sint b"
  using word_of_int_i64_iff [of "sint a - sint b" c] by (simp add: i64_checked_sub_def)

lemma sint_i64_clamp [sat_simps]:
  "sint (i64_clamp v) = max (- (2 ^ 63)) (min v (2 ^ 63 - 1))"
  unfolding i64_clamp_def by (rule sint_word_of_int_i64) (simp add: i64_in_range_def)

lemma i64_clamp_less_iff:
  "i64_in_range x \<Longrightarrow> - (2 ^ 63) \<le> v \<Longrightarrow> sint (i64_clamp v) < x \<longleftrightarrow> v < x"
  by (auto simp: sint_i64_clamp i64_in_range_def)

lemma i64_less_clamp_iff:
  "i64_in_range x \<Longrightarrow> v < 2 ^ 63 \<Longrightarrow> x < sint (i64_clamp v) \<longleftrightarrow> x < v"
  by (auto simp: sint_i64_clamp i64_in_range_def)

lemma i64_try_from_Some_iff [sat_simps]:
  "i64_try_from n = Some c \<longleftrightarrow> n < 2 ^ 63 \<and> sint c = int n"
  using word_of_int_i64_iff [of "int n" c]
  by (auto simp: i64_try_from_def i64_in_range_def)

section \<open>Durations and clocks\<close>

text \<open>
  A \<open>Duration\<close> is its number of nanoseconds; an \<open>Instant\<close> is a reading of the monotonic
  clock in nanoseconds; a \<open>SystemTime\<close> is a signed number of nanoseconds from the Unix epoch.
\<close>

type_synonym duration = nat
type_synonym instant = nat
type_synonym system_time = int

definition from_secs :: "nat \<Rightarrow> duration" where "from_secs s = s * 10 ^ 9"
definition from_millis :: "nat \<Rightarrow> duration" where "from_millis m = m * 10 ^ 6"
definition from_nanos :: "u64 \<Rightarrow> duration" where "from_nanos n = unat n"
definition as_secs :: "duration \<Rightarrow> nat" where "as_secs d = d div 10 ^ 9"
definition as_millis :: "duration \<Rightarrow> nat" where "as_millis d = d div 10 ^ 6"

definition duration_max :: duration where
  "duration_max = (2 ^ 64 - 1) * 10 ^ 9 + 999999999"

definition duration_saturating_mul :: "duration \<Rightarrow> u32 \<Rightarrow> duration" where
  "duration_saturating_mul d k = min (d * unat k) duration_max"

text \<open>\<open>Instant::elapsed\<close> saturates at zero when the clock reads earlier than the instant.\<close>

definition elapsed_since :: "instant \<Rightarrow> instant \<Rightarrow> duration" where
  "elapsed_since t now = now - t"

lemma as_secs_from_secs [simp]: "as_secs (from_secs s) = s"
  by (simp add: as_secs_def from_secs_def)

lemma as_millis_from_millis [simp]: "as_millis (from_millis s) = s"
  by (simp add: as_millis_def from_millis_def)

end
