(* ===== verification/Rust_Str.thy ===== *)
theory Rust_Str
  imports RPC_Prelude
begin

text \<open>
  The \<open>str\<close> methods of the Rust standard library that the crates call, on UTF-8 byte strings:
  \<open>trim\<close>, \<open>to_ascii_lowercase\<close>, \<open>starts_with\<close>, \<open>strip_prefix\<close>, \<open>contains\<close>, \<open>join\<close>,
  decimal and hexadecimal formatting, and \<open>u64::from_str\<close>.
\<close>

section \<open>Prefixes\<close>

definition starts_with :: "string \<Rightarrow> string \<Rightarrow> bool" where
  "starts_with s p = (take (length p) s = p)"

definition strip_prefix :: "string \<Rightarrow> string \<Rightarrow> string option" where
  "strip_prefix s p = (if take (length p) s = p then Some (drop (length p) s) else None)"

fun join :: "string \<Rightarrow> string list \<Rightarrow> string" where
  "join sep [] = []"
| "join sep [x] = x"
| "join sep (x # y # ys) = x @ sep @ join sep (y # ys)"

lemma starts_with_iff: "starts_with s p \<longleftrightarrow> (\<exists>r. s = p @ r)"
  by (metis append_eq_conv_conj append_take_drop_id starts_with_def)

lemma starts_with_append [simp]: "starts_with (p @ r) p"
  by (simp add: starts_with_def)

lemma strip_prefix_append [simp]: "strip_prefix (p @ r) p = Some r"
  by (simp add: strip_prefix_def)

lemma strip_prefix_Some_iff: "strip_prefix s p = Some r \<longleftrightarrow> s = p @ r"
  by (auto simp: strip_prefix_def) (metis append_take_drop_id)

lemma strip_prefix_None_iff: "strip_prefix s p = None \<longleftrightarrow> \<not> starts_with s p"
  by (simp add: strip_prefix_def starts_with_def)

text \<open>Fields joined by a separator that occurs in no field can be told apart.\<close>

lemma append_sep_inject:
  "c \<notin> set xs \<Longrightarrow> c \<notin> set ys \<Longrightarrow> xs @ c # r = ys @ c # r' \<longleftrightarrow> xs = ys \<and> r = r'"
proof (induction xs arbitrary: ys)
  case Nil
  then show ?case by (cases ys) auto
next
  case (Cons x xs)
  then show ?case by (cases ys) auto
qed

section \<open>Trimming\<close>

text \<open>
  \<open>str::trim\<close> removes code points with the Unicode property \<open>White_Space\<close> from both ends.
  These are their UTF-8 encodings. UTF-8 is self-synchronising, so a code point begins (ends)
  a valid string exactly when its encoding is a prefix (suffix) of the bytes.
\<close>

definition white_space :: "string list" where
  "white_space =
     [[CHR 0x09], [CHR 0x0A], [CHR 0x0B], [CHR 0x0C], [CHR 0x0D], [CHR 0x20],
      [CHR 0xC2, CHR 0x85], [CHR 0xC2, CHR 0xA0], [CHR 0xE1, CHR 0x9A, CHR 0x80],
      [CHR 0xE2, CHR 0x80, CHR 0x80], [CHR 0xE2, CHR 0x80, CHR 0x81],
      [CHR 0xE2, CHR 0x80, CHR 0x82], [CHR 0xE2, CHR 0x80, CHR 0x83],
      [CHR 0xE2, CHR 0x80, CHR 0x84], [CHR 0xE2, CHR 0x80, CHR 0x85],
      [CHR 0xE2, CHR 0x80, CHR 0x86], [CHR 0xE2, CHR 0x80, CHR 0x87],
      [CHR 0xE2, CHR 0x80, CHR 0x88], [CHR 0xE2, CHR 0x80, CHR 0x89],
      [CHR 0xE2, CHR 0x80, CHR 0x8A], [CHR 0xE2, CHR 0x80, CHR 0xA8],
      [CHR 0xE2, CHR 0x80, CHR 0xA9], [CHR 0xE2, CHR 0x80, CHR 0xAF],
      [CHR 0xE2, CHR 0x81, CHR 0x9F], [CHR 0xE3, CHR 0x80, CHR 0x80]]"

fun strip_one :: "string list \<Rightarrow> string \<Rightarrow> string option" where
  "strip_one [] s = None"
| "strip_one (w # ws) s =
     (if w \<noteq> [] \<and> take (length w) s = w then Some (drop (length w) s) else strip_one ws s)"

lemma strip_one_shorter: "strip_one ws s = Some r \<Longrightarrow> length r < length s"
proof (induction ws)
  case (Cons w ws)
  show ?case
  proof (cases "w \<noteq> [] \<and> take (length w) s = w")
    case True
    moreover from True have "length w \<le> length s"
      by (metis linorder_not_le order_less_imp_le take_all_iff)
    moreover from True have "0 < length w" by simp
    ultimately have "length s - length w < length s" by linarith
    with True Cons.prems show ?thesis by auto
  next
    case False
    with Cons show ?thesis by (simp split: if_splits)
  qed
qed simp

function strip_all :: "string list \<Rightarrow> string \<Rightarrow> string" where
  "strip_all ws s = (case strip_one ws s of None \<Rightarrow> s | Some r \<Rightarrow> strip_all ws r)"
  by pat_completeness auto
termination
  by (relation "measure (\<lambda>(ws, s). length s)") (auto dest: strip_one_shorter)

declare strip_all.simps [simp del]

definition str_trim_start :: "string \<Rightarrow> string" where
  "str_trim_start s = strip_all white_space s"

definition str_trim_end :: "string \<Rightarrow> string" where
  "str_trim_end s = rev (strip_all (map rev white_space) (rev s))"

definition str_trim :: "string \<Rightarrow> string" where
  "str_trim s = str_trim_end (str_trim_start s)"

lemma strip_all_fix: "strip_one ws s = None \<Longrightarrow> strip_all ws s = s"
  by (simp add: strip_all.simps)

lemma strip_all_stuck: "strip_one ws (strip_all ws s) = None"
proof (induction ws s rule: strip_all.induct)
  case (1 ws s)
  then show ?case
    by (cases "strip_one ws s") (simp_all add: strip_all.simps [of ws s])
qed

lemma strip_all_idem: "strip_all ws (strip_all ws s) = strip_all ws s"
  by (rule strip_all_fix) (rule strip_all_stuck)

lemma strip_one_single:
  "[c] \<in> set ws \<Longrightarrow> (\<And>w. w \<in> set ws \<Longrightarrow> w = [c] \<or> hd w \<noteq> c \<or> w = []) \<Longrightarrow>
     strip_one ws (c # s) = Some s"
proof (induction ws)
  case (Cons w ws)
  show ?case
  proof (cases "w = [c]")
    case False
    have "\<not> (w \<noteq> [] \<and> take (length w) (c # s) = w)"
      using Cons.prems(2) [of w] False by (cases w) auto
    with False Cons.prems Cons.IH show ?thesis by auto
  qed simp
qed simp

lemma strip_all_pad:
  assumes "[c] \<in> set ws" and "\<And>w. w \<in> set ws \<Longrightarrow> w = [c] \<or> hd w \<noteq> c \<or> w = []"
  shows "strip_all ws (replicate n c @ s) = strip_all ws s"
proof (induction n)
  case (Suc n)
  have "strip_one ws (c # replicate n c @ s) = Some (replicate n c @ s)"
    using assms by (rule strip_one_single)
  then have "strip_all ws (replicate (Suc n) c @ s) = strip_all ws (replicate n c @ s)"
    by (subst strip_all.simps) simp
  with Suc show ?case by simp
qed simp

lemma strip_one_append:
  assumes "strip_one ws s = None" and "s \<noteq> []" and "\<And>w. w \<in> set ws \<Longrightarrow> c \<notin> set (tl w)"
  shows "strip_one ws (s @ replicate n c) = None"
  using assms
proof (induction ws)
  case (Cons w ws)
  have "take (length w) (s @ replicate n c) \<noteq> w" if "w \<noteq> []"
  proof (cases "length w \<le> length s")
    case True
    with Cons.prems(1) that show ?thesis by (auto split: if_splits)
  next
    case False
    show ?thesis
    proof
      assume "take (length w) (s @ replicate n c) = w"
      with False have "w = s @ replicate (min (length w - length s) n) c"
        by (simp add: min_def split: if_splits)
      moreover from this False have "c \<in> set (replicate (min (length w - length s) n) c)"
        by (metis append.right_neutral in_set_replicate nle_le replicate_empty)
      ultimately have "c \<in> set (tl w)"
        using Cons.prems(2) by (metis Un_iff set_append tl_append2)
      with Cons.prems(3) [of w] show False by simp
    qed
  qed
  with Cons show ?case by (auto split: if_splits)
qed simp

lemma str_trim_pad:
  assumes start: "strip_one white_space s = None"
    and stop: "strip_one (map rev white_space) (rev s) = None" and "s \<noteq> []"
  shows "str_trim (replicate m (CHR '' '') @ s @ replicate n (CHR '' '')) = s"
proof -
  have "strip_one white_space (s @ replicate n (CHR '' '')) = None"
    using start \<open>s \<noteq> []\<close> by (rule strip_one_append) (auto simp: white_space_def)
  moreover have "str_trim_start (replicate m (CHR '' '') @ t) = strip_all white_space t" for t
    unfolding str_trim_start_def by (rule strip_all_pad) (auto simp: white_space_def)
  ultimately have "str_trim_start (replicate m (CHR '' '') @ s @ replicate n (CHR '' '')) =
      s @ replicate n (CHR '' '')"
    by (simp add: strip_all_fix)
  moreover have "str_trim_end (s @ replicate n (CHR '' '')) =
      rev (strip_all (map rev white_space) (rev s))"
    unfolding str_trim_end_def rev_append rev_replicate
    by (subst strip_all_pad) (auto simp: white_space_def)
  ultimately show ?thesis
    using stop by (simp add: str_trim_def strip_all_fix)
qed

lemmas str_trim_clean = str_trim_pad [where m = 0 and n = 0, simplified]

section \<open>ASCII case\<close>

definition ascii_lower :: "char \<Rightarrow> char" where
  "ascii_lower c = (let n = of_char c :: nat in if 65 \<le> n \<and> n \<le> 90 then char_of (n + 32) else c)"

definition to_ascii_lowercase :: "string \<Rightarrow> string" where
  "to_ascii_lowercase s = map ascii_lower s"

definition is_ascii_alphanumeric :: "char \<Rightarrow> bool" where
  "is_ascii_alphanumeric c =
     (let n = of_char c :: nat in (48 \<le> n \<and> n \<le> 57) \<or> (65 \<le> n \<and> n \<le> 90) \<or> (97 \<le> n \<and> n \<le> 122))"

section \<open>Numbers\<close>

definition digit_char :: "nat \<Rightarrow> char" where
  "digit_char d = char_of (48 + d)"

definition hex_char :: "nat \<Rightarrow> char" where
  "hex_char d = (if d < 10 then char_of (48 + d) else char_of (87 + d))"

fun show_nat :: "nat \<Rightarrow> string" where
  "show_nat n = (if n < 10 then [digit_char n] else show_nat (n div 10) @ [digit_char (n mod 10)])"

declare show_nat.simps [simp del]

text \<open>\<open>{:0kx}\<close> of a value below \<open>16 ^ k\<close>: exactly \<open>k\<close> lowercase hexadecimal digits.\<close>

fun hex_padded :: "nat \<Rightarrow> nat \<Rightarrow> string" where
  "hex_padded 0 n = []"
| "hex_padded (Suc k) n = hex_padded k (n div 16) @ [hex_char (n mod 16)]"

definition char_digit :: "char \<Rightarrow> nat option" where
  "char_digit c = (let n = of_char c :: nat in if 48 \<le> n \<and> n \<le> 57 then Some (n - 48) else None)"

text \<open>
  \<open>u64::from_str\<close>: an optional leading \<open>+\<close>, then at least one decimal digit and nothing else;
  a value that does not fit in 64 bits is an error.
\<close>

fun parse_digits :: "nat \<Rightarrow> string \<Rightarrow> nat option" where
  "parse_digits acc [] = Some acc"
| "parse_digits acc (c # cs) =
     (case char_digit c of
        None \<Rightarrow> None
      | Some d \<Rightarrow> if acc * 10 + d < 2 ^ 64 then parse_digits (acc * 10 + d) cs else None)"

definition parse_u64 :: "string \<Rightarrow> u64 option" where
  "parse_u64 s =
     (let digits = (case s of c # cs \<Rightarrow> if c = CHR ''+'' then cs else s | [] \<Rightarrow> [])
      in if digits = [] then None else map_option word_of_nat (parse_digits 0 digits))"

lemma char_digit_digit_char [simp]: "d < 10 \<Longrightarrow> char_digit (digit_char d) = Some d"
  by (simp add: char_digit_def digit_char_def)

lemma digit_char_neq_plus: "d < 10 \<Longrightarrow> digit_char d \<noteq> CHR ''+''"
  by (auto dest!: arg_cong [where f = "of_char :: char \<Rightarrow> nat"] simp: digit_char_def)

lemma show_nat_nonempty: "show_nat n \<noteq> []"
  by (subst show_nat.simps) simp

lemma parse_digits_append:
  "parse_digits acc (xs @ ys) =
     (case parse_digits acc xs of None \<Rightarrow> None | Some m \<Rightarrow> parse_digits m ys)"
  by (induction xs arbitrary: acc) (simp_all split: option.split)

lemma show_nat_all: "(\<And>d. d < 10 \<Longrightarrow> P (digit_char d)) \<Longrightarrow> list_all P (show_nat n)"
proof (induction n rule: show_nat.induct)
  case (1 n)
  then show ?case by (cases "n < 10") (simp_all add: show_nat.simps [of n])
qed

lemma parse_digits_show_nat: "n < 2 ^ 64 \<Longrightarrow> parse_digits 0 (show_nat n) = Some n"
proof (induction n rule: show_nat.induct)
  case (1 n)
  show ?case
  proof (cases "n < 10")
    case True
    then show ?thesis by (simp add: show_nat.simps [of n])
  next
    case False
    have "n div 10 < 2 ^ 64" using "1.prems" by simp
    with False "1.IH" "1.prems" show ?thesis
      by (simp add: show_nat.simps [of n] parse_digits_append)
  qed
qed

lemma hd_show_nat: "\<exists>d < 10. hd (show_nat n) = digit_char d"
proof (induction n rule: show_nat.induct)
  case (1 n)
  then show ?case
    by (cases "n < 10") (auto simp: show_nat.simps [of n] hd_append show_nat_nonempty)
qed

lemma parse_u64_show_nat: "parse_u64 (show_nat (unat v)) = Some v"
proof -
  have "hd (show_nat (unat v)) \<noteq> CHR ''+''"
    using hd_show_nat [of "unat v"] digit_char_neq_plus by metis
  then have "parse_u64 (show_nat (unat v)) =
      map_option word_of_nat (parse_digits 0 (show_nat (unat v)))"
    using show_nat_nonempty [of "unat v"]
    by (cases "show_nat (unat v)") (simp_all add: parse_u64_def)
  moreover have "unat v < 2 ^ 64"
    using unat_less_range [of v] by simp
  ultimately show ?thesis
    by (simp add: parse_digits_show_nat)
qed

lemma length_show_nat: "n < 10 ^ Suc k \<Longrightarrow> length (show_nat n) \<le> Suc k"
proof (induction k arbitrary: n)
  case 0
  then show ?case by (simp add: show_nat.simps [of n])
next
  case (Suc k)
  then have "n div 10 < 10 ^ Suc k" by (simp add: div_less_iff_less_mult)
  then show ?case using Suc.IH by (simp add: show_nat.simps [of n])
qed

lemma length_hex_padded [simp]: "length (hex_padded k n) = k"
  by (induction k n rule: hex_padded.induct) simp_all

end
