(* ===== verification/Core_Vocabulary.thy ===== *)
theory Core_Vocabulary
  imports Rust_Str
begin

text \<open>
  The vocabulary of crate \<open>sdkwork-rpc-core\<close>: \<open>RpcFrameworkError\<close> (lib.rs), the bootstrap and
  shutdown stages (bootstrap.rs), the canonical identity URI (identity.rs), the resolver and
  resilience profiles (profile.rs) and the RPC surfaces (surface.rs). The locale
  \<open>named_enum\<close> is the contract of an enum with \<open>as_str\<close> and \<open>parse\<close>; it is interpreted on
  \<open>RpcSurface\<close> and \<open>ResilienceProfile\<close>.
\<close>

section \<open>Errors\<close>

datatype RpcFrameworkError =
    Validation string
  | Configuration string
  | Transport string
  | Discovery string

fun framework_error_display :: "RpcFrameworkError \<Rightarrow> string" where
  "framework_error_display (Validation m) = ''validation failed: '' @ m"
| "framework_error_display (Configuration m) = ''configuration error: '' @ m"
| "framework_error_display (Transport m) = ''transport error: '' @ m"
| "framework_error_display (Discovery m) = ''discovery error: '' @ m"

section \<open>Bootstrap and shutdown stages\<close>

definition STAGE_VALIDATE_RPC_CONTRACTS :: string where
  "STAGE_VALIDATE_RPC_CONTRACTS = ''validate-rpc-contracts''"
definition STAGE_INITIALIZE_RPC_FRAMEWORK :: string where
  "STAGE_INITIALIZE_RPC_FRAMEWORK = ''initialize-rpc-framework''"
definition STAGE_BIND_RPC_SERVICES :: string where
  "STAGE_BIND_RPC_SERVICES = ''bind-rpc-services''"
definition STAGE_REGISTER_DISCOVERY_INSTANCE :: string where
  "STAGE_REGISTER_DISCOVERY_INSTANCE = ''register-discovery-instance''"
definition STAGE_START_DISCOVERY_RENEW_LOOP :: string where
  "STAGE_START_DISCOVERY_RENEW_LOOP = ''start-discovery-renew-loop''"
definition STAGE_DRAIN_RPC_SERVERS :: string where
  "STAGE_DRAIN_RPC_SERVERS = ''drain-rpc-servers''"
definition STAGE_DEREGISTER_DISCOVERY_INSTANCE :: string where
  "STAGE_DEREGISTER_DISCOVERY_INSTANCE = ''deregister-discovery-instance''"
definition STAGE_STOP_DISCOVERY_RENEW_LOOP :: string where
  "STAGE_STOP_DISCOVERY_RENEW_LOOP = ''stop-discovery-renew-loop''"

definition BOOTSTRAP_STAGES :: "string list" where
  "BOOTSTRAP_STAGES =
     [STAGE_VALIDATE_RPC_CONTRACTS, STAGE_INITIALIZE_RPC_FRAMEWORK, STAGE_BIND_RPC_SERVICES,
      STAGE_REGISTER_DISCOVERY_INSTANCE, STAGE_START_DISCOVERY_RENEW_LOOP]"

definition SHUTDOWN_STAGES :: "string list" where
  "SHUTDOWN_STAGES =
     [STAGE_DRAIN_RPC_SERVERS, STAGE_DEREGISTER_DISCOVERY_INSTANCE,
      STAGE_STOP_DISCOVERY_RENEW_LOOP]"

section \<open>Identity URI\<close>

record RpcIdentityParts =
  ip_namespace :: string
  ip_environment :: string
  ip_rpc_surface :: string
  ip_proto_package :: string
  ip_service :: string
  ip_method :: string
  ip_operation_id :: string

definition build_rpc_identity_uri :: "RpcIdentityParts \<Rightarrow> string" where
  "build_rpc_identity_uri p =
     ''sdkwork-rpc://'' @ ip_namespace p @ ''/'' @ ip_environment p @ ''/'' @ ip_rpc_surface p
       @ ''/'' @ ip_proto_package p @ ''/'' @ ip_service p @ ''/'' @ ip_method p
       @ ''?operationId='' @ ip_operation_id p"

section \<open>Resolver and resilience profiles\<close>

datatype ResolverProfile = Static | StaticComposite | DiscoveryProfile | Composite

definition resolver_profile_parse :: "string \<Rightarrow> ResolverProfile option" where
  "resolver_profile_parse value =
     (let s = to_ascii_lowercase (str_trim value) in
      if s = ''static'' then Some Static
      else if s = ''static-composite'' then Some StaticComposite
      else if s = ''discovery'' then Some DiscoveryProfile
      else if s = ''composite'' then Some Composite
      else None)"

datatype ResilienceProfile =
  RpcDefault | RpcReadOnly | RpcIdempotentWrite | RpcCriticalWrite | RpcStream | RpcLocalDev

fun resilience_profile_as_str :: "ResilienceProfile \<Rightarrow> string" where
  "resilience_profile_as_str RpcDefault = ''rpc-default''"
| "resilience_profile_as_str RpcReadOnly = ''rpc-read-only''"
| "resilience_profile_as_str RpcIdempotentWrite = ''rpc-idempotent-write''"
| "resilience_profile_as_str RpcCriticalWrite = ''rpc-critical-write''"
| "resilience_profile_as_str RpcStream = ''rpc-stream''"
| "resilience_profile_as_str RpcLocalDev = ''rpc-local-dev''"

definition resilience_profile_parse :: "string \<Rightarrow> ResilienceProfile option" where
  "resilience_profile_parse value =
     (let s = str_trim value in
      if s = ''rpc-default'' then Some RpcDefault
      else if s = ''rpc-read-only'' then Some RpcReadOnly
      else if s = ''rpc-idempotent-write'' then Some RpcIdempotentWrite
      else if s = ''rpc-critical-write'' then Some RpcCriticalWrite
      else if s = ''rpc-stream'' then Some RpcStream
      else if s = ''rpc-local-dev'' then Some RpcLocalDev
      else None)"

definition is_production_safe :: "ResilienceProfile \<Rightarrow> bool" where
  "is_production_safe p = (case p of RpcLocalDev \<Rightarrow> False | _ \<Rightarrow> True)"

section \<open>RPC surfaces\<close>

datatype RpcSurface = App | Backend | Internal | Common

fun rpc_surface_as_str :: "RpcSurface \<Rightarrow> string" where
  "rpc_surface_as_str App = ''app''"
| "rpc_surface_as_str Backend = ''backend''"
| "rpc_surface_as_str Internal = ''internal''"
| "rpc_surface_as_str Common = ''common''"

definition rpc_surface_parse :: "string \<Rightarrow> RpcSurface option" where
  "rpc_surface_parse value =
     (let s = str_trim value in
      if s = ''app'' then Some App
      else if s = ''backend'' then Some Backend
      else if s = ''internal'' then Some Internal
      else if s = ''common'' then Some Common
      else None)"

definition validate_rpc_surface :: "string \<Rightarrow> string + RpcSurface" where
  "validate_rpc_surface value =
     ok_or (rpc_surface_parse value)
       (''rpc_surface must be one of app, backend, internal, common (got '' @ value @ '')'')"

section \<open>The contract of a named enum\<close>

locale named_enum =
  fixes as_str :: "'a \<Rightarrow> string"
    and parse :: "string \<Rightarrow> 'a option"
  assumes parse_iff: "parse s = Some x \<longleftrightarrow> str_trim s = as_str x"
    and name_start: "strip_one white_space (as_str x) = None"
    and name_end: "strip_one (map rev white_space) (rev (as_str x)) = None"
    and name_nonempty: "as_str x \<noteq> []"
begin

lemma parse_padded:
  "parse (replicate m (CHR '' '') @ as_str x @ replicate n (CHR '' '')) = Some x"
  by (simp add: parse_iff str_trim_pad name_start name_end name_nonempty)

lemma parse_as_str: "parse (as_str x) = Some x"
  using parse_padded [of 0 x 0] by simp

lemma as_str_inject: "as_str x = as_str y \<longleftrightarrow> x = y"
  by (metis option.inject parse_as_str)

lemma parse_None_iff: "parse s = None \<longleftrightarrow> (\<forall>x. str_trim s \<noteq> as_str x)"
  by (metis not_None_eq parse_iff)

end

interpretation surface_names: named_enum rpc_surface_as_str rpc_surface_parse
proof
  fix s x
  show "rpc_surface_parse s = Some x \<longleftrightarrow> str_trim s = rpc_surface_as_str x"
    by (cases x) (auto simp: rpc_surface_parse_def Let_def)
qed (case_tac x, simp_all add: white_space_def)+

interpretation resilience_names: named_enum resilience_profile_as_str resilience_profile_parse
proof
  fix s x
  show "resilience_profile_parse s = Some x \<longleftrightarrow> str_trim s = resilience_profile_as_str x"
    by (cases x) (auto simp: resilience_profile_parse_def Let_def)
qed (case_tac x, simp_all add: white_space_def)+

section \<open>Identity URIs\<close>

text \<open>The parts of an identity URI fit into it: no path segment contains a slash, and the method, the
  last segment, no question mark.\<close>

definition identity_parts_ok :: "RpcIdentityParts \<Rightarrow> bool" where
  "identity_parts_ok p \<longleftrightarrow>
     list_all (\<lambda>segment. CHR ''/'' \<notin> set segment)
       [ip_namespace p, ip_environment p, ip_rpc_surface p, ip_proto_package p, ip_service p,
        ip_method p] \<and>
     CHR ''?'' \<notin> set (ip_method p)"

text \<open>Text up to a separator and the rest.\<close>

definition cut_at :: "char \<Rightarrow> string \<Rightarrow> string \<times> string" where
  "cut_at c s = (takeWhile (\<lambda>x. x \<noteq> c) s, drop 1 (dropWhile (\<lambda>x. x \<noteq> c) s))"

lemma cut_at_append: "c \<notin> set a \<Longrightarrow> cut_at c (a @ c # r) = (a, r)"
  by (induction a) (auto simp: cut_at_def)

text \<open>Reading a URI back: six segments, the last one up to the query.\<close>

definition parse_identity_uri :: "string \<Rightarrow> RpcIdentityParts" where
  "parse_identity_uri uri =
     (let (namespace, r) = cut_at (CHR ''/'') (drop (length ''sdkwork-rpc://'') uri);
          (environment, r) = cut_at (CHR ''/'') r; (surface, r) = cut_at (CHR ''/'') r;
          (package, r) = cut_at (CHR ''/'') r; (service, r) = cut_at (CHR ''/'') r;
          (method, r) = cut_at (CHR ''?'') r
      in \<lparr>ip_namespace = namespace, ip_environment = environment, ip_rpc_surface = surface,
          ip_proto_package = package, ip_service = service, ip_method = method,
          ip_operation_id = drop (length ''operationId='') r\<rparr>)"

text \<open>C36. Identity URIs: the URI of parts whose segments contain no separator reads back as exactly
  these parts, so two operations with the same URI are the same operation.\<close>
theorem identity_uri_roundtrip:
  assumes "identity_parts_ok p"
  shows "parse_identity_uri (build_rpc_identity_uri p) = p"
  using assms
  by (simp add: parse_identity_uri_def build_rpc_identity_uri_def identity_parts_ok_def
      cut_at_append Let_def)

text \<open>The parts of the unit test.\<close>

definition sample_identity :: RpcIdentityParts where
  "sample_identity =
     \<lparr>ip_namespace = ''acme'', ip_environment = ''production'', ip_rpc_surface = ''internal'',
      ip_proto_package = ''sdkwork.communication.internal.v1'',
      ip_service = ''RoomOrchestrationService'', ip_method = ''CreateRoom'',
      ip_operation_id = ''rooms.create''\<rparr>"

theorem identity_uri_roundtrip_witness:
  "build_rpc_identity_uri sample_identity =
     ''sdkwork-rpc://acme/production/internal/sdkwork.communication.internal.v1/'' @
     ''RoomOrchestrationService/CreateRoom?operationId=rooms.create'' \<and>
   parse_identity_uri (build_rpc_identity_uri sample_identity) = sample_identity"
proof
  show "build_rpc_identity_uri sample_identity =
     ''sdkwork-rpc://acme/production/internal/sdkwork.communication.internal.v1/'' @
     ''RoomOrchestrationService/CreateRoom?operationId=rooms.create''"
    by (simp add: build_rpc_identity_uri_def sample_identity_def)
  show "parse_identity_uri (build_rpc_identity_uri sample_identity) = sample_identity"
    by (rule identity_uri_roundtrip) (simp add: identity_parts_ok_def sample_identity_def)
qed

end
