(* ===== verification/External_Api.thy ===== *)
theory External_Api
  imports Rust_Str
begin

text \<open>
  The code the crates call but the repository does not contain: \<open>sdkwork_utils_rust\<close>,
  \<open>x509_parser\<close>, \<open>serde_json\<close>, tonic's \<open>MetadataMap\<close> and the \<open>rand\<close> generator. Each is a
  record of functions that the definitions take as an argument; what the code relies on is a
  named predicate over that record, which a theorem lists among its hypotheses. Bytes are HOL
  characters, so \<open>as_bytes\<close> of a string is the string.
\<close>

type_synonym bytes = "char list"

section \<open>sdkwork-utils\<close>

record sdkwork_utils =
  trim :: "string \<Rightarrow> string"
  is_blank :: "string option \<Rightarrow> bool"
  base64url_encode :: "bytes \<Rightarrow> string"
  base64url_decode :: "string \<Rightarrow> bytes option"
  hmac_sha256_base64url :: "bytes \<Rightarrow> bytes \<Rightarrow> string"
  verify_hmac_sha256_base64url :: "bytes \<Rightarrow> bytes \<Rightarrow> bytes \<Rightarrow> bool"
  sha256_hash :: "bytes \<Rightarrow> string"

text \<open>Decoding undoes encoding.\<close>

definition base64url_roundtrip :: "sdkwork_utils \<Rightarrow> bool" where
  "base64url_roundtrip U \<longleftrightarrow> (\<forall>b. base64url_decode U (base64url_encode U b) = Some b)"

text \<open>Unpadded base64url writes four characters for three bytes.\<close>

definition base64url_length :: "sdkwork_utils \<Rightarrow> bool" where
  "base64url_length U \<longleftrightarrow> (\<forall>b. length (base64url_encode U b) = (length b * 4 + 2) div 3)"

text \<open>The computed tag decodes, has a bounded size and is accepted under the same key.\<close>

definition hmac_verifies :: "sdkwork_utils \<Rightarrow> bool" where
  "hmac_verifies U \<longleftrightarrow>
     (\<forall>m k. length (hmac_sha256_base64url U m k) \<le> 64 \<and>
        (\<exists>tag. base64url_decode U (hmac_sha256_base64url U m k) = Some tag \<and>
               verify_hmac_sha256_base64url U m k tag))"

text \<open>Encoded bytes and tags are text of graphic ASCII characters; a tag is not empty.\<close>

definition graphic_ascii :: "char \<Rightarrow> bool" where
  "graphic_ascii c \<longleftrightarrow> 32 < (of_char c :: nat) \<and> (of_char c :: nat) < 127"

definition base64url_text :: "sdkwork_utils \<Rightarrow> bool" where
  "base64url_text U \<longleftrightarrow>
     (\<forall>b. list_all graphic_ascii (base64url_encode U b)) \<and>
     (\<forall>m k. hmac_sha256_base64url U m k \<noteq> [] \<and>
        list_all graphic_ascii (hmac_sha256_base64url U m k))"

text \<open>A string is blank when nothing is left after trimming; an absent one is blank.\<close>

definition blank_is_trimmed_empty :: "sdkwork_utils \<Rightarrow> bool" where
  "blank_is_trimmed_empty U \<longleftrightarrow>
     is_blank U None \<and> (\<forall>s. is_blank U (Some s) \<longleftrightarrow> trim U s = [])"

text \<open>Trimming leaves a string unchanged that has no white space at its ends.\<close>

definition trim_keeps_clean :: "sdkwork_utils \<Rightarrow> bool" where
  "trim_keeps_clean U \<longleftrightarrow> (\<forall>s. str_trim s = s \<longrightarrow> trim U s = s)"

section \<open>x509-parser\<close>

text \<open>Of a general name the code only asks whether it is a URI.\<close>

datatype GeneralName = URI string | OtherGeneralName

text \<open>
  \<open>from_der\<close> parses a certificate or gives its error text; the second field gives the general
  names of the subject alternative name extension, \<open>None\<close> without one.
\<close>

record 'cert x509 =
  from_der :: "bytes \<Rightarrow> string + 'cert"
  subject_alternative_name :: "'cert \<Rightarrow> string + GeneralName list option"

section \<open>Random ranges\<close>

text \<open>\<open>random_range(0..=b)\<close>: the generator is a function that draws for a given upper bound.\<close>

type_synonym rng = "nat \<Rightarrow> nat"

definition draws_in_range :: "rng \<Rightarrow> bool" where
  "draws_in_range draw \<longleftrightarrow> (\<forall>b. draw b \<le> b)"

lemma draws_in_rangeD: "draws_in_range draw \<Longrightarrow> draw b \<le> b"
  by (simp add: draws_in_range_def)

section \<open>tonic\<close>

datatype Code =
    CodeOk | Cancelled | Unknown | InvalidArgument | DeadlineExceeded | NotFound | AlreadyExists
  | PermissionDenied | ResourceExhausted | FailedPrecondition | Aborted | OutOfRange
  | Unimplemented | InternalError | Unavailable | DataLoss | Unauthenticated

text \<open>
  \<open>MetadataMap\<close> with its ASCII keys and values: \<open>new\<close>, \<open>get\<close>, \<open>insert\<close>, \<open>MetadataKey::from_bytes\<close>,
  \<open>MetadataValue::try_from\<close> and \<open>MetadataValue::to_str\<close>; the last three may fail.
\<close>

record ('md, 'mv) tonic_metadata =
  md_new :: 'md
  md_get :: "'md \<Rightarrow> string \<Rightarrow> 'mv option"
  md_insert :: "'md \<Rightarrow> string \<Rightarrow> 'mv \<Rightarrow> 'md"
  metadata_key :: "string \<Rightarrow> string option"
  metadata_value :: "string \<Rightarrow> 'mv option"
  mv_to_str :: "'mv \<Rightarrow> string option"

record 'md status =
  status_code :: Code
  status_message :: string
  status_metadata :: 'md

text \<open>Looking up in a new map and after an insertion.\<close>

definition metadata_get_insert :: "('md, 'mv) tonic_metadata \<Rightarrow> bool" where
  "metadata_get_insert M \<longleftrightarrow>
     (\<forall>k. md_get M (md_new M) k = None) \<and>
     (\<forall>m k v k'. md_get M (md_insert M m k v) k' = (if k' = k then Some v else md_get M m k'))"

text \<open>A value made from a string reads back as that string.\<close>

definition metadata_value_reads_back :: "('md, 'mv) tonic_metadata \<Rightarrow> bool" where
  "metadata_value_reads_back M \<longleftrightarrow>
     (\<forall>s v. metadata_value M s = Some v \<longrightarrow> mv_to_str M v = Some s)"

text \<open>Visible ASCII text is a metadata value; a key of lower-case letters and hyphens is a key.\<close>

definition visible_ascii :: "char \<Rightarrow> bool" where
  "visible_ascii c \<longleftrightarrow> 32 \<le> (of_char c :: nat) \<and> (of_char c :: nat) < 127"

definition key_char :: "char \<Rightarrow> bool" where
  "key_char c \<longleftrightarrow> (97 \<le> (of_char c :: nat) \<and> (of_char c :: nat) \<le> 122) \<or> c = CHR ''-''"

definition metadata_accepts_ascii :: "('md, 'mv) tonic_metadata \<Rightarrow> bool" where
  "metadata_accepts_ascii M \<longleftrightarrow>
     (\<forall>s. list_all visible_ascii s \<longrightarrow> metadata_value M s \<noteq> None) \<and>
     (\<forall>k. k \<noteq> [] \<longrightarrow> list_all key_char k \<longrightarrow> drop (length k - 4) k \<noteq> ''-bin'' \<longrightarrow>
          metadata_key M k = Some k)"

section \<open>sdkwork-rpc-core-rust\<close>

text \<open>The names of the standard metadata headers, which that package defines.\<close>

record metadata_keys =
  RPC_AUTHORIZATION_METADATA :: string
  RPC_ACCESS_TOKEN_METADATA :: string
  RPC_REQUEST_ID_METADATA :: string
  RPC_TRACEPARENT_METADATA :: string
  RPC_IDEMPOTENCY_KEY_METADATA :: string
  RPC_REQUEST_HASH_METADATA :: string

section \<open>Sources of fresh values\<close>

text \<open>
  What one call draws: a hyphenated UUID for the request id, a UUID in simple format for the
  trace id and 64 random bits.
\<close>

record fresh =
  fresh_uuid :: string
  fresh_uuid_simple :: string
  fresh_u64 :: u64

section \<open>tonic transport\<close>

text \<open>
  The builder of a channel: \<open>Endpoint::from_shared\<close>, its settings, \<open>tls_config\<close> and \<open>connect\<close>. An
  error is given by its text.
\<close>

record ('ep, 'ch, 'tls) tonic_transport =
  ep_from_shared :: "string \<Rightarrow> string + 'ep"
  ep_connect_timeout :: "duration \<Rightarrow> 'ep \<Rightarrow> 'ep"
  ep_keep_alive_interval :: "duration \<Rightarrow> 'ep \<Rightarrow> 'ep"
  ep_keep_alive_timeout :: "duration \<Rightarrow> 'ep \<Rightarrow> 'ep"
  ep_keep_alive_while_idle :: "bool \<Rightarrow> 'ep \<Rightarrow> 'ep"
  ep_tls_config :: "'tls \<Rightarrow> 'ep \<Rightarrow> string + 'ep"
  ep_connect :: "'ep \<Rightarrow> string + 'ch"

section \<open>The discovery protocol\<close>

text \<open>
  Of the generated enums the code names these constructors; \<open>try_from\<close> of an \<open>i32\<close> may fail. Of a
  service instance it reads these fields.
\<close>

datatype InstanceStatus = Serving | Degraded | OtherStatus
datatype WatchEventType = EventUnspecified | InstanceDeregistered | Heartbeat | OtherEvent

record discovery_proto =
  instance_status :: "i32 \<Rightarrow> InstanceStatus option"
  serving_as_i32 :: i32
  watch_event_type :: "i32 \<Rightarrow> WatchEventType option"

record ServiceInstance =
  si_endpoint :: string
  si_status :: i32
  si_weight :: u32
  si_revision :: u64

section \<open>Everything outside the repository\<close>

record ('ep, 'ch, 'tls, 'md, 'mv) externals =
  x_utils :: sdkwork_utils
  x_keys :: metadata_keys
  x_metadata :: "('md, 'mv) tonic_metadata"
  x_transport :: "('ep, 'ch, 'tls) tonic_transport"
  x_proto :: discovery_proto

end
