(* ===== verification/Service_Identity.thy ===== *)
theory Service_Identity
  imports Core_Vocabulary External_Api "HOL-Library.Char_ord" "HOL-Library.List_Lexorder"
begin

text \<open>
  Crate \<open>sdkwork-rpc-core\<close>, service_identity.rs: the SPIFFE policy that turns a TLS-verified
  leaf certificate into a service identity. A \<open>BTreeSet<String>\<close> is its ascending list of
  distinct elements; Rust orders strings by their bytes, which is the lexicographic order on
  HOL strings.
\<close>

section \<open>Identifiers and trust domains\<close>

definition identifier_byte :: "char \<Rightarrow> bool" where
  "identifier_byte b \<longleftrightarrow>
     is_ascii_alphanumeric b \<or> b = CHR ''-'' \<or> b = CHR ''_'' \<or> b = CHR ''.'' \<or> b = CHR '':''"

definition validate_identifier :: "string \<Rightarrow> string \<Rightarrow> RpcFrameworkError + unit" where
  "validate_identifier field value =
     reject_if (value = [] \<or> length value > 128)
       (Validation (field @ '' must contain 1 to 128 characters''))
     (reject_if (\<not> list_all identifier_byte value)
       (Validation (field @ '' contains unsupported characters''))
     (Ok ()))"

definition trust_domain_byte :: "char \<Rightarrow> bool" where
  "trust_domain_byte b \<longleftrightarrow> is_ascii_alphanumeric b \<or> b = CHR ''-'' \<or> b = CHR ''.''"

definition validate_trust_domain :: "string \<Rightarrow> RpcFrameworkError + unit" where
  "validate_trust_domain trust_domain =
     reject_if (trust_domain = [] \<or> length trust_domain > 253)
       (Configuration ''SPIFFE trust_domain must contain 1 to 253 characters'')
     (reject_if (\<not> list_all trust_domain_byte trust_domain)
       (Configuration ''SPIFFE trust_domain contains unsupported characters'')
     (Ok ()))"

section \<open>Policy\<close>

record VerifiedRpcServiceIdentity =
  vi_service_id :: string
  vi_trust_domain :: string
  vi_spiffe_uri :: string
  vi_certificate_sha256 :: string

record RpcServiceIdentityPolicy =
  sp_trust_domain :: string
  sp_allowed_service_ids :: "string list"

definition btree_set :: "string list \<Rightarrow> string list" where
  "btree_set xs = sort (remdups xs)"

definition policy_new ::
    "string \<Rightarrow> string list \<Rightarrow> RpcFrameworkError + RpcServiceIdentityPolicy" where
  "policy_new trust_domain allowed_service_ids =
     and_then (validate_trust_domain trust_domain) (\<lambda>_.
     let allowed = btree_set allowed_service_ids in
     reject_if (allowed = [])
       (Configuration ''rpc service identity policy requires at least one allowed service id'')
     (and_then (check_each (validate_identifier ''service_id'') allowed) (\<lambda>_.
      Ok \<lparr>sp_trust_domain = trust_domain, sp_allowed_service_ids = allowed\<rparr>)))"

definition policy_allows :: "RpcServiceIdentityPolicy \<Rightarrow> string \<Rightarrow> bool" where
  "policy_allows policy service_id \<longleftrightarrow> service_id \<in> set (sp_allowed_service_ids policy)"

section \<open>SPIFFE URIs\<close>

definition SPIFFE_SERVICE_PATH_PREFIX :: string where
  "SPIFFE_SERVICE_PATH_PREFIX = ''/sdkwork/service/''"

definition spiffe_prefix :: "string \<Rightarrow> string" where
  "spiffe_prefix trust_domain = ''spiffe://'' @ trust_domain @ SPIFFE_SERVICE_PATH_PREFIX"

definition parse_spiffe_service_uri :: "string \<Rightarrow> string \<Rightarrow> RpcFrameworkError + string" where
  "parse_spiffe_service_uri uri trust_domain =
     (case strip_prefix uri (spiffe_prefix trust_domain) of
        None \<Rightarrow> Err (Validation
          (''mTLS SPIFFE URI must match `'' @ spiffe_prefix trust_domain @ ''<service-id>`''))
      | Some service_id \<Rightarrow>
          reject_if (CHR ''/'' \<in> set service_id \<or> CHR ''?'' \<in> set service_id
              \<or> CHR ''#'' \<in> set service_id)
            (Validation (''mTLS SPIFFE service identity must not include path, query, ''
               @ ''or fragment suffixes''))
          (and_then (validate_identifier ''SPIFFE service_id'' service_id) (\<lambda>_.
           Ok service_id)))"

fun spiffe_uri_of :: "GeneralName \<Rightarrow> string option" where
  "spiffe_uri_of (URI uri) = (if starts_with uri ''spiffe://'' then Some uri else None)"
| "spiffe_uri_of OtherGeneralName = None"

definition verify_tls_peer_certificate_der ::
    "'cert x509 \<Rightarrow> sdkwork_utils \<Rightarrow> RpcServiceIdentityPolicy \<Rightarrow> bytes \<Rightarrow>
     RpcFrameworkError + VerifiedRpcServiceIdentity" where
  "verify_tls_peer_certificate_der X U policy certificate_der =
     and_then (map_err
         (\<lambda>e. Validation (''mTLS peer certificate is not valid DER: '' @ e))
         (from_der X certificate_der)) (\<lambda>certificate.
     and_then (map_err
         (\<lambda>e. Validation (''mTLS peer certificate SAN is invalid: '' @ e))
         (subject_alternative_name X certificate)) (\<lambda>san.
     and_then (ok_or san
         (Validation ''mTLS peer certificate must include one SPIFFE URI SAN''))
       (\<lambda>general_names.
     let spiffe_uris = List.map_filter spiffe_uri_of general_names in
     reject_if (length spiffe_uris \<noteq> 1)
       (Validation (''mTLS peer certificate must include exactly one SPIFFE URI SAN, found ''
          @ show_nat (length spiffe_uris)))
     (let spiffe_uri = hd spiffe_uris in
      and_then (parse_spiffe_service_uri spiffe_uri (sp_trust_domain policy)) (\<lambda>service_id.
      reject_if (\<not> policy_allows policy service_id)
        (Validation (''mTLS peer service identity `'' @ service_id @ ''` is not allowed''))
      (Ok \<lparr>vi_service_id = service_id,
           vi_trust_domain = sp_trust_domain policy,
           vi_spiffe_uri = spiffe_uri,
           vi_certificate_sha256 = sha256_hash U certificate_der\<rparr>))))))"

section \<open>Lemmas\<close>

definition valid_identifier :: "string \<Rightarrow> bool" where
  "valid_identifier s \<longleftrightarrow> s \<noteq> [] \<and> length s \<le> 128 \<and> list_all identifier_byte s"

definition valid_trust_domain :: "string \<Rightarrow> bool" where
  "valid_trust_domain s \<longleftrightarrow> s \<noteq> [] \<and> length s \<le> 253 \<and> list_all trust_domain_byte s"

definition policy_wf :: "RpcServiceIdentityPolicy \<Rightarrow> bool" where
  "policy_wf p \<longleftrightarrow> valid_trust_domain (sp_trust_domain p) \<and> sp_allowed_service_ids p \<noteq> [] \<and>
     sorted (sp_allowed_service_ids p) \<and> distinct (sp_allowed_service_ids p) \<and>
     list_all valid_identifier (sp_allowed_service_ids p)"

lemma validate_identifier_Ok_iff [simp]:
  "validate_identifier field s = Inr u \<longleftrightarrow> valid_identifier s"
  by (auto simp: validate_identifier_def valid_identifier_def result_simps)

lemma validate_identifier_valid [simp]: "valid_identifier s \<Longrightarrow> validate_identifier field s = Inr ()"
  by simp

lemma validate_trust_domain_Ok_iff [simp]:
  "validate_trust_domain s = Inr u \<longleftrightarrow> valid_trust_domain s"
  by (auto simp: validate_trust_domain_def valid_trust_domain_def result_simps)

lemma valid_identifier_no_delim:
  assumes "valid_identifier s"
  shows "CHR ''/'' \<notin> set s" "CHR ''?'' \<notin> set s" "CHR ''#'' \<notin> set s"
  using assms
  by (auto simp: valid_identifier_def list_all_iff identifier_byte_def is_ascii_alphanumeric_def)

lemma valid_trust_domain_no_slash: "valid_trust_domain s \<Longrightarrow> CHR ''/'' \<notin> set s"
  by (auto simp: valid_trust_domain_def list_all_iff trust_domain_byte_def
      is_ascii_alphanumeric_def)

lemma policy_new_Ok_iff:
  "policy_new td ids = Inr p \<longleftrightarrow>
     valid_trust_domain td \<and> ids \<noteq> [] \<and> (\<forall>s \<in> set ids. valid_identifier s) \<and>
     p = \<lparr>sp_trust_domain = td, sp_allowed_service_ids = btree_set ids\<rparr>"
proof -
  have "btree_set ids = [] \<longleftrightarrow> ids = []"
    by (metis btree_set_def remdups_eq_nil_iff set_empty2 set_sort)
  moreover have "set (btree_set ids) = set ids"
    by (simp add: btree_set_def)
  ultimately show ?thesis
    by (auto simp: policy_new_def Let_def result_simps)
qed

lemma policy_new_wf: "policy_new td ids = Inr p \<Longrightarrow> policy_wf p"
  by (auto simp: policy_new_Ok_iff policy_wf_def btree_set_def list_all_iff)
    (metis remdups_eq_nil_iff set_empty2 set_sort)

lemma parse_spiffe_Ok_iff:
  "parse_spiffe_service_uri uri td = Inr sid \<longleftrightarrow>
     uri = spiffe_prefix td @ sid \<and> valid_identifier sid"
  by (auto simp: parse_spiffe_service_uri_def strip_prefix_Some_iff result_simps
      valid_identifier_no_delim split: option.splits)

lemma length_one_iff: "length xs = 1 \<longleftrightarrow> (\<exists>x. xs = [x])"
  by (simp add: length_Suc_conv)

section \<open>Properties\<close>

text \<open>C29. A leaf certificate is accepted exactly when it parses, carries exactly one SPIFFE URI
  among its subject alternative names, that URI is the canonical service path of the policy's
  trust domain followed by a valid identifier, and the policy lists that identifier; the derived
  identity then holds that identifier, the policy's domain, the URI and the certificate digest.\<close>

theorem peer_certificate_accepted_iff:
  "verify_tls_peer_certificate_der X U policy der = Ok vi \<longleftrightarrow>
     (\<exists>cert names sid.
        from_der X der = Ok cert \<and>
        subject_alternative_name X cert = Ok (Some names) \<and>
        List.map_filter spiffe_uri_of names = [spiffe_prefix (sp_trust_domain policy) @ sid] \<and>
        valid_identifier sid \<and> policy_allows policy sid \<and>
        vi = \<lparr>vi_service_id = sid, vi_trust_domain = sp_trust_domain policy,
              vi_spiffe_uri = spiffe_prefix (sp_trust_domain policy) @ sid,
              vi_certificate_sha256 = sha256_hash U der\<rparr>)"
  unfolding verify_tls_peer_certificate_der_def Let_def result_simps parse_spiffe_Ok_iff
    not_not length_one_iff
  by fastforce

text \<open>C30. A SPIFFE URI names at most one trust domain and one service: if two well-formed trust
  domains both parse the same URI, they are the same domain and give the same service id.\<close>

theorem spiffe_uri_unambiguous:
  assumes "valid_trust_domain td1" and "valid_trust_domain td2"
    and "parse_spiffe_service_uri uri td1 = Ok a"
    and "parse_spiffe_service_uri uri td2 = Ok b"
  shows "td1 = td2 \<and> a = b"
proof -
  have "td1 @ CHR ''/'' # ''sdkwork/service/'' @ a = td2 @ CHR ''/'' # ''sdkwork/service/'' @ b"
    using assms(3,4)
    by (simp add: parse_spiffe_Ok_iff spiffe_prefix_def SPIFFE_SERVICE_PATH_PREFIX_def)
  then show ?thesis
    using assms(1,2) by (simp add: append_sep_inject valid_trust_domain_no_slash)
qed

theorem spiffe_uri_unambiguous_witness:
  "valid_trust_domain ''sdkwork.internal'' \<and>
   parse_spiffe_service_uri ''spiffe://sdkwork.internal/sdkwork/service/sdkwork-im''
     ''sdkwork.internal'' = Ok ''sdkwork-im'' \<and>
   (''sdkwork.internal'' = ''sdkwork.internal'' \<and> ''sdkwork-im'' = ''sdkwork-im'')"
proof -
  have td: "valid_trust_domain ''sdkwork.internal''"
    by code_simp
  have ok: "parse_spiffe_service_uri ''spiffe://sdkwork.internal/sdkwork/service/sdkwork-im''
     ''sdkwork.internal'' = Ok ''sdkwork-im''"
    by code_simp
  show ?thesis
    using td ok spiffe_uri_unambiguous [OF td td ok ok] by blast
qed

text \<open>A policy is built exactly from a valid trust domain and a non-empty list of valid service
  ids; it keeps the domain and the ids, sorted and without repetitions, and admits exactly the
  listed services.\<close>

theorem policy_new_accepts:
  "(policy_new td ids = Ok p) =
     (valid_trust_domain td \<and> ids \<noteq> [] \<and> list_all valid_identifier ids \<and>
      sp_trust_domain p = td \<and> sp_allowed_service_ids p = sort (remdups ids) \<and>
      policy_allows p = (\<lambda>sid. sid \<in> set ids))"
  by (auto simp: policy_new_Ok_iff list_all_iff btree_set_def policy_allows_def)

end
