(* ===== verification/Reference_Utils.thy ===== *)
theory Reference_Utils
  imports External_Api
begin

text \<open>
  A concrete \<open>sdkwork_utils\<close> at which the hypotheses on that library hold together: base64url
  without padding as RFC 4648 defines it, \<open>str::trim\<close> for the trimming functions, and a keyed
  tag of at most 32 bytes in the place of HMAC-SHA-256. The witnesses of the properties that
  take the library as a parameter use it.
\<close>

definition sextet_char :: "nat \<Rightarrow> char" where
  "sextet_char n =
     (if n < 26 then char_of (65 + n)
      else if n < 52 then char_of (71 + n)
      else if n < 62 then char_of (n - 4)
      else if n = 62 then CHR ''-'' else CHR ''_'')"

definition char_sextet :: "char \<Rightarrow> nat option" where
  "char_sextet c =
     (let n = of_char c :: nat in
      if 65 \<le> n \<and> n \<le> 90 then Some (n - 65)
      else if 97 \<le> n \<and> n \<le> 122 then Some (n - 71)
      else if 48 \<le> n \<and> n \<le> 57 then Some (n + 4)
      else if n = 45 then Some 62
      else if n = 95 then Some 63
      else None)"

fun to_sextets :: "nat list \<Rightarrow> nat list" where
  "to_sextets (a # b # c # bs) =
     [a div 4, (a mod 4) * 16 + b div 16, (b mod 16) * 4 + c div 64, c mod 64] @ to_sextets bs"
| "to_sextets [a, b] = [a div 4, (a mod 4) * 16 + b div 16, (b mod 16) * 4]"
| "to_sextets [a] = [a div 4, (a mod 4) * 16]"
| "to_sextets [] = []"

fun from_sextets :: "nat list \<Rightarrow> nat list option" where
  "from_sextets (w # x # y # z # ss) =
     map_option ((@) [w * 4 + x div 16, (x mod 16) * 16 + y div 4, (y mod 4) * 64 + z])
       (from_sextets ss)"
| "from_sextets [w, x, y] = Some [w * 4 + x div 16, (x mod 16) * 16 + y div 4]"
| "from_sextets [w, x] = Some [w * 4 + x div 16]"
| "from_sextets [w] = None"
| "from_sextets [] = Some []"

definition rfc4648_encode :: "bytes \<Rightarrow> string" where
  "rfc4648_encode b = map sextet_char (to_sextets (map of_char b))"

fun sextets_of_string :: "string \<Rightarrow> nat list option" where
  "sextets_of_string [] = Some []"
| "sextets_of_string (c # cs) =
     (case char_sextet c of None \<Rightarrow> None | Some n \<Rightarrow> map_option ((#) n) (sextets_of_string cs))"

definition rfc4648_decode :: "string \<Rightarrow> bytes option" where
  "rfc4648_decode s =
     Option.bind (sextets_of_string s) (\<lambda>ss. map_option (map char_of) (from_sextets ss))"

definition reference_tag :: "bytes \<Rightarrow> bytes \<Rightarrow> bytes" where
  "reference_tag m k = take 32 (rev m @ k @ ''#'')"

definition reference_utils :: sdkwork_utils where
  "reference_utils =
     \<lparr>trim = str_trim,
      is_blank = (\<lambda>s. case s of None \<Rightarrow> True | Some t \<Rightarrow> str_trim t = []),
      base64url_encode = rfc4648_encode,
      base64url_decode = rfc4648_decode,
      hmac_sha256_base64url = (\<lambda>m k. rfc4648_encode (reference_tag m k)),
      verify_hmac_sha256_base64url = (\<lambda>m k tag. tag = reference_tag m k),
      sha256_hash = (\<lambda>b. replicate 64 (CHR ''a''))\<rparr>"

lemma char_sextet_sextet_char: "n < 64 \<Longrightarrow> char_sextet (sextet_char n) = Some n"
  by (auto simp: char_sextet_def sextet_char_def Let_def)

lemma to_sextets_small: "\<forall>b \<in> set bs. b < 256 \<Longrightarrow> \<forall>s \<in> set (to_sextets bs). s < 64"
  by (induction bs rule: to_sextets.induct) auto

lemma from_to_sextets: "\<forall>b \<in> set bs. b < 256 \<Longrightarrow> from_sextets (to_sextets bs) = Some bs"
  by (induction bs rule: to_sextets.induct) (auto simp: mod_mult_self3)

lemma sextets_of_string_map:
  "\<forall>s \<in> set ss. s < 64 \<Longrightarrow> sextets_of_string (map sextet_char ss) = Some ss"
  by (induction ss) (simp_all add: char_sextet_sextet_char)

lemma rfc4648_roundtrip: "rfc4648_decode (rfc4648_encode b) = Some b"
proof -
  let ?bs = "map (of_char :: char \<Rightarrow> nat) b"
  have bytes: "\<forall>x \<in> set ?bs. x < 256" by simp
  then have "sextets_of_string (rfc4648_encode b) = Some (to_sextets ?bs)"
    by (simp add: rfc4648_encode_def sextets_of_string_map to_sextets_small del: set_map)
  moreover have "map char_of ?bs = b" by (simp add: comp_def)
  ultimately show ?thesis
    using from_to_sextets [OF bytes] by (simp add: rfc4648_decode_def)
qed

lemma length_to_sextets: "length (to_sextets bs) = (length bs * 4 + 2) div 3"
  by (induction bs rule: to_sextets.induct) auto

lemma reference_base64url: "base64url_roundtrip reference_utils" "base64url_length reference_utils"
  by (simp_all add: base64url_roundtrip_def reference_utils_def rfc4648_roundtrip)
    (simp add: base64url_length_def rfc4648_encode_def length_to_sextets)

lemma reference_hmac: "hmac_verifies reference_utils"
proof -
  have "length (rfc4648_encode (reference_tag m k)) \<le> 64" for m k
  proof -
    have "length (reference_tag m k) \<le> 32" by (simp add: reference_tag_def)
    then show ?thesis
      using div_le_mono [of "length (reference_tag m k) * 4 + 2" 130 3]
      by (simp add: rfc4648_encode_def length_to_sextets)
  qed
  then show ?thesis
    by (simp add: hmac_verifies_def reference_utils_def rfc4648_roundtrip)
qed

lemma graphic_sextet: "n < 64 \<Longrightarrow> graphic_ascii (sextet_char n)"
  by (auto simp: graphic_ascii_def sextet_char_def)

lemma graphic_rfc4648: "list_all graphic_ascii (rfc4648_encode b)"
proof -
  have "\<forall>x \<in> set (map (of_char :: char \<Rightarrow> nat) b). x < 256" by simp
  from to_sextets_small [OF this] show ?thesis
    by (auto simp: rfc4648_encode_def list_all_iff intro: graphic_sextet)
qed

lemma reference_text: "base64url_text reference_utils"
proof -
  have "rfc4648_encode (reference_tag m k) \<noteq> []" for m k
  proof -
    have "0 < length (reference_tag m k)" by (simp add: reference_tag_def)
    then have "length (rfc4648_encode (reference_tag m k)) \<noteq> 0"
      unfolding rfc4648_encode_def length_map length_to_sextets by linarith
    then show ?thesis by auto
  qed
  then show ?thesis
    by (simp add: base64url_text_def reference_utils_def graphic_rfc4648)
qed

lemma reference_trim: "blank_is_trimmed_empty reference_utils" "trim_keeps_clean reference_utils"
  by (simp_all add: blank_is_trimmed_empty_def trim_keeps_clean_def reference_utils_def)

lemmas reference_utils_laws = reference_base64url reference_hmac reference_trim

section \<open>A metadata map\<close>

definition reference_metadata :: "(string \<rightharpoonup> string, string) tonic_metadata" where
  "reference_metadata =
     \<lparr>md_new = Map.empty, md_get = (\<lambda>m k. m k), md_insert = (\<lambda>m k v. m(k \<mapsto> v)),
      metadata_key = (\<lambda>k. if k \<noteq> [] \<and> list_all key_char k \<and> drop (length k - 4) k \<noteq> ''-bin''
                          then Some k else None),
      metadata_value = (\<lambda>s. if list_all visible_ascii s then Some s else None),
      mv_to_str = Some\<rparr>"

lemma reference_metadata_laws:
  "metadata_get_insert reference_metadata"
  "metadata_value_reads_back reference_metadata"
  "metadata_accepts_ascii reference_metadata"
  by (simp_all add: metadata_get_insert_def metadata_value_reads_back_def
      metadata_accepts_ascii_def reference_metadata_def)

section \<open>An instance of all external code\<close>

definition reference_keys :: metadata_keys where
  "reference_keys =
     \<lparr>RPC_AUTHORIZATION_METADATA = ''authorization'', RPC_ACCESS_TOKEN_METADATA = ''access-token'',
      RPC_REQUEST_ID_METADATA = ''x-request-id'', RPC_TRACEPARENT_METADATA = ''traceparent'',
      RPC_IDEMPOTENCY_KEY_METADATA = ''idempotency-key'',
      RPC_REQUEST_HASH_METADATA = ''x-sdkwork-request-hash''\<rparr>"

text \<open>A channel is the URI it was opened for together with whether TLS was set.\<close>

definition reference_transport :: "(string \<times> bool, string \<times> bool, unit) tonic_transport" where
  "reference_transport =
     \<lparr>ep_from_shared = (\<lambda>uri. if uri = [] then Err ''empty uri'' else Ok (uri, False)),
      ep_connect_timeout = (\<lambda>_ e. e), ep_keep_alive_interval = (\<lambda>_ e. e),
      ep_keep_alive_timeout = (\<lambda>_ e. e), ep_keep_alive_while_idle = (\<lambda>_ e. e),
      ep_tls_config = (\<lambda>_ e. Ok (fst e, True)), ep_connect = Ok\<rparr>"

definition reference_proto :: discovery_proto where
  "reference_proto =
     \<lparr>instance_status = (\<lambda>i. if i = 2 then Some Serving else if i = 3 then Some Degraded
                            else if i \<le> 5 then Some OtherStatus else None),
      serving_as_i32 = 2,
      watch_event_type = (\<lambda>i. if i = 0 then Some EventUnspecified
                            else if i = 3 then Some InstanceDeregistered
                            else if i = 5 then Some Heartbeat
                            else if i \<le> 4 then Some OtherEvent else None)\<rparr>"

definition reference_externals ::
  "(string \<times> bool, string \<times> bool, unit, string \<rightharpoonup> string, string) externals" where
  "reference_externals =
     \<lparr>x_utils = reference_utils, x_keys = reference_keys, x_metadata = reference_metadata,
      x_transport = reference_transport, x_proto = reference_proto\<rparr>"

end
