(* ===== verification/Caller_Context.thy ===== *)
theory Caller_Context
  imports Service_Identity Reference_Utils "HOL-Library.AList"
begin

text \<open>
  Crate \<open>sdkwork-rpc-core\<close>, caller_context.rs: the builder of a caller context, the signer that
  serialises and signs it for a limited time, and the verifier that accepts it only from the
  mTLS peer that issued it. Base64, HMAC and JSON are the parameters \<open>U\<close> and \<open>J\<close>; the clock
  reading and the random nonce are arguments.
\<close>

section \<open>Constants and types\<close>

text \<open>The Rust literal ends in an escaped backslash and the letter n, not in a line feed.\<close>

definition CALLER_CONTEXT_SIGNATURE_DOMAIN :: string where
  "CALLER_CONTEXT_SIGNATURE_DOMAIN = ''sdkwork-rpc-caller-context/v1'' @ [CHR 0x5C, CHR ''n'']"

definition CALLER_CONTEXT_VERSION :: u8 where "CALLER_CONTEXT_VERSION = 1"
definition MAX_CALLER_CONTEXT_TTL :: duration where "MAX_CALLER_CONTEXT_TTL = from_secs 300"
definition MAX_CLOCK_SKEW :: duration where "MAX_CLOCK_SKEW = from_secs 30"
definition MAX_CONTEXT_METADATA_BYTES :: nat where "MAX_CONTEXT_METADATA_BYTES = 4096"

datatype RpcCallerActorKind = User | Service

record RpcCallerContext =
  cc_tenant_id :: string
  cc_organization_id :: string
  cc_actor_id :: string
  cc_actor_kind :: RpcCallerActorKind
  cc_session_id :: "string option"
  cc_request_id :: string
  cc_trace_id :: "string option"
  cc_idempotency_key :: "string option"
  cc_audience_service_id :: string

record RpcCallerContextBuilder =
  cb_tenant_id :: "string option"
  cb_organization_id :: "string option"
  cb_actor_id :: "string option"
  cb_actor_kind :: "RpcCallerActorKind option"
  cb_session_id :: "string option"
  cb_request_id :: "string option"
  cb_trace_id :: "string option"
  cb_idempotency_key :: "string option"
  cb_audience_service_id :: "string option"

record SignedRpcCallerContext =
  sc_encoded_context :: string
  sc_signature :: string

record SignedRpcCallerContextPayload =
  pl_version :: u8
  pl_issuer_service_id :: string
  pl_audience_service_id :: string
  pl_tenant_id :: string
  pl_organization_id :: string
  pl_actor_id :: string
  pl_actor_kind :: RpcCallerActorKind
  pl_session_id :: "string option"
  pl_request_id :: string
  pl_trace_id :: "string option"
  pl_idempotency_key :: "string option"
  pl_issued_at_unix_seconds :: i64
  pl_expires_at_unix_seconds :: i64
  pl_nonce :: string

record VerifiedRpcCallerContext =
  vc_issuer_service_id :: string
  vc_audience_service_id :: string
  vc_tenant_id :: string
  vc_organization_id :: string
  vc_actor_id :: string
  vc_actor_kind :: RpcCallerActorKind
  vc_session_id :: "string option"
  vc_request_id :: string
  vc_trace_id :: "string option"
  vc_idempotency_key :: "string option"
  vc_issued_at_unix_seconds :: i64
  vc_expires_at_unix_seconds :: i64
  vc_nonce :: string

text \<open>\<open>serde_json\<close> on the payload, a parameter: bytes or the error text, and back.\<close>

record serde_json =
  to_vec :: "SignedRpcCallerContextPayload \<Rightarrow> string + bytes"
  from_slice :: "bytes \<Rightarrow> string + SignedRpcCallerContextPayload"

section \<open>Building a context\<close>

definition caller_context_builder :: RpcCallerContextBuilder where
  "caller_context_builder =
     \<lparr>cb_tenant_id = None, cb_organization_id = None, cb_actor_id = None, cb_actor_kind = None,
      cb_session_id = None, cb_request_id = None, cb_trace_id = None,
      cb_idempotency_key = None, cb_audience_service_id = None\<rparr>"

definition set_tenant_id :: "string \<Rightarrow> RpcCallerContextBuilder \<Rightarrow> RpcCallerContextBuilder" where
  "set_tenant_id v b = b\<lparr>cb_tenant_id := Some v\<rparr>"
definition set_organization_id :: "string \<Rightarrow> RpcCallerContextBuilder \<Rightarrow> RpcCallerContextBuilder" where
  "set_organization_id v b = b\<lparr>cb_organization_id := Some v\<rparr>"
definition set_actor_id :: "string \<Rightarrow> RpcCallerContextBuilder \<Rightarrow> RpcCallerContextBuilder" where
  "set_actor_id v b = b\<lparr>cb_actor_id := Some v\<rparr>"
definition set_actor_kind :: "RpcCallerActorKind \<Rightarrow> RpcCallerContextBuilder \<Rightarrow> RpcCallerContextBuilder" where
  "set_actor_kind v b = b\<lparr>cb_actor_kind := Some v\<rparr>"
definition set_session_id :: "string \<Rightarrow> RpcCallerContextBuilder \<Rightarrow> RpcCallerContextBuilder" where
  "set_session_id v b = b\<lparr>cb_session_id := Some v\<rparr>"
definition set_request_id :: "string \<Rightarrow> RpcCallerContextBuilder \<Rightarrow> RpcCallerContextBuilder" where
  "set_request_id v b = b\<lparr>cb_request_id := Some v\<rparr>"
definition set_trace_id :: "string \<Rightarrow> RpcCallerContextBuilder \<Rightarrow> RpcCallerContextBuilder" where
  "set_trace_id v b = b\<lparr>cb_trace_id := Some v\<rparr>"
definition set_idempotency_key :: "string \<Rightarrow> RpcCallerContextBuilder \<Rightarrow> RpcCallerContextBuilder" where
  "set_idempotency_key v b = b\<lparr>cb_idempotency_key := Some v\<rparr>"
definition set_audience_service_id :: "string \<Rightarrow> RpcCallerContextBuilder \<Rightarrow> RpcCallerContextBuilder" where
  "set_audience_service_id v b = b\<lparr>cb_audience_service_id := Some v\<rparr>"

definition validated_identifier :: "string \<Rightarrow> string \<Rightarrow> RpcFrameworkError + string" where
  "validated_identifier field value =
     and_then (validate_identifier field value) (\<lambda>_. Ok value)"

definition required_identifier :: "string \<Rightarrow> string option \<Rightarrow> RpcFrameworkError + string" where
  "required_identifier field value =
     and_then (ok_or value (Validation (''caller context '' @ field @ '' is required'')))
       (validated_identifier field)"

definition optional_identifier ::
    "string \<Rightarrow> string option \<Rightarrow> RpcFrameworkError + string option" where
  "optional_identifier field value =
     (case value of None \<Rightarrow> Ok None
      | Some v \<Rightarrow> and_then (validated_identifier field v) (\<lambda>v. Ok (Some v)))"

definition build :: "RpcCallerContextBuilder \<Rightarrow> RpcFrameworkError + RpcCallerContext" where
  "build b =
     and_then (required_identifier ''tenant_id'' (cb_tenant_id b)) (\<lambda>tenant.
     and_then (required_identifier ''organization_id'' (cb_organization_id b)) (\<lambda>org.
     and_then (required_identifier ''actor_id'' (cb_actor_id b)) (\<lambda>actor.
     and_then (ok_or (cb_actor_kind b)
       (Validation ''caller context actor_kind is required'')) (\<lambda>kind.
     and_then (required_identifier ''request_id'' (cb_request_id b)) (\<lambda>request.
     and_then (required_identifier ''audience_service_id'' (cb_audience_service_id b)) (\<lambda>audience.
     and_then (optional_identifier ''session_id'' (cb_session_id b)) (\<lambda>session.
     and_then (optional_identifier ''trace_id'' (cb_trace_id b)) (\<lambda>trace.
     and_then (optional_identifier ''idempotency_key'' (cb_idempotency_key b)) (\<lambda>idem.
     reject_if (kind = User \<and> session = None)
       (Validation ''user caller context requires a session_id'')
     (Ok \<lparr>cc_tenant_id = tenant, cc_organization_id = org, cc_actor_id = actor,
          cc_actor_kind = kind, cc_session_id = session, cc_request_id = request,
          cc_trace_id = trace, cc_idempotency_key = idem,
          cc_audience_service_id = audience\<rparr>))))))))))"

section \<open>Signing keys\<close>

definition from_secret_bytes :: "bytes \<Rightarrow> RpcFrameworkError + bytes" where
  "from_secret_bytes b =
     reject_if (length b \<noteq> 32)
       (Configuration ''rpc caller context signing key must be exactly 32 bytes'') (Ok b)"

definition from_base64url :: "sdkwork_utils \<Rightarrow> string \<Rightarrow> RpcFrameworkError + bytes" where
  "from_base64url U encoded =
     and_then (ok_or (base64url_decode U encoded)
       (Configuration ''rpc caller context signing key must be unpadded base64url''))
     from_secret_bytes"

section \<open>Signing\<close>

record RpcCallerContextSigner =
  sg_issuer_service_id :: string
  sg_signing_key :: bytes
  sg_max_ttl :: duration

definition signer_new :: "string \<Rightarrow> bytes \<Rightarrow> RpcFrameworkError + RpcCallerContextSigner" where
  "signer_new issuer_service_id signing_key =
     and_then (validate_identifier ''issuer_service_id'' issuer_service_id) (\<lambda>_.
     Ok \<lparr>sg_issuer_service_id = issuer_service_id, sg_signing_key = signing_key,
         sg_max_ttl = MAX_CALLER_CONTEXT_TTL\<rparr>)"

definition unix_seconds :: "system_time \<Rightarrow> RpcFrameworkError + i64" where
  "unix_seconds value =
     (if value < 0
      then Err (Validation
        ''system clock precedes the Unix epoch while issuing rpc caller context'')
      else ok_or (i64_try_from (as_secs (nat value)))
        (Validation ''system clock is outside supported rpc caller context range''))"

definition signing_input :: "string \<Rightarrow> string" where
  "signing_input encoded_context = CALLER_CONTEXT_SIGNATURE_DOMAIN @ encoded_context"

definition ttl_range_error :: "duration \<Rightarrow> RpcFrameworkError" where
  "ttl_range_error max_ttl = Validation
     (''rpc caller context ttl must be between 1 second and '' @ show_nat (as_secs max_ttl)
      @ '' seconds'')"

definition payload_of ::
    "RpcCallerContextSigner \<Rightarrow> RpcCallerContext \<Rightarrow> i64 \<Rightarrow> i64 \<Rightarrow> string \<Rightarrow>
     SignedRpcCallerContextPayload" where
  "payload_of s context issued_at expires_at nonce =
     \<lparr>pl_version = CALLER_CONTEXT_VERSION,
      pl_issuer_service_id = sg_issuer_service_id s,
      pl_audience_service_id = cc_audience_service_id context,
      pl_tenant_id = cc_tenant_id context,
      pl_organization_id = cc_organization_id context,
      pl_actor_id = cc_actor_id context,
      pl_actor_kind = cc_actor_kind context,
      pl_session_id = cc_session_id context,
      pl_request_id = cc_request_id context,
      pl_trace_id = cc_trace_id context,
      pl_idempotency_key = cc_idempotency_key context,
      pl_issued_at_unix_seconds = issued_at,
      pl_expires_at_unix_seconds = expires_at,
      pl_nonce = nonce\<rparr>"

definition sign_at ::
    "sdkwork_utils \<Rightarrow> serde_json \<Rightarrow> RpcCallerContextSigner \<Rightarrow> RpcCallerContext \<Rightarrow> duration \<Rightarrow>
     system_time \<Rightarrow> string \<Rightarrow> RpcFrameworkError + SignedRpcCallerContext" where
  "sign_at U J s context ttl now nonce =
     reject_if (ttl = 0 \<or> ttl > sg_max_ttl s) (ttl_range_error (sg_max_ttl s))
     (and_then (unix_seconds now) (\<lambda>issued_at.
      and_then (ok_or (i64_try_from (as_secs ttl))
        (Validation ''rpc caller context ttl is too large'')) (\<lambda>ttl_seconds.
      and_then (ok_or (i64_checked_add issued_at ttl_seconds)
        (Validation ''rpc caller context expiry overflow'')) (\<lambda>expires_at.
      and_then (map_err
          (\<lambda>e. Validation (''failed to serialize rpc caller context: '' @ e))
          (to_vec J (payload_of s context issued_at expires_at nonce))) (\<lambda>serialized.
      let encoded_context = base64url_encode U serialized in
      Ok \<lparr>sc_encoded_context = encoded_context,
          sc_signature =
            hmac_sha256_base64url U (signing_input encoded_context) (sg_signing_key s)\<rparr>)))))"

text \<open>\<open>now\<close> is \<open>SystemTime::now()\<close>.\<close>

definition sign ::
    "sdkwork_utils \<Rightarrow> serde_json \<Rightarrow> RpcCallerContextSigner \<Rightarrow> RpcCallerContext \<Rightarrow> duration \<Rightarrow>
     system_time \<Rightarrow> string \<Rightarrow> RpcFrameworkError + SignedRpcCallerContext" where
  "sign U J s context ttl now nonce = sign_at U J s context ttl now nonce"

definition from_transport_metadata :: "string \<Rightarrow> string \<Rightarrow> SignedRpcCallerContext" where
  "from_transport_metadata encoded_context signature_text =
     \<lparr>sc_encoded_context = encoded_context, sc_signature = signature_text\<rparr>"

declare sign_def [simp] from_transport_metadata_def [simp]

section \<open>Verification\<close>

record RpcCallerContextVerifier =
  vf_audience_service_id :: string
  vf_issuer_keys :: "(string \<times> bytes) list"
  vf_max_ttl :: duration
  vf_max_clock_skew :: duration

text \<open>A \<open>BTreeMap\<close> collected from pairs: a later pair replaces an earlier one with its key.\<close>

definition btree_map :: "(string \<times> 'v) list \<Rightarrow> (string \<times> 'v) list" where
  "btree_map kvs = fold (\<lambda>(k, v). AList.update k v) kvs []"

definition verifier_new ::
    "string \<Rightarrow> (string \<times> bytes) list \<Rightarrow> RpcFrameworkError + RpcCallerContextVerifier" where
  "verifier_new audience_service_id issuer_keys =
     and_then (validate_identifier ''audience_service_id'' audience_service_id) (\<lambda>_.
     and_then (collect_results
        (\<lambda>(service_id, key).
           and_then (validated_identifier ''issuer_service_id'' service_id) (\<lambda>sid. Ok (sid, key)))
        issuer_keys) (\<lambda>pairs.
     reject_if (btree_map pairs = [])
       (Configuration
         ''rpc caller context verifier requires at least one trusted issuer key'')
     (Ok \<lparr>vf_audience_service_id = audience_service_id,
          vf_issuer_keys = btree_map pairs,
          vf_max_ttl = MAX_CALLER_CONTEXT_TTL,
          vf_max_clock_skew = MAX_CLOCK_SKEW\<rparr>)))"

definition validate_payload ::
    "SignedRpcCallerContextPayload \<Rightarrow> duration \<Rightarrow> RpcFrameworkError + unit" where
  "validate_payload p max_ttl =
     reject_if (pl_version p \<noteq> CALLER_CONTEXT_VERSION)
       (Validation ''unsupported rpc caller context version'')
     (and_then (check_each (\<lambda>(field, value). validate_identifier field value)
        [(''issuer_service_id'', pl_issuer_service_id p),
         (''audience_service_id'', pl_audience_service_id p),
         (''tenant_id'', pl_tenant_id p),
         (''organization_id'', pl_organization_id p),
         (''actor_id'', pl_actor_id p),
         (''request_id'', pl_request_id p),
         (''nonce'', pl_nonce p)]) (\<lambda>_.
      reject_if (pl_actor_kind p = User \<and> pl_session_id p = None)
        (Validation ''user rpc caller context requires a session_id'')
      (and_then (check_each
         (\<lambda>(field, value). case value of None \<Rightarrow> Ok () | Some v \<Rightarrow> validate_identifier field v)
         [(''session_id'', pl_session_id p),
          (''trace_id'', pl_trace_id p),
          (''idempotency_key'', pl_idempotency_key p)]) (\<lambda>_.
       and_then (ok_or (i64_checked_sub (pl_expires_at_unix_seconds p)
                          (pl_issued_at_unix_seconds p))
         (Validation ''rpc caller context expiry precedes issue time'')) (\<lambda>ttl.
       reject_if (sint ttl \<le> 0 \<or> nat (sint ttl) > as_secs max_ttl) (ttl_range_error max_ttl)
       (Ok ()))))))"

definition validate_time_window ::
    "SignedRpcCallerContextPayload \<Rightarrow> system_time \<Rightarrow> duration \<Rightarrow> RpcFrameworkError + unit" where
  "validate_time_window p now max_clock_skew =
     and_then (unix_seconds now) (\<lambda>now_seconds.
     and_then (ok_or (i64_try_from (as_secs max_clock_skew))
       (Validation ''rpc caller context clock skew is too large'')) (\<lambda>skew.
     reject_if (sint (pl_issued_at_unix_seconds p) > sint (i64_saturating_add now_seconds skew))
       (Validation ''rpc caller context is issued in the future'')
     (reject_if (sint (pl_expires_at_unix_seconds p) < sint (i64_saturating_sub now_seconds skew))
       (Validation ''rpc caller context has expired'')
     (Ok ()))))"

fun validate_metadata_idempotency ::
    "string option \<Rightarrow> string option \<Rightarrow> RpcFrameworkError + unit" where
  "validate_metadata_idempotency (Some expected) (Some actual) =
     reject_if (expected \<noteq> actual)
       (Validation ''rpc caller context idempotency key does not match request metadata'') (Ok ())"
| "validate_metadata_idempotency None None = Ok ()"
| "validate_metadata_idempotency _ _ =
     Err (Validation ''rpc caller context idempotency key does not match request metadata'')"

definition verified_of :: "SignedRpcCallerContextPayload \<Rightarrow> VerifiedRpcCallerContext" where
  "verified_of p =
     \<lparr>vc_issuer_service_id = pl_issuer_service_id p,
      vc_audience_service_id = pl_audience_service_id p,
      vc_tenant_id = pl_tenant_id p,
      vc_organization_id = pl_organization_id p,
      vc_actor_id = pl_actor_id p,
      vc_actor_kind = pl_actor_kind p,
      vc_session_id = pl_session_id p,
      vc_request_id = pl_request_id p,
      vc_trace_id = pl_trace_id p,
      vc_idempotency_key = pl_idempotency_key p,
      vc_issued_at_unix_seconds = pl_issued_at_unix_seconds p,
      vc_expires_at_unix_seconds = pl_expires_at_unix_seconds p,
      vc_nonce = pl_nonce p\<rparr>"

definition verify ::
    "sdkwork_utils \<Rightarrow> serde_json \<Rightarrow> RpcCallerContextVerifier \<Rightarrow> SignedRpcCallerContext \<Rightarrow>
     VerifiedRpcServiceIdentity \<Rightarrow> string option \<Rightarrow> system_time \<Rightarrow>
     RpcFrameworkError + VerifiedRpcCallerContext" where
  "verify U J v sctx peer metadata_idempotency_key now =
     reject_if (length (sc_encoded_context sctx) > MAX_CONTEXT_METADATA_BYTES
         \<or> length (sc_signature sctx) > MAX_CONTEXT_METADATA_BYTES)
       (Validation ''rpc caller context metadata exceeds maximum size'')
     (and_then (ok_or (base64url_decode U (sc_encoded_context sctx))
        (Validation ''rpc caller context is not valid base64url'')) (\<lambda>decoded.
      and_then (map_err (\<lambda>_. Validation ''rpc caller context has an invalid schema'')
        (from_slice J decoded)) (\<lambda>p.
      and_then (validate_payload p (vf_max_ttl v)) (\<lambda>_.
      reject_if (pl_audience_service_id p \<noteq> vf_audience_service_id v)
        (Validation ''rpc caller context is issued for a different audience service'')
      (reject_if (pl_issuer_service_id p \<noteq> vi_service_id peer)
        (Validation ''rpc caller context issuer does not match the mTLS peer identity'')
      (and_then (ok_or (map_of (vf_issuer_keys v) (pl_issuer_service_id p))
        (Validation ''rpc caller context issuer is not trusted for this listener'')) (\<lambda>key.
      and_then (ok_or (base64url_decode U (sc_signature sctx))
        (Validation ''rpc caller context signature is not valid base64url'')) (\<lambda>tag.
      reject_if (\<not> verify_hmac_sha256_base64url U (signing_input (sc_encoded_context sctx)) key tag)
        (Validation ''rpc caller context signature is invalid'')
      (and_then (validate_time_window p now (vf_max_clock_skew v)) (\<lambda>_.
      and_then (validate_metadata_idempotency (pl_idempotency_key p) metadata_idempotency_key) (\<lambda>_.
      Ok (verified_of p))))))))))))"

section \<open>What the checks accept\<close>

definition opt_valid :: "string option \<Rightarrow> bool" where
  "opt_valid x = (case x of None \<Rightarrow> True | Some s \<Rightarrow> valid_identifier s)"

definition context_wf :: "RpcCallerContext \<Rightarrow> bool" where
  "context_wf c \<longleftrightarrow>
     valid_identifier (cc_tenant_id c) \<and> valid_identifier (cc_organization_id c) \<and>
     valid_identifier (cc_actor_id c) \<and> valid_identifier (cc_request_id c) \<and>
     valid_identifier (cc_audience_service_id c) \<and> opt_valid (cc_session_id c) \<and>
     opt_valid (cc_trace_id c) \<and> opt_valid (cc_idempotency_key c) \<and>
     \<not> (cc_actor_kind c = User \<and> cc_session_id c = None)"

definition payload_wf :: "SignedRpcCallerContextPayload \<Rightarrow> bool" where
  "payload_wf p \<longleftrightarrow>
     pl_version p = CALLER_CONTEXT_VERSION \<and>
     valid_identifier (pl_issuer_service_id p) \<and> valid_identifier (pl_audience_service_id p) \<and>
     valid_identifier (pl_tenant_id p) \<and> valid_identifier (pl_organization_id p) \<and>
     valid_identifier (pl_actor_id p) \<and> valid_identifier (pl_request_id p) \<and>
     valid_identifier (pl_nonce p) \<and> opt_valid (pl_session_id p) \<and>
     opt_valid (pl_trace_id p) \<and> opt_valid (pl_idempotency_key p) \<and>
     \<not> (pl_actor_kind p = User \<and> pl_session_id p = None)"

text \<open>What the code relies on in \<open>serde_json\<close>: a payload serialises to bytes that parse back to
  it, and the compact form of a payload of valid identifiers stays below the metadata limit.\<close>

definition json_roundtrip :: "serde_json \<Rightarrow> bool" where
  "json_roundtrip J \<longleftrightarrow> (\<forall>p. \<exists>b. to_vec J p = Ok b \<and> from_slice J b = Ok p)"

definition json_compact :: "serde_json \<Rightarrow> bool" where
  "json_compact J \<longleftrightarrow> (\<forall>p b. payload_wf p \<longrightarrow> to_vec J p = Ok b \<longrightarrow> length b \<le> 3072)"

text \<open>Whole seconds of a clock reading.\<close>

definition clock_seconds :: "system_time \<Rightarrow> int" where
  "clock_seconds now = now div 10 ^ 9"

definition clock_ok :: "system_time \<Rightarrow> bool" where
  "clock_ok now \<longleftrightarrow> 0 \<le> now \<and> clock_seconds now < 2 ^ 63"

lemma validated_identifier_Ok_iff [simp]:
  "validated_identifier field s = Inr t \<longleftrightarrow> valid_identifier s \<and> t = s"
  by (auto simp: validated_identifier_def result_simps)

lemma required_identifier_Ok_iff [simp]:
  "required_identifier field x = Inr t \<longleftrightarrow> x = Some t \<and> valid_identifier t"
  by (auto simp: required_identifier_def result_simps)

lemma optional_identifier_Ok_iff [simp]:
  "optional_identifier field x = Inr y \<longleftrightarrow> opt_valid x \<and> y = x"
  by (auto simp: optional_identifier_def opt_valid_def result_simps split: option.splits)

lemma build_wf: "build b = Inr c \<Longrightarrow> context_wf c"
  by (auto simp: build_def context_wf_def result_simps)

lemma unix_seconds_Ok_iff:
  "unix_seconds now = Inr t \<longleftrightarrow> clock_ok now \<and> sint t = clock_seconds now"
proof (cases "now < 0")
  case True
  then show ?thesis by (simp add: unix_seconds_def clock_ok_def)
next
  case False
  then have nat_sec: "int (as_secs (nat now)) = clock_seconds now"
    by (simp add: as_secs_def clock_seconds_def zdiv_int)
  then have "as_secs (nat now) < 2 ^ 63 \<longleftrightarrow> clock_seconds now < 2 ^ 63"
    by (metis (mono_tags, lifting) of_nat_less_iff of_nat_numeral of_nat_power)
  with False nat_sec show ?thesis
    by (auto simp: unix_seconds_def result_simps i64_try_from_Some_iff clock_ok_def)
qed

lemma opt_check_Ok_iff:
  "(case x of None \<Rightarrow> Ok () | Some v \<Rightarrow> validate_identifier field v) = Inr u \<longleftrightarrow> opt_valid x"
  by (cases x) (simp_all add: opt_valid_def)

lemma validate_payload_Ok_iff:
  assumes "as_secs max_ttl < 2 ^ 63"
  shows "validate_payload p max_ttl = Inr u \<longleftrightarrow>
    payload_wf p \<and>
    1 \<le> sint (pl_expires_at_unix_seconds p) - sint (pl_issued_at_unix_seconds p) \<and>
    sint (pl_expires_at_unix_seconds p) - sint (pl_issued_at_unix_seconds p) \<le> int (as_secs max_ttl)"
proof -
  let ?d = "sint (pl_expires_at_unix_seconds p) - sint (pl_issued_at_unix_seconds p)"
  have limit: "int (as_secs max_ttl) < 2 ^ 63"
    using assms by simp
  have "(\<exists>ttl. i64_checked_sub (pl_expires_at_unix_seconds p) (pl_issued_at_unix_seconds p) = Some ttl
      \<and> \<not> (sint ttl \<le> 0 \<or> nat (sint ttl) > as_secs max_ttl)) \<longleftrightarrow>
      1 \<le> ?d \<and> ?d \<le> int (as_secs max_ttl)" (is "?L \<longleftrightarrow> ?R")
  proof
    assume ?L then show ?R by (auto simp: i64_checked_sub_Some_iff)
  next
    assume ?R
    with limit have "i64_in_range ?d" by (simp add: i64_in_range_def)
    then have "i64_checked_sub (pl_expires_at_unix_seconds p) (pl_issued_at_unix_seconds p) =
        Some (word_of_int ?d)" and "sint (word_of_int ?d :: i64) = ?d"
      by (simp_all only: i64_checked_sub_def sint_word_of_int_i64 if_True)
    with \<open>?R\<close> show ?L by (metis nat_le_iff not_le zero_less_one_class.zero_less_one less_le_trans)
  qed
  then show ?thesis
    by (auto simp: validate_payload_def payload_wf_def result_simps opt_check_Ok_iff)
qed

lemma validate_time_window_Ok_iff:
  assumes "as_secs skew < 2 ^ 63"
  shows "validate_time_window p now skew = Inr u \<longleftrightarrow>
    clock_ok now \<and>
    sint (pl_issued_at_unix_seconds p) \<le> clock_seconds now + int (as_secs skew) \<and>
    clock_seconds now - int (as_secs skew) \<le> sint (pl_expires_at_unix_seconds p)"
proof (cases "unix_seconds now")
  case (Inl e)
  then have "\<not> clock_ok now"
    using unix_seconds_Ok_iff [of now "word_of_int (clock_seconds now)"]
    by (auto simp: clock_ok_def clock_seconds_def sint_word_of_int_i64 i64_in_range_def)
  with Inl show ?thesis by (simp add: validate_time_window_def)
next
  case (Inr t)
  then have t: "clock_ok now" "sint t = clock_seconds now"
    by (simp_all add: unix_seconds_Ok_iff)
  obtain k where k: "i64_try_from (as_secs skew) = Some k" "sint k = int (as_secs skew)"
    using assms i64_try_from_Some_iff by (metis i64_try_from_def)
  have "0 \<le> clock_seconds now" and "clock_seconds now < 2 ^ 63"
    using t(1) by (simp_all add: clock_ok_def clock_seconds_def pos_imp_zdiv_nonneg_iff)
  then have "- (2 ^ 63) \<le> sint t + sint k" and "sint t - sint k < 2 ^ 63"
    using t(2) k(2) by simp_all
  with t k Inr show ?thesis
    by (auto simp: validate_time_window_def result_simps i64_saturating_add_def
        i64_saturating_sub_def i64_clamp_less_iff i64_less_clamp_iff sint_i64_range)
qed

lemma validate_metadata_idempotency_Ok_iff [simp]:
  "validate_metadata_idempotency x y = Inr u \<longleftrightarrow> x = y"
  by (cases "(x, y)" rule: validate_metadata_idempotency.cases) (auto simp: result_simps)

lemma map_of_btree_map: "map_of (btree_map kvs) = map_of (rev kvs)"
proof -
  have "map_of (fold (\<lambda>(k, v). AList.update k v) kvs al) = map_of al ++ map_of (rev kvs)" for al
    by (induction kvs arbitrary: al) (auto simp: AList.update_conv')
  then show ?thesis by (simp add: btree_map_def)
qed

lemma btree_map_empty_iff: "btree_map kvs = [] \<longleftrightarrow> kvs = []"
proof (cases kvs)
  case (Cons kv kvs')
  then have "map_of (rev kvs) (fst kv) \<noteq> None"
    by (simp add: map_of_eq_None_iff)
  then have "map_of (btree_map kvs) (fst kv) \<noteq> None"
    by (simp add: map_of_btree_map)
  with Cons show ?thesis by auto
qed (simp add: btree_map_def)

lemma issuer_pairs_Ok_iff:
  "collect_results (\<lambda>(sid, key).
      and_then (validated_identifier ''issuer_service_id'' sid) (\<lambda>s. Ok (s, key))) pairs = Inr ys \<longleftrightarrow>
   list_all (\<lambda>(sid, key). valid_identifier sid) pairs \<and> ys = pairs"
  by (rule collect_results_guard) (auto simp: result_simps split: prod.splits)

lemma verifier_new_Ok_iff:
  "verifier_new aud pairs = Inr v \<longleftrightarrow>
     valid_identifier aud \<and> list_all (\<lambda>(sid, key). valid_identifier sid) pairs \<and> pairs \<noteq> [] \<and>
     v = \<lparr>vf_audience_service_id = aud, vf_issuer_keys = btree_map pairs,
          vf_max_ttl = MAX_CALLER_CONTEXT_TTL, vf_max_clock_skew = MAX_CLOCK_SKEW\<rparr>"
  unfolding verifier_new_def result_simps validate_identifier_Ok_iff issuer_pairs_Ok_iff
    btree_map_empty_iff
  by auto

lemma limit_seconds [simp]:
  "as_secs MAX_CALLER_CONTEXT_TTL = 300" "as_secs MAX_CLOCK_SKEW = 30"
  by (simp_all add: MAX_CALLER_CONTEXT_TTL_def MAX_CLOCK_SKEW_def)

lemmas verifier_checks =
  validate_payload_Ok_iff [of MAX_CALLER_CONTEXT_TTL, simplified limit_seconds]
  validate_time_window_Ok_iff [of MAX_CLOCK_SKEW, simplified limit_seconds]

text \<open>The conditions under which a verifier accepts: size, encoding, schema, identifiers, life
  time, audience, issuer, key, signature, clock window and idempotency key.\<close>

definition accepts ::
    "sdkwork_utils \<Rightarrow> serde_json \<Rightarrow> string \<Rightarrow> (string \<times> bytes) list \<Rightarrow> SignedRpcCallerContext \<Rightarrow>
     string \<Rightarrow> string option \<Rightarrow> system_time \<Rightarrow> SignedRpcCallerContextPayload \<Rightarrow> bool" where
  "accepts U J aud pairs sctx peer_id md now p \<longleftrightarrow>
     length (sc_encoded_context sctx) \<le> 4096 \<and> length (sc_signature sctx) \<le> 4096 \<and>
     (\<exists>b. base64url_decode U (sc_encoded_context sctx) = Some b \<and> from_slice J b = Ok p) \<and>
     payload_wf p \<and>
     1 \<le> sint (pl_expires_at_unix_seconds p) - sint (pl_issued_at_unix_seconds p) \<and>
     sint (pl_expires_at_unix_seconds p) - sint (pl_issued_at_unix_seconds p) \<le> 300 \<and>
     pl_audience_service_id p = aud \<and> pl_issuer_service_id p = peer_id \<and>
     (\<exists>key tag. map_of (rev pairs) peer_id = Some key \<and>
        base64url_decode U (sc_signature sctx) = Some tag \<and>
        verify_hmac_sha256_base64url U (signing_input (sc_encoded_context sctx)) key tag) \<and>
     clock_ok now \<and>
     sint (pl_issued_at_unix_seconds p) \<le> clock_seconds now + 30 \<and>
     clock_seconds now - 30 \<le> sint (pl_expires_at_unix_seconds p) \<and>
     pl_idempotency_key p = md"

lemma verify_Ok_iff:
  assumes "verifier_new aud pairs = Inr v"
  shows "verify U J v sctx peer md now = Inr vc \<longleftrightarrow>
    (\<exists>p. accepts U J aud pairs sctx (vi_service_id peer) md now p \<and> vc = verified_of p)"
  using assms
  by (auto simp: verifier_new_Ok_iff verify_def result_simps verifier_checks map_of_btree_map
      accepts_def MAX_CONTEXT_METADATA_BYTES_def not_less)

section \<open>A serialisation with the assumed laws\<close>

text \<open>
  A length-framed encoding of the payload's fields, at which \<open>json_roundtrip\<close> and
  \<open>json_compact\<close> hold together. The witnesses below use it.
\<close>

definition opt_field :: "string option \<Rightarrow> string" where
  "opt_field x = (case x of None \<Rightarrow> ''n'' | Some s \<Rightarrow> CHR ''s'' # s)"

definition field_opt :: "string \<Rightarrow> string option" where
  "field_opt s = (if hd s = CHR ''n'' then None else Some (tl s))"

definition payload_fields :: "SignedRpcCallerContextPayload \<Rightarrow> string list" where
  "payload_fields p =
     [[char_of (unat (pl_version p))], pl_issuer_service_id p, pl_audience_service_id p,
      pl_tenant_id p, pl_organization_id p, pl_actor_id p,
      (case pl_actor_kind p of User \<Rightarrow> ''u'' | Service \<Rightarrow> ''s''), opt_field (pl_session_id p),
      pl_request_id p, opt_field (pl_trace_id p), opt_field (pl_idempotency_key p),
      show_nat (unat (pl_issued_at_unix_seconds p)),
      show_nat (unat (pl_expires_at_unix_seconds p)), pl_nonce p]"

definition fields_payload :: "string list \<Rightarrow> string + SignedRpcCallerContextPayload" where
  "fields_payload fs =
     (if length fs = 14
      then Ok \<lparr>pl_version = word_of_nat (of_char (hd (fs ! 0))), pl_issuer_service_id = fs ! 1,
               pl_audience_service_id = fs ! 2, pl_tenant_id = fs ! 3,
               pl_organization_id = fs ! 4, pl_actor_id = fs ! 5,
               pl_actor_kind = (if fs ! 6 = ''u'' then User else Service),
               pl_session_id = field_opt (fs ! 7), pl_request_id = fs ! 8,
               pl_trace_id = field_opt (fs ! 9), pl_idempotency_key = field_opt (fs ! 10),
               pl_issued_at_unix_seconds = the (parse_u64 (fs ! 11)),
               pl_expires_at_unix_seconds = the (parse_u64 (fs ! 12)), pl_nonce = fs ! 13\<rparr>
      else Err ''wrong number of fields'')"

definition frame :: "string \<Rightarrow> bytes" where
  "frame s = concat (map (\<lambda>c. [CHR ''x'', c]) s) @ ''.''"

fun frames :: "bytes \<Rightarrow> string \<Rightarrow> string list" where
  "frames [] acc = []"
| "frames [m] acc = [rev acc]"
| "frames (m # c # cs) acc =
     (if m = CHR ''.'' then rev acc # frames (c # cs) [] else frames cs (c # acc))"

definition reference_json :: serde_json where
  "reference_json =
     \<lparr>to_vec = (\<lambda>p. Ok (concat (map frame (payload_fields p)))),
      from_slice = (\<lambda>b. fields_payload (frames b []))\<rparr>"

lemma frames_frame: "frames (concat (map (\<lambda>c. [CHR ''x'', c]) s) @ CHR ''.'' # r) acc =
    (rev acc @ s) # frames r []"
proof (induction s arbitrary: acc)
  case Nil
  then show ?case by (cases r) simp_all
qed simp

lemma frames_concat: "frames (concat (map frame fs)) [] = fs"
  by (induction fs) (simp_all add: frame_def frames_frame)

lemma field_opt_opt_field [simp]: "field_opt (opt_field x) = x"
  by (cases x) (simp_all add: opt_field_def field_opt_def)

lemma fields_payload_fields: "fields_payload (payload_fields p) = Ok p"
proof -
  have "unat (pl_version p) < 256"
    using unat_less_range [of "pl_version p"] by simp
  then show ?thesis
    by (cases "pl_actor_kind p")
      (simp_all add: fields_payload_def payload_fields_def parse_u64_show_nat)
qed

lemma length_frame: "length (frame s) = 2 * length s + 1"
  by (induction s) (simp_all add: frame_def)

lemma length_show_u64: "length (show_nat (unat (w :: u64))) \<le> 20"
proof -
  have "unat w < 2 ^ 64" using unat_less_range [of w] by simp
  then have "unat w < 10 ^ Suc 19" by simp
  then show ?thesis using length_show_nat by fastforce
qed

lemma reference_json_laws: "json_roundtrip reference_json" "json_compact reference_json"
proof -
  show "json_roundtrip reference_json"
    by (simp add: json_roundtrip_def reference_json_def frames_concat fields_payload_fields)
  have "length (concat (map frame (payload_fields p))) \<le> 3072" if p: "payload_wf p" for p
  proof -
    have "length (opt_field x) \<le> 129" if "opt_valid x" for x
      using that by (auto simp: opt_field_def opt_valid_def valid_identifier_def split: option.splits)
    with p have "length (opt_field (pl_session_id p)) \<le> 129"
      "length (opt_field (pl_trace_id p)) \<le> 129" "length (opt_field (pl_idempotency_key p)) \<le> 129"
      by (simp_all add: payload_wf_def)
    moreover have "length (case pl_actor_kind p of User \<Rightarrow> ''u'' | Service \<Rightarrow> ''s'') = 1"
      by (simp split: RpcCallerActorKind.splits)
    moreover note length_show_u64 [of "pl_issued_at_unix_seconds p"]
      length_show_u64 [of "pl_expires_at_unix_seconds p"]
    ultimately show ?thesis
      using p by (simp add: payload_wf_def valid_identifier_def payload_fields_def length_frame)
  qed
  then show "json_compact reference_json"
    by (simp add: json_compact_def reference_json_def)
qed

section \<open>What the signer writes\<close>

lemma signer_new_Ok_iff:
  "signer_new issuer key = Inr s \<longleftrightarrow> valid_identifier issuer \<and>
     s = \<lparr>sg_issuer_service_id = issuer, sg_signing_key = key, sg_max_ttl = MAX_CALLER_CONTEXT_TTL\<rparr>"
  by (auto simp: signer_new_def result_simps)

lemma sign_at_writes:
  assumes s: "signer_new issuer key = Inr s" and J: "json_roundtrip J"
    and ttl: "0 < ttl" "ttl \<le> from_secs 300"
    and now: "0 \<le> now" "clock_seconds now + 300 < 2 ^ 63"
  obtains iss expi b where
    "sint iss = clock_seconds now" "sint expi = clock_seconds now + int (as_secs ttl)"
    "from_slice J b = Inr (payload_of s ctx iss expi nonce)"
    "to_vec J (payload_of s ctx iss expi nonce) = Inr b"
    "sign_at U J s ctx ttl now nonce = Inr \<lparr>sc_encoded_context = base64url_encode U b,
        sc_signature = hmac_sha256_base64url U (signing_input (base64url_encode U b)) key\<rparr>"
proof -
  have secs: "as_secs ttl \<le> 300"
    using ttl(2) by (simp add: as_secs_def from_secs_def)
  have nonneg: "0 \<le> clock_seconds now"
    using now(1) by (simp add: clock_seconds_def pos_imp_zdiv_nonneg_iff)
  obtain iss where iss: "unix_seconds now = Inr iss" "sint iss = clock_seconds now"
    using now nonneg unix_seconds_Ok_iff [of now "word_of_int (clock_seconds now)"]
    by (auto simp: clock_ok_def sint_word_of_int_i64 i64_in_range_def)
  obtain t where t: "i64_try_from (as_secs ttl) = Some t" "sint t = int (as_secs ttl)"
    using secs i64_try_from_Some_iff [of "as_secs ttl" "word_of_nat (as_secs ttl)"]
    by (auto simp: i64_try_from_def)
  obtain expi where expi: "i64_checked_add iss t = Some expi"
      "sint expi = clock_seconds now + int (as_secs ttl)"
    using iss t now nonneg secs i64_checked_add_Some_iff [of iss t]
    by (auto simp: i64_checked_add_def i64_in_range_def sint_word_of_int_i64)
  obtain b where b: "to_vec J (payload_of s ctx iss expi nonce) = Inr b"
      "from_slice J b = Inr (payload_of s ctx iss expi nonce)"
    using J by (auto simp: json_roundtrip_def)
  have "sign_at U J s ctx ttl now nonce = Inr \<lparr>sc_encoded_context = base64url_encode U b,
        sc_signature = hmac_sha256_base64url U (signing_input (base64url_encode U b)) key\<rparr>"
    using s ttl iss t expi b
    by (simp add: sign_at_def signer_new_Ok_iff MAX_CALLER_CONTEXT_TTL_def Let_def)
  with iss expi b show ?thesis using that by blast
qed

lemma payload_of_wf:
  assumes "context_wf ctx" "signer_new issuer key = Inr s" "valid_identifier nonce"
  shows "payload_wf (payload_of s ctx iss expi nonce)"
  using assms by (simp add: payload_wf_def context_wf_def payload_of_def signer_new_Ok_iff)

section \<open>Signing then verifying\<close>

lemma sign_then_verify:
  assumes "base64url_roundtrip U" "base64url_length U" "hmac_verifies U"
    and J: "json_roundtrip J" "json_compact J"
    and ctx: "build bld = Ok ctx"
    and s: "signer_new issuer key = Ok s"
    and v: "verifier_new (cc_audience_service_id ctx) pairs = Ok v"
    and key: "map_of (rev pairs) issuer = Some key"
    and peer: "vi_service_id peer = issuer"
    and ttl: "from_secs 1 \<le> ttl" "ttl \<le> from_secs 300"
    and now: "0 \<le> now" "clock_seconds now + 300 < 2 ^ 63"
    and later: "clock_ok later" "clock_seconds now - 30 \<le> clock_seconds later"
      "clock_seconds later \<le> clock_seconds now + int (as_secs ttl) + 30"
    and nonce: "valid_identifier nonce"
  shows "\<exists>sctx iss expi. sign_at U J s ctx ttl now nonce = Ok sctx \<and>
    sint iss = clock_seconds now \<and> sint expi = clock_seconds now + int (as_secs ttl) \<and>
    verify U J v sctx peer (cc_idempotency_key ctx) later =
      Ok \<lparr>vc_issuer_service_id = issuer, vc_audience_service_id = cc_audience_service_id ctx,
          vc_tenant_id = cc_tenant_id ctx, vc_organization_id = cc_organization_id ctx,
          vc_actor_id = cc_actor_id ctx, vc_actor_kind = cc_actor_kind ctx,
          vc_session_id = cc_session_id ctx, vc_request_id = cc_request_id ctx,
          vc_trace_id = cc_trace_id ctx, vc_idempotency_key = cc_idempotency_key ctx,
          vc_issued_at_unix_seconds = iss, vc_expires_at_unix_seconds = expi, vc_nonce = nonce\<rparr>"
proof -
  have secs: "1 \<le> as_secs ttl" "as_secs ttl \<le> 300" and "0 < ttl"
    using ttl by (simp_all add: as_secs_def from_secs_def less_eq_div_iff_mult_less_eq)
  obtain iss expi b where
    sec: "sint iss = clock_seconds now" "sint expi = clock_seconds now + int (as_secs ttl)" and
    b: "from_slice J b = Ok (payload_of s ctx iss expi nonce)"
       "to_vec J (payload_of s ctx iss expi nonce) = Ok b" and
    sign: "sign_at U J s ctx ttl now nonce = Ok \<lparr>sc_encoded_context = base64url_encode U b,
        sc_signature = hmac_sha256_base64url U (signing_input (base64url_encode U b)) key\<rparr>"
    using sign_at_writes [OF s J(1) \<open>0 < ttl\<close> ttl(2) now] by metis
  let ?p = "payload_of s ctx iss expi nonce"
  have wf: "payload_wf ?p"
    using build_wf [OF ctx] s nonce by (rule payload_of_wf)
  then have "length b \<le> 3072" using J(2) b(2) by (simp add: json_compact_def)
  then have "length (base64url_encode U b) \<le> 4096"
    using assms(2) by (simp add: base64url_length_def div_le_mono [of "length b * 4 + 2" 12290 3, simplified])
  moreover obtain tag where "length (hmac_sha256_base64url U (signing_input (base64url_encode U b)) key) \<le> 64"
      "base64url_decode U (hmac_sha256_base64url U (signing_input (base64url_encode U b)) key) = Some tag"
      "verify_hmac_sha256_base64url U (signing_input (base64url_encode U b)) key tag"
    using assms(3) by (meson hmac_verifies_def)
  moreover have "pl_issuer_service_id ?p = issuer"
    using s by (simp add: payload_of_def signer_new_Ok_iff)
  ultimately have "accepts U J (cc_audience_service_id ctx) pairs
      \<lparr>sc_encoded_context = base64url_encode U b,
       sc_signature = hmac_sha256_base64url U (signing_input (base64url_encode U b)) key\<rparr>
      (vi_service_id peer) (cc_idempotency_key ctx) later ?p"
    using assms(1) b(1) wf sec secs peer key later
    by (simp add: accepts_def base64url_roundtrip_def payload_of_def)
  with v have "verify U J v \<lparr>sc_encoded_context = base64url_encode U b,
       sc_signature = hmac_sha256_base64url U (signing_input (base64url_encode U b)) key\<rparr>
      peer (cc_idempotency_key ctx) later = Ok (verified_of ?p)"
    by (auto simp: verify_Ok_iff)
  with sign sec s show ?thesis
    by (auto simp: verified_of_def payload_of_def signer_new_Ok_iff)
qed

text \<open>The test context, keys and peer of the crate's unit tests.\<close>

definition sample_builder :: RpcCallerContextBuilder where
  "sample_builder =
     set_audience_service_id ''sdkwork-im'' (set_idempotency_key ''idempotency-1''
     (set_trace_id ''trace-1'' (set_request_id ''request-1'' (set_session_id ''session-1''
     (set_actor_kind User (set_actor_id ''300001'' (set_organization_id ''200001''
     (set_tenant_id ''100001'' caller_context_builder))))))))"

definition sample_context :: RpcCallerContext where
  "sample_context =
     \<lparr>cc_tenant_id = ''100001'', cc_organization_id = ''200001'', cc_actor_id = ''300001'',
      cc_actor_kind = User, cc_session_id = Some ''session-1'', cc_request_id = ''request-1'',
      cc_trace_id = Some ''trace-1'', cc_idempotency_key = Some ''idempotency-1'',
      cc_audience_service_id = ''sdkwork-im''\<rparr>"

definition sample_key :: bytes where
  "sample_key = replicate 32 (CHR 0x07)"

definition sample_signer :: RpcCallerContextSigner where
  "sample_signer =
     \<lparr>sg_issuer_service_id = ''sdkwork-knowledgebase'', sg_signing_key = sample_key,
      sg_max_ttl = MAX_CALLER_CONTEXT_TTL\<rparr>"

definition sample_verifier :: RpcCallerContextVerifier where
  "sample_verifier =
     \<lparr>vf_audience_service_id = ''sdkwork-im'',
      vf_issuer_keys = [(''sdkwork-knowledgebase'', sample_key)],
      vf_max_ttl = MAX_CALLER_CONTEXT_TTL, vf_max_clock_skew = MAX_CLOCK_SKEW\<rparr>"

definition sample_peer :: VerifiedRpcServiceIdentity where
  "sample_peer =
     \<lparr>vi_service_id = ''sdkwork-knowledgebase'', vi_trust_domain = ''sdkwork.internal'',
      vi_spiffe_uri = ''spiffe://sdkwork.internal/sdkwork/service/sdkwork-knowledgebase'',
      vi_certificate_sha256 = replicate 64 (CHR ''a'')\<rparr>"

lemma sample_build: "build sample_builder = Ok sample_context"
  by code_simp

lemma sample_ids: "valid_identifier ''sdkwork-knowledgebase''" "valid_identifier ''sdkwork-im''"
  by code_simp+

lemma sample_signer_new: "signer_new ''sdkwork-knowledgebase'' sample_key = Ok sample_signer"
  by (simp add: signer_new_Ok_iff sample_ids sample_signer_def)

lemma sample_verifier_new:
  "verifier_new ''sdkwork-im'' [(''sdkwork-knowledgebase'', sample_key)] = Ok sample_verifier"
  by (simp add: verifier_new_Ok_iff sample_ids sample_verifier_def btree_map_def)

definition sample_now :: system_time where
  "sample_now = 1700000000 * 10 ^ 9"

lemma sample_clock:
  "0 \<le> sample_now" "clock_seconds sample_now = 1700000000" "clock_ok sample_now"
  by (simp_all add: sample_now_def clock_seconds_def clock_ok_def)

lemma sample_nonce: "valid_identifier ''0123456789abcdef0123456789abcdef''"
  by code_simp

lemma sample_accepted:
  assumes "clock_ok t" "1699999970 \<le> clock_seconds t" "clock_seconds t \<le> 1700000090"
  shows "\<exists>sctx iss expi.
     sign_at reference_utils reference_json sample_signer sample_context (from_secs 60) sample_now
       ''0123456789abcdef0123456789abcdef'' = Ok sctx \<and>
     verify reference_utils reference_json sample_verifier sctx sample_peer
       (Some ''idempotency-1'') t =
     Ok \<lparr>vc_issuer_service_id = ''sdkwork-knowledgebase'', vc_audience_service_id = ''sdkwork-im'',
         vc_tenant_id = ''100001'', vc_organization_id = ''200001'', vc_actor_id = ''300001'',
         vc_actor_kind = User, vc_session_id = Some ''session-1'', vc_request_id = ''request-1'',
         vc_trace_id = Some ''trace-1'', vc_idempotency_key = Some ''idempotency-1'',
         vc_issued_at_unix_seconds = iss, vc_expires_at_unix_seconds = expi,
         vc_nonce = ''0123456789abcdef0123456789abcdef''\<rparr>"
  using sign_then_verify [OF reference_base64url reference_hmac reference_json_laws
      sample_build sample_signer_new, of "[(''sdkwork-knowledgebase'', sample_key)]" sample_verifier
      sample_peer "from_secs 60" sample_now t "''0123456789abcdef0123456789abcdef''"]
    sample_verifier_new sample_clock sample_nonce assms
  by (auto simp: sample_context_def sample_peer_def from_secs_def as_secs_def)

lemma verify_errors_validation:
  "verify U J v sctx peer md now = Inl e \<Longrightarrow> \<exists>m. e = Validation m"
proof -
  have ident_err: "\<exists>m. e = Validation m" if "validate_identifier f x = Inl e" for f x e
    using that by (auto simp: validate_identifier_def result_simps)
  have each: "\<exists>m. e = Validation m"
    if "check_each g xs = Inl e" and "\<And>x e. g x = Inl e \<Longrightarrow> \<exists>m. e = Validation m"
    for g :: "'z \<Rightarrow> RpcFrameworkError + unit" and xs e
    using that by (induction xs) (auto simp: result_simps)
  have payload: "\<exists>m. e = Validation m" if "validate_payload p k = Inl e" for p k e
    using that
    by (auto simp: validate_payload_def ttl_range_error_def result_simps simp del: check_each.simps
        dest!: each dest: ident_err split: option.splits)
  have clock: "\<exists>m. e = Validation m" if "unix_seconds t = Inl e" for t e
    using that by (auto simp: unix_seconds_def result_simps split: if_splits)
  have idem: "\<exists>m. e = Validation m" if "validate_metadata_idempotency x y = Inl e" for x y e
    using that by (cases "(x, y)" rule: validate_metadata_idempotency.cases)
      (auto simp: result_simps)
  assume "verify U J v sctx peer md now = Inl e"
  then show ?thesis
    by (auto simp: verify_def validate_time_window_def result_simps dest: payload clock idem)
qed

section \<open>Properties\<close>

text \<open>C4. Signing then verifying succeeds and returns the caller's data: a context built by the
  builder, signed for a life time of one to 300 seconds, is accepted by every verifier that
  trusts the issuer's key and is the addressed audience, when the mTLS peer is the issuer, the
  request carries the same idempotency key and the clock is within the life time and the skew of
  30 seconds; every field of the verified context is the signed one.\<close>

theorem signed_context_roundtrip:
  assumes "base64url_roundtrip U" "base64url_length U" "hmac_verifies U"
    and J: "json_roundtrip J" "json_compact J"
    and ctx: "build bld = Ok ctx"
    and s: "signer_new issuer key = Ok s"
    and v: "verifier_new (cc_audience_service_id ctx) pairs = Ok v"
    and key: "map_of (rev pairs) issuer = Some key"
    and peer: "vi_service_id peer = issuer"
    and ttl: "from_secs 1 \<le> ttl" "ttl \<le> from_secs 300"
    and now: "0 \<le> now" "clock_seconds now + 300 < 2 ^ 63"
    and later: "clock_ok later" "clock_seconds now - 30 \<le> clock_seconds later"
      "clock_seconds later \<le> clock_seconds now + int (as_secs ttl) + 30"
    and nonce: "valid_identifier nonce"
  shows "\<exists>sctx iss expi. sign_at U J s ctx ttl now nonce = Ok sctx \<and>
    sint iss = clock_seconds now \<and> sint expi = clock_seconds now + int (as_secs ttl) \<and>
    verify U J v sctx peer (cc_idempotency_key ctx) later =
      Ok \<lparr>vc_issuer_service_id = issuer, vc_audience_service_id = cc_audience_service_id ctx,
          vc_tenant_id = cc_tenant_id ctx, vc_organization_id = cc_organization_id ctx,
          vc_actor_id = cc_actor_id ctx, vc_actor_kind = cc_actor_kind ctx,
          vc_session_id = cc_session_id ctx, vc_request_id = cc_request_id ctx,
          vc_trace_id = cc_trace_id ctx, vc_idempotency_key = cc_idempotency_key ctx,
          vc_issued_at_unix_seconds = iss, vc_expires_at_unix_seconds = expi, vc_nonce = nonce\<rparr>"
  using assms by (rule sign_then_verify)

theorem signed_context_roundtrip_witness:
  "\<exists>sctx iss expi.
     sign_at reference_utils reference_json sample_signer sample_context (from_secs 60) sample_now
       ''0123456789abcdef0123456789abcdef'' = Ok sctx \<and>
     sint iss = 1700000000 \<and> sint expi = 1700000060 \<and>
     verify reference_utils reference_json sample_verifier sctx sample_peer
       (Some ''idempotency-1'') sample_now =
     Ok \<lparr>vc_issuer_service_id = ''sdkwork-knowledgebase'', vc_audience_service_id = ''sdkwork-im'',
         vc_tenant_id = ''100001'', vc_organization_id = ''200001'', vc_actor_id = ''300001'',
         vc_actor_kind = User, vc_session_id = Some ''session-1'', vc_request_id = ''request-1'',
         vc_trace_id = Some ''trace-1'', vc_idempotency_key = Some ''idempotency-1'',
         vc_issued_at_unix_seconds = iss, vc_expires_at_unix_seconds = expi,
         vc_nonce = ''0123456789abcdef0123456789abcdef''\<rparr>"
  using signed_context_roundtrip [OF reference_base64url reference_hmac reference_json_laws
      sample_build sample_signer_new, of "[(''sdkwork-knowledgebase'', sample_key)]" sample_verifier
      sample_peer "from_secs 60" sample_now sample_now "''0123456789abcdef0123456789abcdef''"]
    sample_verifier_new sample_clock sample_nonce
  by (simp add: sample_context_def sample_peer_def from_secs_def as_secs_def)

text \<open>C5. A verifier accepts a signed context exactly when all its conditions hold for the decoded
  payload: size, encoding, schema, valid identifiers, a life time of 1 to 300 seconds, its own
  audience, the mTLS peer as issuer, a tag that verifies under that peer's key over the
  domain-separated context, the clock window and the request's idempotency key. The verified
  context then carries exactly the payload.\<close>

theorem verify_accepts_exactly:
  assumes "verifier_new aud pairs = Ok v"
  shows "(verify U J v sctx peer md now = Ok vc) =
    (\<exists>p. accepts U J aud pairs sctx (vi_service_id peer) md now p \<and> vc = verified_of p)"
  using assms by (rule verify_Ok_iff)

theorem verify_accepts_exactly_witness:
  "\<exists>sctx vc. verify reference_utils reference_json sample_verifier sctx sample_peer
      (Some ''idempotency-1'') sample_now = Ok vc \<and>
    (\<exists>p. accepts reference_utils reference_json ''sdkwork-im''
        [(''sdkwork-knowledgebase'', sample_key)] sctx (vi_service_id sample_peer)
        (Some ''idempotency-1'') sample_now p \<and> vc = verified_of p)"
proof -
  obtain sctx vc where ok: "verify reference_utils reference_json sample_verifier sctx sample_peer
      (Some ''idempotency-1'') sample_now = Ok vc"
    using sample_accepted [of sample_now] sample_clock by auto
  then show ?thesis
    using verify_accepts_exactly [OF sample_verifier_new] by metis
qed

text \<open>A signed context cannot be replayed for long: whatever verifiers and peers accept it,
  any two moments of acceptance are at most 360 seconds apart (the longest life time and the
  skew on both sides), and both give the same verified context from the same issuer.\<close>

theorem acceptance_window_bounded:
  assumes "verifier_new aud1 pairs1 = Ok v1" and "verifier_new aud2 pairs2 = Ok v2"
    and "verify U J v1 sctx peer1 md1 t1 = Ok vc1" and "verify U J v2 sctx peer2 md2 t2 = Ok vc2"
  shows "\<bar>clock_seconds t1 - clock_seconds t2\<bar> \<le> 360 \<and> vc1 = vc2 \<and>
    vi_service_id peer1 = vi_service_id peer2 \<and> md1 = md2"
  using assms by (auto simp: verify_Ok_iff accepts_def)

text \<open>C35. A life time below one second is a trap: the signer accepts it, although its error
  message demands at least one second, and the context it issues expires in the second it was
  issued, so no verifier accepts it at any time, from any peer.\<close>

theorem subsecond_ttl_never_verifies:
  assumes "base64url_roundtrip U" and J: "json_roundtrip J"
    and s: "signer_new issuer key = Ok s"
    and ttl: "0 < ttl" "ttl < from_secs 1"
    and now: "0 \<le> now" "clock_seconds now + 300 < 2 ^ 63"
  shows "\<exists>sctx. sign_at U J s ctx ttl now nonce = Ok sctx \<and>
    \<not> (\<exists>aud pairs v peer md later.
        verifier_new aud pairs = Ok v \<and> is_ok (verify U J v sctx peer md later))"
proof -
  have zero: "as_secs ttl = 0" and "ttl \<le> from_secs 300"
    using ttl(2) by (simp_all add: as_secs_def from_secs_def)
  obtain iss expi b where sec: "sint iss = clock_seconds now"
      "sint expi = clock_seconds now + int (as_secs ttl)"
    and b: "from_slice J b = Ok (payload_of s ctx iss expi nonce)"
    and sign: "sign_at U J s ctx ttl now nonce = Ok \<lparr>sc_encoded_context = base64url_encode U b,
        sc_signature = hmac_sha256_base64url U (signing_input (base64url_encode U b)) key\<rparr>"
    using sign_at_writes [OF s J ttl(1) \<open>ttl \<le> from_secs 300\<close> now] by metis
  have "\<not> accepts U J aud pairs \<lparr>sc_encoded_context = base64url_encode U b,
        sc_signature = hmac_sha256_base64url U (signing_input (base64url_encode U b)) key\<rparr>
        peer_id md later p" for aud pairs peer_id md later p
    using assms(1) b sec zero
    by (auto simp: accepts_def base64url_roundtrip_def payload_of_def)
  with sign show ?thesis by (auto simp: is_ok_iff verify_Ok_iff)
qed

theorem subsecond_ttl_never_verifies_witness:
  "\<exists>sctx. sign_at reference_utils reference_json sample_signer sample_context (from_millis 500)
      sample_now ''0123456789abcdef0123456789abcdef'' = Ok sctx \<and>
    \<not> (\<exists>aud pairs v peer md later. verifier_new aud pairs = Ok v \<and>
        is_ok (verify reference_utils reference_json v sctx peer md later))"
  by (rule subsecond_ttl_never_verifies
      [OF reference_base64url(1) reference_json_laws(1) sample_signer_new])
    (simp_all add: from_millis_def from_secs_def sample_clock)

text \<open>Whatever is wrong with a caller context, the verifier reports a validation error and
  never a configuration, transport or discovery error.\<close>

theorem verify_fails_as_validation:
  assumes "verify U J v sctx peer md now = Err e"
  shows "\<exists>m. e = Validation m"
  using assms by (rule verify_errors_validation)

theorem verify_fails_as_validation_witness:
  "\<exists>m. Validation ''rpc caller context is not valid base64url'' = Validation m"
proof -
  have "verify reference_utils reference_json sample_verifier
      \<lparr>sc_encoded_context = ''!'', sc_signature = []\<rparr> sample_peer None sample_now =
      Err (Validation ''rpc caller context is not valid base64url'')"
    by (simp add: verify_def MAX_CONTEXT_METADATA_BYTES_def reference_utils_def rfc4648_decode_def
        char_sextet_def)
  then show ?thesis by (rule verify_fails_as_validation)
qed

end
