(* ===== verification/Client_Metadata.thy ===== *)
theory Client_Metadata
  imports Caller_Context Core_Vocabulary
begin

text \<open>
  \<open>metadata.rs\<close> of crate \<open>sdkwork-rpc-client\<close>: the standard call headers and the signed service
  credential that a generated client writes into the metadata of an outbound call. The metadata
  map is the parameter \<open>M\<close>, the names of the standard headers the parameter \<open>K\<close>. A \<open>&mut\<close> map is
  passed in and returned, also on failure, since an early return leaves earlier insertions in it.
\<close>

section \<open>Header names of the caller context\<close>

definition RPC_CALLER_CONTEXT_METADATA :: string where
  "RPC_CALLER_CONTEXT_METADATA = ''x-sdkwork-rpc-caller-context''"
definition RPC_CALLER_CONTEXT_SIGNATURE_METADATA :: string where
  "RPC_CALLER_CONTEXT_SIGNATURE_METADATA = ''x-sdkwork-rpc-caller-signature''"
definition RPC_SERVICE_IDENTITY_ASSERTION_METADATA :: string where
  "RPC_SERVICE_IDENTITY_ASSERTION_METADATA = ''x-sdkwork-service''"

section \<open>Insertion\<close>

definition insert_optional ::
  "sdkwork_utils \<Rightarrow> ('md, 'mv) tonic_metadata \<Rightarrow> string \<Rightarrow> string option \<Rightarrow> 'md \<Rightarrow> 'md" where
  "insert_optional U M key value md =
     (case value of
        None \<Rightarrow> md
      | Some v \<Rightarrow>
          if is_blank U (Some v) then md
          else (case (metadata_key M key, metadata_value M v) of
                  (Some parsed_key, Some parsed_value) \<Rightarrow> md_insert M md parsed_key parsed_value
                | _ \<Rightarrow> md))"

definition insert_required ::
  "('md, 'mv) tonic_metadata \<Rightarrow> string \<Rightarrow> string \<Rightarrow> 'md \<Rightarrow> (RpcFrameworkError + unit) \<times> 'md" where
  "insert_required M key value md =
     (if str_trim value = []
      then (Err (Validation (''required RPC metadata `'' @ key @ ''` must not be blank'')), md)
      else case metadata_key M key of
             None \<Rightarrow> (Err (Validation (''invalid RPC metadata key `'' @ key @ ''`'')), md)
           | Some parsed_key \<Rightarrow>
               (case metadata_value M value of
                  None \<Rightarrow> (Err (Validation (''invalid RPC metadata value for `'' @ key @ ''`'')), md)
                | Some parsed_value \<Rightarrow> (Ok (), md_insert M md parsed_key parsed_value)))"

section \<open>Call metadata\<close>

record RpcCallMetadata =
  cm_authorization :: "string option"
  cm_access_token :: "string option"
  cm_request_id :: "string option"
  cm_traceparent :: "string option"
  cm_idempotency_key :: "string option"
  cm_request_hash :: "string option"

definition has_idempotency_key :: "sdkwork_utils \<Rightarrow> RpcCallMetadata \<Rightarrow> bool" where
  "has_idempotency_key U c \<longleftrightarrow> \<not> is_blank U (cm_idempotency_key c)"

definition call_metadata_apply_to ::
  "sdkwork_utils \<Rightarrow> metadata_keys \<Rightarrow> ('md, 'mv) tonic_metadata \<Rightarrow> RpcCallMetadata \<Rightarrow> 'md \<Rightarrow> 'md" where
  "call_metadata_apply_to U K M c md =
     (let md = insert_optional U M (RPC_AUTHORIZATION_METADATA K) (cm_authorization c) md;
          md = insert_optional U M (RPC_ACCESS_TOKEN_METADATA K) (cm_access_token c) md;
          md = insert_optional U M (RPC_REQUEST_ID_METADATA K) (cm_request_id c) md;
          md = insert_optional U M (RPC_TRACEPARENT_METADATA K) (cm_traceparent c) md;
          md = insert_optional U M (RPC_IDEMPOTENCY_KEY_METADATA K) (cm_idempotency_key c) md
      in insert_optional U M (RPC_REQUEST_HASH_METADATA K) (cm_request_hash c) md)"

section \<open>The service credential\<close>

record RpcServiceCredential =
  cr_signed_caller_context :: SignedRpcCallerContext
  cr_idempotency_key :: "string option"

definition validate_bound_idempotency_metadata ::
  "metadata_keys \<Rightarrow> ('md, 'mv) tonic_metadata \<Rightarrow> 'md \<Rightarrow> string option \<Rightarrow> RpcFrameworkError + unit" where
  "validate_bound_idempotency_metadata K M md expected =
     and_then (case md_get M md (RPC_IDEMPOTENCY_KEY_METADATA K) of
         None \<Rightarrow> Ok None
       | Some value \<Rightarrow>
           and_then (ok_or (mv_to_str M value)
             (Validation ''existing RPC idempotency metadata is not valid ASCII'')) (\<lambda>t. Ok (Some t)))
     (\<lambda>actual.
        case (expected, actual) of
          (Some e, Some a) \<Rightarrow>
            if e = a then Ok ()
            else Err (Validation
              ''existing RPC idempotency metadata does not match the signed caller context'')
        | (Some _, None) \<Rightarrow> Ok ()
        | (None, None) \<Rightarrow> Ok ()
        | (None, Some _) \<Rightarrow>
            Err (Validation
              ''existing RPC idempotency metadata does not match the signed caller context''))"

definition credential_apply_to ::
  "metadata_keys \<Rightarrow> ('md, 'mv) tonic_metadata \<Rightarrow> RpcServiceCredential \<Rightarrow> 'md
     \<Rightarrow> (RpcFrameworkError + unit) \<times> 'md" where
  "credential_apply_to K M c md =
     (case validate_bound_idempotency_metadata K M md (cr_idempotency_key c) of
        Err e \<Rightarrow> (Err e, md)
      | Ok _ \<Rightarrow>
          (case insert_required M RPC_CALLER_CONTEXT_METADATA
                  (sc_encoded_context (cr_signed_caller_context c)) md of
             (Err e, md) \<Rightarrow> (Err e, md)
           | (Ok _, md) \<Rightarrow>
               (case insert_required M RPC_CALLER_CONTEXT_SIGNATURE_METADATA
                       (sc_signature (cr_signed_caller_context c)) md of
                  (Err e, md) \<Rightarrow> (Err e, md)
                | (Ok _, md) \<Rightarrow>
                    (case cr_idempotency_key c of
                       Some key \<Rightarrow> insert_required M (RPC_IDEMPOTENCY_KEY_METADATA K) key md
                     | None \<Rightarrow> (Ok (), md)))))"

record SignedRpcServiceCredentialProvider =
  cp_signer :: RpcCallerContextSigner
  cp_ttl :: duration

definition provider_new ::
  "RpcCallerContextSigner \<Rightarrow> duration \<Rightarrow> RpcFrameworkError + SignedRpcServiceCredentialProvider" where
  "provider_new signer ttl =
     reject_if (ttl = 0 \<or> ttl > from_secs 300)
       (Configuration ''rpc service credential ttl must be between 1 second and 300 seconds'')
     (Ok \<lparr>cp_signer = signer, cp_ttl = ttl\<rparr>)"

definition issue ::
  "sdkwork_utils \<Rightarrow> serde_json \<Rightarrow> SignedRpcServiceCredentialProvider \<Rightarrow> RpcCallerContext
     \<Rightarrow> system_time \<Rightarrow> string \<Rightarrow> RpcFrameworkError + RpcServiceCredential" where
  "issue U J p caller_context now nonce =
     (let idempotency_key = cc_idempotency_key caller_context
      in and_then (sign U J (cp_signer p) caller_context (cp_ttl p) now nonce) (\<lambda>signed_context.
         Ok \<lparr>cr_signed_caller_context = signed_context, cr_idempotency_key = idempotency_key\<rparr>))"

section \<open>What insertion does\<close>

text \<open>A value that the map takes under a key, and that is not blank.\<close>

definition sendable :: "('md, 'mv) tonic_metadata \<Rightarrow> string \<Rightarrow> string \<Rightarrow> bool" where
  "sendable M key value \<longleftrightarrow>
     str_trim value \<noteq> [] \<and> metadata_key M key = Some key \<and> metadata_value M value \<noteq> None"

definition header :: "('md, 'mv) tonic_metadata \<Rightarrow> 'md \<Rightarrow> string \<Rightarrow> string option" where
  "header M md key = Option.bind (md_get M md key) (mv_to_str M)"

lemma insert_required_sendable:
  assumes "sendable M key value"
  shows "insert_required M key value md = (Ok (), md_insert M md key (the (metadata_value M value)))"
  using assms by (auto simp: insert_required_def sendable_def)

lemma header_insert:
  assumes "metadata_get_insert M" and "metadata_value_reads_back M" and "sendable M key value"
  shows "header M (md_insert M md key (the (metadata_value M value))) k =
    (if k = key then Some value else header M md k)"
  using assms
  by (auto simp: header_def metadata_get_insert_def metadata_value_reads_back_def sendable_def)

lemma reserved_keys_distinct [simp]:
  "RPC_CALLER_CONTEXT_METADATA \<noteq> RPC_CALLER_CONTEXT_SIGNATURE_METADATA"
  "RPC_CALLER_CONTEXT_SIGNATURE_METADATA \<noteq> RPC_CALLER_CONTEXT_METADATA"
  by (simp_all add: RPC_CALLER_CONTEXT_METADATA_def RPC_CALLER_CONTEXT_SIGNATURE_METADATA_def)

text \<open>The idempotency header in the map agrees with the credential or is absent.\<close>

definition idempotency_agrees ::
  "metadata_keys \<Rightarrow> ('md, 'mv) tonic_metadata \<Rightarrow> 'md \<Rightarrow> string option \<Rightarrow> bool" where
  "idempotency_agrees K M md expected =
     (case md_get M md (RPC_IDEMPOTENCY_KEY_METADATA K) of
        None \<Rightarrow> True
      | Some value \<Rightarrow> (case mv_to_str M value of None \<Rightarrow> False | Some t \<Rightarrow> expected = Some t))"

lemma validate_bound_Ok_iff:
  "validate_bound_idempotency_metadata K M md expected = Ok u \<longleftrightarrow> idempotency_agrees K M md expected"
  by (auto simp: validate_bound_idempotency_metadata_def idempotency_agrees_def
      split: option.splits)

definition credential_sendable ::
  "metadata_keys \<Rightarrow> ('md, 'mv) tonic_metadata \<Rightarrow> RpcServiceCredential \<Rightarrow> bool" where
  "credential_sendable K M c \<longleftrightarrow>
     sendable M RPC_CALLER_CONTEXT_METADATA (sc_encoded_context (cr_signed_caller_context c)) \<and>
     sendable M RPC_CALLER_CONTEXT_SIGNATURE_METADATA (sc_signature (cr_signed_caller_context c)) \<and>
     (case cr_idempotency_key c of
        None \<Rightarrow> True | Some key \<Rightarrow> sendable M (RPC_IDEMPOTENCY_KEY_METADATA K) key) \<and>
     RPC_IDEMPOTENCY_KEY_METADATA K \<noteq> RPC_CALLER_CONTEXT_METADATA \<and>
     RPC_IDEMPOTENCY_KEY_METADATA K \<noteq> RPC_CALLER_CONTEXT_SIGNATURE_METADATA"

lemma credential_applied:
  assumes "metadata_get_insert M" and "metadata_value_reads_back M"
    and "credential_sendable K M c" and "idempotency_agrees K M md (cr_idempotency_key c)"
  shows "\<exists>md'. credential_apply_to K M c md = (Ok (), md') \<and>
    header M md' = (header M md)
      (RPC_CALLER_CONTEXT_METADATA \<mapsto> sc_encoded_context (cr_signed_caller_context c),
       RPC_CALLER_CONTEXT_SIGNATURE_METADATA \<mapsto> sc_signature (cr_signed_caller_context c),
       RPC_IDEMPOTENCY_KEY_METADATA K := cr_idempotency_key c)"
proof -
  have v: "validate_bound_idempotency_metadata K M md (cr_idempotency_key c) = Ok ()"
    using assms(4) by (simp add: validate_bound_Ok_iff)
  show ?thesis
  proof (cases "cr_idempotency_key c")
    case None
    then have "md_get M md (RPC_IDEMPOTENCY_KEY_METADATA K) = None"
      using assms(4) by (auto simp: idempotency_agrees_def split: option.splits)
    then have "header M md (RPC_IDEMPOTENCY_KEY_METADATA K) = None"
      by (simp add: header_def)
    with None v assms(1-3) show ?thesis
      by (auto simp: credential_apply_to_def credential_sendable_def insert_required_sendable
          header_insert fun_eq_iff)
  next
    case (Some key)
    with v assms(1-3) show ?thesis
      by (auto simp: credential_apply_to_def credential_sendable_def insert_required_sendable
          header_insert fun_eq_iff)
  qed
qed

section \<open>Properties\<close>

text \<open>C23. Applying a service credential to call metadata: if the idempotency header already there
  agrees with the signed context (or is absent), the map afterwards reads back the encoded
  context, the signature and the idempotency key of the credential, and every other header is as
  before. If it conflicts, or is there although the context has none, the call fails with a
  validation error and the map is untouched.\<close>
theorem credential_apply_fails_closed:
  assumes "metadata_get_insert M" and "metadata_value_reads_back M" and "credential_sendable K M c"
  shows "if idempotency_agrees K M md (cr_idempotency_key c)
    then \<exists>md'. credential_apply_to K M c md = (Ok (), md') \<and>
      header M md' = (header M md)
        (RPC_CALLER_CONTEXT_METADATA \<mapsto> sc_encoded_context (cr_signed_caller_context c),
         RPC_CALLER_CONTEXT_SIGNATURE_METADATA \<mapsto> sc_signature (cr_signed_caller_context c),
         RPC_IDEMPOTENCY_KEY_METADATA K := cr_idempotency_key c)
    else \<exists>msg. credential_apply_to K M c md = (Err (Validation msg), md)"
proof (cases "idempotency_agrees K M md (cr_idempotency_key c)")
  case True
  with credential_applied [OF assms True] show ?thesis by simp
next
  case False
  then have "validate_bound_idempotency_metadata K M md (cr_idempotency_key c) \<noteq> Ok ()"
    by (simp add: validate_bound_Ok_iff)
  then have "\<exists>msg. validate_bound_idempotency_metadata K M md (cr_idempotency_key c) =
      Err (Validation msg)"
    by (auto simp: validate_bound_idempotency_metadata_def and_then_def ok_or_def
        split: option.splits if_splits)
  with False show ?thesis by (auto simp: credential_apply_to_def)
qed

definition sample_credential :: RpcServiceCredential where
  "sample_credential =
     \<lparr>cr_signed_caller_context = \<lparr>sc_encoded_context = ''eyJ2Ijox'', sc_signature = ''c2ln''\<rparr>,
      cr_idempotency_key = Some ''idempotency-1''\<rparr>"

lemma sample_credential_sendable:
  "credential_sendable reference_keys reference_metadata sample_credential"
  by code_simp

theorem credential_apply_fails_closed_witness:
  "(\<exists>md'. credential_apply_to reference_keys reference_metadata sample_credential Map.empty =
       (Ok (), md') \<and>
     header reference_metadata md' ''idempotency-key'' = Some ''idempotency-1'') \<and>
   (\<exists>msg. credential_apply_to reference_keys reference_metadata sample_credential
       [''idempotency-key'' \<mapsto> ''different-idempotency-key''] =
       (Err (Validation msg), [''idempotency-key'' \<mapsto> ''different-idempotency-key'']))"
  using credential_apply_fails_closed [OF reference_metadata_laws(1,2) sample_credential_sendable,
      of Map.empty]
    credential_apply_fails_closed [OF reference_metadata_laws(1,2) sample_credential_sendable,
      of "[''idempotency-key'' \<mapsto> ''different-idempotency-key'']"]
  by (auto simp: idempotency_agrees_def reference_metadata_def reference_keys_def
      sample_credential_def)

end
