(* ===== verification/Wire_Text.thy ===== *)
theory Wire_Text
  imports Client_Metadata
begin

text \<open>
  Which texts survive the trip through metadata headers: valid identifiers, base64url text and
  HMAC tags are graphic ASCII, which tonic accepts as a header value and \<open>str::trim\<close> leaves alone.
  So every credential that the provider issues can be applied to call metadata.
\<close>

section \<open>Graphic text\<close>

lemma strip_one_None_hd:
  assumes "\<And>w. w \<in> set ws \<Longrightarrow> w \<noteq> [] \<Longrightarrow> hd w \<noteq> c"
  shows "strip_one ws (c # s) = None"
  using assms
proof (induction ws)
  case (Cons w ws)
  have "take (length w) (c # s) \<noteq> w" if "w \<noteq> []"
    using Cons.prems [of w] that by (cases w) auto
  with Cons show ?case by auto
qed simp

lemma graphic_not_space:
  assumes "graphic_ascii c"
  shows "w \<in> set white_space \<Longrightarrow> w \<noteq> [] \<Longrightarrow> hd w \<noteq> c"
    and "w \<in> set (map rev white_space) \<Longrightarrow> w \<noteq> [] \<Longrightarrow> hd w \<noteq> c"
  using assms by (auto simp: white_space_def graphic_ascii_def)

lemma str_trim_graphic:
  assumes "list_all graphic_ascii s"
  shows "str_trim s = s"
proof (cases "s = []")
  case False
  have "strip_one white_space s = None"
    using assms False graphic_not_space(1) by (cases s) (auto intro!: strip_one_None_hd)
  moreover have "strip_one (map rev white_space) (rev s) = None"
    using assms False graphic_not_space(2)
    by (cases "rev s") (auto intro!: strip_one_None_hd simp: list_all_iff simp del: set_map
        dest: arg_cong [where f = set])
  ultimately show ?thesis using False by (rule str_trim_clean)
next
  case True
  moreover have "str_trim [] = []" by code_simp
  ultimately show ?thesis by simp
qed

lemma graphic_visible: "graphic_ascii c \<Longrightarrow> visible_ascii c"
  by (simp add: graphic_ascii_def visible_ascii_def)

lemma valid_identifier_graphic: "valid_identifier s \<Longrightarrow> list_all graphic_ascii s"
  by (auto simp: valid_identifier_def list_all_iff identifier_byte_def is_ascii_alphanumeric_def
      graphic_ascii_def Let_def)

lemma graphic_sendable:
  assumes "metadata_accepts_ascii M" and "list_all graphic_ascii value" and "value \<noteq> []"
    and "list_all key_char key" and "key \<noteq> []" and "drop (length key - 4) key \<noteq> ''-bin''"
  shows "sendable M key value"
proof -
  have "list_all visible_ascii value"
    using assms(2) by (auto simp: list_all_iff graphic_visible)
  then show ?thesis
    using assms by (simp add: sendable_def str_trim_graphic metadata_accepts_ascii_def)
qed

section \<open>Issued credentials are sendable\<close>

text \<open>Parsing no bytes at all is an error.\<close>

definition json_rejects_empty :: "serde_json \<Rightarrow> bool" where
  "json_rejects_empty J \<longleftrightarrow> \<not> is_ok (from_slice J [])"

lemma reference_json_rejects_empty: "json_rejects_empty reference_json"
  by (simp add: json_rejects_empty_def reference_json_def fields_payload_def)

lemma reserved_keys_ok:
  "list_all key_char k \<and> k \<noteq> [] \<and> drop (length k - 4) k \<noteq> ''-bin''"
  if "k \<in> {RPC_CALLER_CONTEXT_METADATA, RPC_CALLER_CONTEXT_SIGNATURE_METADATA, ''idempotency-key''}"
proof -
  have "list_all (\<lambda>k. list_all key_char k \<and> k \<noteq> [] \<and> drop (length k - 4) k \<noteq> ''-bin'')
      [RPC_CALLER_CONTEXT_METADATA, RPC_CALLER_CONTEXT_SIGNATURE_METADATA, ''idempotency-key'']"
    by code_simp
  with that show ?thesis by auto
qed

lemma base64url_encode_nonempty:
  assumes "base64url_length U" and "b \<noteq> []"
  shows "base64url_encode U b \<noteq> []"
proof -
  have "0 < length b" using assms(2) by simp
  then have "(length b * 4 + 2) div 3 \<noteq> 0" by linarith
  then have "length (base64url_encode U b) \<noteq> 0"
    using assms(1) unfolding base64url_length_def by presburger
  then show ?thesis by auto
qed

lemma issued_credential_sendable:
  assumes U: "base64url_length U" "base64url_text U"
    and J: "json_roundtrip J" "json_rejects_empty J"
    and M: "metadata_accepts_ascii M" and K: "RPC_IDEMPOTENCY_KEY_METADATA K = ''idempotency-key''"
    and ctx: "build bld = Ok ctx" and s: "signer_new issuer key = Ok s"
    and ttl: "0 < ttl" "ttl \<le> from_secs 300"
    and now: "0 \<le> now" "clock_seconds now + 300 < 2 ^ 63"
    and sctx: "sign_at U J s ctx ttl now nonce = Ok sctx"
  shows "credential_sendable K M \<lparr>cr_signed_caller_context = sctx,
    cr_idempotency_key = cc_idempotency_key ctx\<rparr>"
proof -
  obtain iss expi b where b: "from_slice J b = Ok (payload_of s ctx iss expi nonce)"
    and sign: "sctx = \<lparr>sc_encoded_context = base64url_encode U b,
        sc_signature = hmac_sha256_base64url U (signing_input (base64url_encode U b)) key\<rparr>"
    using sign_at_writes [OF s J(1) ttl now] sctx by (metis sum.inject(2))
  have "b \<noteq> []" using b J(2) by (auto simp: json_rejects_empty_def)
  then have enc: "base64url_encode U b \<noteq> []" by (rule base64url_encode_nonempty [OF U(1)])
  have "case cc_idempotency_key ctx of None \<Rightarrow> True | Some k \<Rightarrow> valid_identifier k"
    using build_wf [OF ctx] by (auto simp: context_wf_def opt_valid_def split: option.splits)
  then have "case cc_idempotency_key ctx of None \<Rightarrow> True
      | Some k \<Rightarrow> sendable M ''idempotency-key'' k"
    using M reserved_keys_ok [of "''idempotency-key''"]
    by (auto simp: valid_identifier_graphic valid_identifier_def intro!: graphic_sendable
        split: option.splits)
  moreover have "sendable M RPC_CALLER_CONTEXT_METADATA (sc_encoded_context sctx)"
    and "sendable M RPC_CALLER_CONTEXT_SIGNATURE_METADATA (sc_signature sctx)"
    using U(2) M enc reserved_keys_ok
    by (auto simp: sign base64url_text_def intro!: graphic_sendable)
  moreover have "''idempotency-key'' \<noteq> RPC_CALLER_CONTEXT_METADATA"
    and "''idempotency-key'' \<noteq> RPC_CALLER_CONTEXT_SIGNATURE_METADATA"
    by code_simp+
  ultimately show ?thesis unfolding credential_sendable_def K by simp
qed

end
