(* ===== verification/Server_Security.thy ===== *)
theory Server_Security
  imports Client_Metadata
begin

text \<open>
  \<open>security.rs\<close> of crate \<open>sdkwork-rpc-server\<close> with feature \<open>tls\<close>: the interceptor that derives the
  service identity from the peer certificate, checks the optional caller context and puts both
  into the request's extensions. The extensions are looked up by type; the code uses two types,
  which are two fields here. \<open>peer_certs\<close> is what tonic gives after the handshake.
\<close>

section \<open>Requests and statuses\<close>

record 'md request =
  rq_metadata :: 'md
  rq_peer_certs :: "bytes list option"
  ext_service_identity :: "VerifiedRpcServiceIdentity option"
  ext_caller_context :: "VerifiedRpcCallerContext option"

record RpcInternalServiceSecurity =
  se_service_identity_policy :: RpcServiceIdentityPolicy
  se_caller_context_verifier :: "RpcCallerContextVerifier option"

definition security_new ::
  "RpcServiceIdentityPolicy \<Rightarrow> RpcCallerContextVerifier option \<Rightarrow> RpcInternalServiceSecurity" where
  "security_new service_identity_policy caller_context_verifier =
     \<lparr>se_service_identity_policy = service_identity_policy,
      se_caller_context_verifier = caller_context_verifier\<rparr>"

definition has_caller_context_verifier :: "RpcInternalServiceSecurity \<Rightarrow> bool" where
  "has_caller_context_verifier s \<longleftrightarrow> se_caller_context_verifier s \<noteq> None"

text \<open>\<open>Status::unauthenticated\<close> and its siblings: a code, a message and no metadata.\<close>

definition status_new :: "('md, 'mv) tonic_metadata \<Rightarrow> Code \<Rightarrow> string \<Rightarrow> 'md status" where
  "status_new M code message =
     \<lparr>status_code = code, status_message = message, status_metadata = md_new M\<rparr>"

fun map_identity_error :: "('md, 'mv) tonic_metadata \<Rightarrow> RpcFrameworkError \<Rightarrow> 'md status" where
  "map_identity_error M (Validation _) =
     status_new M Unauthenticated ''internal RPC identity verification failed''"
| "map_identity_error M (Configuration _) =
     status_new M FailedPrecondition ''internal RPC identity verifier is misconfigured''"
| "map_identity_error M (Transport _) =
     status_new M Unavailable ''internal RPC identity verifier is unavailable''"
| "map_identity_error M (Discovery _) =
     status_new M Unavailable ''internal RPC identity verifier is unavailable''"

definition optional_metadata ::
  "('md, 'mv) tonic_metadata \<Rightarrow> 'md \<Rightarrow> string \<Rightarrow> 'md status + string option" where
  "optional_metadata M md key =
     (case md_get M md key of
        None \<Rightarrow> Ok None
      | Some value \<Rightarrow>
          (case mv_to_str M value of
             Some t \<Rightarrow> Ok (Some t)
           | None \<Rightarrow> Err (status_new M InvalidArgument
                            (''RPC metadata `'' @ key @ ''` must be ASCII''))))"

definition validate_optional_service_assertion ::
  "('md, 'mv) tonic_metadata \<Rightarrow> 'md \<Rightarrow> VerifiedRpcServiceIdentity \<Rightarrow> 'md status + unit" where
  "validate_optional_service_assertion M md service_identity =
     and_then (optional_metadata M md RPC_SERVICE_IDENTITY_ASSERTION_METADATA) (\<lambda>assertion.
       case assertion of
         None \<Rightarrow> Ok ()
       | Some a \<Rightarrow>
           reject_if (a \<noteq> vi_service_id service_identity)
             (status_new M Unauthenticated
               ''internal RPC service assertion does not match mTLS peer identity'')
             (Ok ()))"

section \<open>Verification\<close>

definition verify_optional_caller_context ::
  "sdkwork_utils \<Rightarrow> serde_json \<Rightarrow> ('md, 'mv) tonic_metadata \<Rightarrow> RpcInternalServiceSecurity \<Rightarrow> 'md
     \<Rightarrow> VerifiedRpcServiceIdentity \<Rightarrow> system_time \<Rightarrow> 'md status + VerifiedRpcCallerContext option" where
  "verify_optional_caller_context U J M s md service_identity now =
     and_then (optional_metadata M md RPC_CALLER_CONTEXT_METADATA) (\<lambda>encoded_context.
     and_then (optional_metadata M md RPC_CALLER_CONTEXT_SIGNATURE_METADATA) (\<lambda>sig.
       case (encoded_context, sig) of
         (Some e, Some g) \<Rightarrow>
           and_then (ok_or (se_caller_context_verifier s)
             (status_new M FailedPrecondition
               ''internal RPC caller context was supplied but no verifier is configured'')) (\<lambda>verifier.
           and_then (optional_metadata M md ''idempotency-key'') (\<lambda>idempotency.
           and_then (map_err (map_identity_error M)
             (verify U J verifier (from_transport_metadata e g) service_identity idempotency now)) (\<lambda>verified.
           Ok (Some verified))))
       | (None, None) \<Rightarrow> Ok None
       | _ \<Rightarrow> Err (status_new M Unauthenticated
                   ''internal RPC caller context and signature must be supplied together'')))"

definition verify_and_inject ::
  "sdkwork_utils \<Rightarrow> serde_json \<Rightarrow> 'cert x509 \<Rightarrow> ('md, 'mv) tonic_metadata
     \<Rightarrow> RpcInternalServiceSecurity \<Rightarrow> system_time \<Rightarrow> 'md request \<Rightarrow> ('md status + unit) \<times> 'md request" where
  "verify_and_inject U J C M s now req =
     (case and_then (ok_or (rq_peer_certs req)
             (status_new M Unauthenticated
               ''internal RPC requires a verified mTLS peer certificate'')) (\<lambda>certificates.
           and_then (case certificates of
               leaf # _ \<Rightarrow> Ok leaf
             | [] \<Rightarrow> Err (status_new M Unauthenticated
                           ''internal RPC peer certificate chain is empty'')) (\<lambda>leaf.
           and_then (map_err (map_identity_error M)
             (verify_tls_peer_certificate_der C U (se_service_identity_policy s) leaf)) (\<lambda>identity.
           and_then (validate_optional_service_assertion M (rq_metadata req) identity) (\<lambda>_.
           and_then (verify_optional_caller_context U J M s (rq_metadata req) identity now) (\<lambda>ctx.
           Ok (identity, ctx)))))) of
        Err st \<Rightarrow> (Err st, req)
      | Ok (identity, ctx) \<Rightarrow>
          (Ok (), (let req' = req\<lparr>ext_service_identity := Some identity\<rparr>
                   in case ctx of
                        Some c \<Rightarrow> req'\<lparr>ext_caller_context := Some c\<rparr>
                      | None \<Rightarrow> req')))"

text \<open>The interceptor passes the request on, or answers with the status.\<close>

definition interceptor_call ::
  "sdkwork_utils \<Rightarrow> serde_json \<Rightarrow> 'cert x509 \<Rightarrow> ('md, 'mv) tonic_metadata
     \<Rightarrow> RpcInternalServiceSecurity \<Rightarrow> system_time \<Rightarrow> 'md request \<Rightarrow> 'md status + 'md request" where
  "interceptor_call U J C M s now req =
     (let (res, req') = verify_and_inject U J C M s now req in and_then res (\<lambda>_. Ok req'))"

definition require_verified_rpc_service_identity ::
  "('md, 'mv) tonic_metadata \<Rightarrow> 'md request \<Rightarrow> 'md status + VerifiedRpcServiceIdentity" where
  "require_verified_rpc_service_identity M req =
     ok_or (ext_service_identity req)
       (status_new M Unauthenticated ''internal RPC request has no verified mTLS service identity'')"

definition require_verified_rpc_caller_context ::
  "('md, 'mv) tonic_metadata \<Rightarrow> 'md request \<Rightarrow> 'md status + VerifiedRpcCallerContext" where
  "require_verified_rpc_caller_context M req =
     ok_or (ext_caller_context req)
       (status_new M Unauthenticated ''internal RPC request has no verified caller context'')"

text \<open>Without feature \<open>tls\<close> every request is refused.\<close>

definition verify_and_inject_no_tls ::
  "('md, 'mv) tonic_metadata \<Rightarrow> 'md request \<Rightarrow> ('md status + unit) \<times> 'md request" where
  "verify_and_inject_no_tls M req =
     (Err (status_new M FailedPrecondition
        ''internal RPC mTLS identity verification requires sdkwork-rpc-server/tls''), req)"

section \<open>What is accepted\<close>

lemma optional_metadata_Ok_iff:
  "optional_metadata M md key = Ok r \<longleftrightarrow>
     (case md_get M md key of None \<Rightarrow> r = None
      | Some value \<Rightarrow> \<exists>t. mv_to_str M value = Some t \<and> r = Some t)"
  by (auto simp: optional_metadata_def split: option.splits)

lemma optional_metadata_header:
  "optional_metadata M md key = Ok r \<Longrightarrow> r = header M md key"
  by (auto simp: optional_metadata_def header_def split: option.splits)

definition readable :: "('md, 'mv) tonic_metadata \<Rightarrow> 'md \<Rightarrow> string \<Rightarrow> bool" where
  "readable M md key = (case md_get M md key of None \<Rightarrow> True | Some v \<Rightarrow> mv_to_str M v \<noteq> None)"

lemma optional_metadata_readable:
  "optional_metadata M md key = Ok r \<longleftrightarrow> readable M md key \<and> r = header M md key"
  by (auto simp: optional_metadata_def header_def readable_def split: option.splits)

definition assertion_ok :: "('md, 'mv) tonic_metadata \<Rightarrow> 'md \<Rightarrow> string \<Rightarrow> bool" where
  "assertion_ok M md service_id \<longleftrightarrow>
     readable M md RPC_SERVICE_IDENTITY_ASSERTION_METADATA \<and>
     header M md RPC_SERVICE_IDENTITY_ASSERTION_METADATA \<in> {None, Some service_id}"

lemma validate_assertion_Ok_iff:
  "validate_optional_service_assertion M md identity = Ok u \<longleftrightarrow>
     assertion_ok M md (vi_service_id identity)"
  by (auto simp: validate_optional_service_assertion_def result_simps optional_metadata_readable
      assertion_ok_def split: option.splits)

lemma verify_optional_Ok_iff:
  "verify_optional_caller_context U J M s md identity now = Ok ctx \<longleftrightarrow>
     readable M md RPC_CALLER_CONTEXT_METADATA \<and>
     readable M md RPC_CALLER_CONTEXT_SIGNATURE_METADATA \<and>
     (case (header M md RPC_CALLER_CONTEXT_METADATA,
            header M md RPC_CALLER_CONTEXT_SIGNATURE_METADATA) of
        (None, None) \<Rightarrow> ctx = None
      | (Some e, Some g) \<Rightarrow>
          \<exists>v c. se_caller_context_verifier s = Some v \<and> readable M md ''idempotency-key'' \<and>
            verify U J v \<lparr>sc_encoded_context = e, sc_signature = g\<rparr> identity
              (header M md ''idempotency-key'') now = Ok c \<and> ctx = Some c
      | _ \<Rightarrow> False)"
  by (auto simp: verify_optional_caller_context_def result_simps optional_metadata_readable
      split: option.splits)

lemma ex_Some_image:
  "(\<exists>ctx. (\<exists>v. A v \<and> R \<and> (\<exists>c. B v c \<and> ctx = Some c)) \<and> P ctx) \<longleftrightarrow>
     (\<exists>v. A v \<and> R \<and> (\<exists>c. B v c \<and> P (Some c)))"
  by blast

lemma verify_and_inject_Ok_iff:
  "verify_and_inject U J C M s now req = (Ok u, req') \<longleftrightarrow>
     (\<exists>leaf rest identity ctx.
        rq_peer_certs req = Some (leaf # rest) \<and>
        verify_tls_peer_certificate_der C U (se_service_identity_policy s) leaf = Ok identity \<and>
        assertion_ok M (rq_metadata req) (vi_service_id identity) \<and>
        verify_optional_caller_context U J M s (rq_metadata req) identity now = Ok ctx \<and>
        req' = (case ctx of
                  None \<Rightarrow> req\<lparr>ext_service_identity := Some identity\<rparr>
                | Some c \<Rightarrow> req\<lparr>ext_service_identity := Some identity,
                                ext_caller_context := Some c\<rparr>))"
  by (auto simp: verify_and_inject_def and_then_def Let_def ok_or_def map_err_def
      validate_assertion_Ok_iff [symmetric, where u = "()"] split: sum.splits option.splits list.splits)

lemma verify_and_inject_Err:
  "verify_and_inject U J C M s now req = (Err st, req') \<Longrightarrow> req' = req"
  by (auto simp: verify_and_inject_def split: sum.splits)

section \<open>Properties\<close>

text \<open>C6. The interceptor passes a request on exactly when the peer presented a certificate, its leaf
  yields an identity under the policy, a service assertion is absent or names that identity, and
  the caller-context headers are both absent, or both present with a configured verifier that
  accepts them for that identity and the idempotency header. Then the request carries that
  identity and, if headers were sent, the verified context; metadata and certificates are
  unchanged. Otherwise the caller gets a status and no identity is set.\<close>
theorem interceptor_accepts_iff:
  "interceptor_call U J C M s now req = Ok req' \<longleftrightarrow>
     (\<exists>leaf rest identity.
        rq_peer_certs req = Some (leaf # rest) \<and>
        verify_tls_peer_certificate_der C U (se_service_identity_policy s) leaf = Ok identity \<and>
        assertion_ok M (rq_metadata req) (vi_service_id identity) \<and>
        readable M (rq_metadata req) RPC_CALLER_CONTEXT_METADATA \<and>
        readable M (rq_metadata req) RPC_CALLER_CONTEXT_SIGNATURE_METADATA \<and>
        (case (header M (rq_metadata req) RPC_CALLER_CONTEXT_METADATA,
               header M (rq_metadata req) RPC_CALLER_CONTEXT_SIGNATURE_METADATA) of
           (None, None) \<Rightarrow> req' = req\<lparr>ext_service_identity := Some identity\<rparr>
         | (Some e, Some g) \<Rightarrow>
             \<exists>v c. se_caller_context_verifier s = Some v \<and>
               readable M (rq_metadata req) ''idempotency-key'' \<and>
               verify U J v \<lparr>sc_encoded_context = e, sc_signature = g\<rparr> identity
                 (header M (rq_metadata req) ''idempotency-key'') now = Ok c \<and>
               req' = req\<lparr>ext_service_identity := Some identity, ext_caller_context := Some c\<rparr>
         | _ \<Rightarrow> False))"
proof -
  have "interceptor_call U J C M s now req = Ok req' \<longleftrightarrow>
      verify_and_inject U J C M s now req = (Ok (), req')"
    by (auto simp: interceptor_call_def result_simps split: prod.splits)
  then show ?thesis
    unfolding verify_and_inject_Ok_iff verify_optional_Ok_iff
    by (cases "header M (rq_metadata req) RPC_CALLER_CONTEXT_METADATA";
        cases "header M (rq_metadata req) RPC_CALLER_CONTEXT_SIGNATURE_METADATA")
      (simp_all add: ex_Some_image)
qed

end
