(* ===== verification/End_To_End.thy ===== *)
theory End_To_End
  imports Wire_Text Server_Security
begin

text \<open>
  From the credential of a calling service to the extensions of the request at the called one:
  what the client writes into the metadata, the server's interceptor can read.
\<close>

lemma insert_required_cases:
  assumes "insert_required M key value md = (Ok u, md')"
  shows "\<exists>k v. metadata_value M value = Some v \<and> md' = md_insert M md k v"
  using assms by (auto simp: insert_required_def split: if_splits option.splits)

lemma insert_required_readable:
  assumes "metadata_get_insert M" and "metadata_value_reads_back M"
    and "insert_required M key value md = (Ok u, md')" and "readable M md k"
  shows "readable M md' k"
  using insert_required_cases [OF assms(3)] assms
  by (auto simp: readable_def metadata_get_insert_def metadata_value_reads_back_def)

lemma credential_applied_readable:
  assumes "metadata_get_insert M" and "metadata_value_reads_back M"
    and "credential_apply_to K M c md = (Ok (), md')" and "readable M md k"
  shows "readable M md' k"
  using assms(3,4)
  by (auto simp: credential_apply_to_def split: sum.splits prod.splits option.splits
      dest!: insert_required_readable [OF assms(1,2)])

text \<open>Fresh call metadata reads as empty.\<close>

lemma fresh_metadata:
  assumes "metadata_get_insert M"
  shows "readable M (md_new M) k" and "header M (md_new M) k = None"
    and "idempotency_agrees K M (md_new M) e"
  using assms by (simp_all add: readable_def header_def idempotency_agrees_def metadata_get_insert_def)

lemma assertion_key_distinct:
  "RPC_SERVICE_IDENTITY_ASSERTION_METADATA \<notin>
     {RPC_CALLER_CONTEXT_METADATA, RPC_CALLER_CONTEXT_SIGNATURE_METADATA, ''idempotency-key''}"
  "''idempotency-key'' \<notin> {RPC_CALLER_CONTEXT_METADATA, RPC_CALLER_CONTEXT_SIGNATURE_METADATA}"
  by code_simp+

lemma signed_context_eta:
  "\<lparr>sc_encoded_context = sc_encoded_context s, sc_signature = sc_signature s\<rparr> = s"
  by (cases s) simp

text \<open>
  What the interceptor does with metadata to which an issued credential was applied, given what
  the verifier says about the credential.
\<close>

lemma interceptor_on_credential:
  assumes M: "metadata_get_insert M" "metadata_value_reads_back M"
    and K: "RPC_IDEMPOTENCY_KEY_METADATA K = ''idempotency-key''"
    and c: "credential_sendable K M c"
    and peer: "verify_tls_peer_certificate_der C U policy leaf = Ok identity"
    and v: "verify U J v (cr_signed_caller_context c) identity (cr_idempotency_key c) now = Ok vc"
    and req: "rq_peer_certs req = Some (leaf # rest)"
  shows "\<exists>md. credential_apply_to K M c (md_new M) = (Ok (), md) \<and>
    interceptor_call U J C M (security_new policy (Some v)) now (req\<lparr>rq_metadata := md\<rparr>) =
      Ok (req\<lparr>rq_metadata := md, ext_service_identity := Some identity,
              ext_caller_context := Some vc\<rparr>) \<and>
    header M md RPC_CALLER_CONTEXT_METADATA = Some (sc_encoded_context (cr_signed_caller_context c))"
proof -
  obtain md where md: "credential_apply_to K M c (md_new M) = (Ok (), md)"
    and h: "header M md = (header M (md_new M))
      (RPC_CALLER_CONTEXT_METADATA \<mapsto> sc_encoded_context (cr_signed_caller_context c),
       RPC_CALLER_CONTEXT_SIGNATURE_METADATA \<mapsto> sc_signature (cr_signed_caller_context c),
       RPC_IDEMPOTENCY_KEY_METADATA K := cr_idempotency_key c)"
    using credential_applied [OF M c fresh_metadata(3) [OF M(1)]] by blast
  have readable: "readable M md k" for k
    by (rule credential_applied_readable [OF M md fresh_metadata(1) [OF M(1)]])
  have ctx: "header M md RPC_CALLER_CONTEXT_METADATA = Some (sc_encoded_context (cr_signed_caller_context c))"
    and "header M md RPC_CALLER_CONTEXT_SIGNATURE_METADATA =
      Some (sc_signature (cr_signed_caller_context c))"
    and "header M md ''idempotency-key'' = cr_idempotency_key c"
    and "header M md RPC_SERVICE_IDENTITY_ASSERTION_METADATA = None"
    using assertion_key_distinct by (auto simp: h K fresh_metadata(2) [OF M(1)])
  then have "verify_optional_caller_context U J M (security_new policy (Some v)) md identity now =
      Ok (Some vc)" and "assertion_ok M md (vi_service_id identity)"
    using readable v
    by (simp_all add: verify_optional_Ok_iff security_new_def assertion_ok_def signed_context_eta)
  then have "verify_and_inject U J C M (security_new policy (Some v)) now (req\<lparr>rq_metadata := md\<rparr>) =
      (Ok (), req\<lparr>rq_metadata := md, ext_service_identity := Some identity,
              ext_caller_context := Some vc\<rparr>)"
    unfolding verify_and_inject_Ok_iff using peer req
    by (intro exI [of _ leaf] exI [of _ rest] exI [of _ identity] exI [of _ "Some vc"])
      (simp add: security_new_def)
  with md ctx show ?thesis by (simp add: interceptor_call_def)
qed

section \<open>A sample call\<close>

definition sample_x509 :: "unit x509" where
  "sample_x509 =
     \<lparr>from_der = (\<lambda>_. Ok ()), subject_alternative_name = (\<lambda>_. Ok (Some [URI (vi_spiffe_uri sample_peer)]))\<rparr>"

definition sample_policy :: RpcServiceIdentityPolicy where
  "sample_policy =
     \<lparr>sp_trust_domain = ''sdkwork.internal'', sp_allowed_service_ids = [''sdkwork-knowledgebase'']\<rparr>"

lemma sample_peer_verified:
  "verify_tls_peer_certificate_der sample_x509 reference_utils sample_policy ''DER'' = Ok sample_peer"
  by code_simp

definition sample_request :: "(string \<rightharpoonup> string) request" where
  "sample_request =
     \<lparr>rq_metadata = Map.empty, rq_peer_certs = Some [''DER''], ext_service_identity = None,
      ext_caller_context = None\<rparr>"

end
