(* ===== verification/Context_Authenticity.thy ===== *)
theory Context_Authenticity
  imports End_To_End
begin

text \<open>
  What an admitted caller context proves. Services sign contexts; requests with any headers, from
  any sender the TLS layer lets through, reach the interceptors of servers. The cryptography is
  symbolic: a tag that verifies under a secret key is one the holder of that key computed. Under
  this assumption every admitted context agrees with one that the peer's own signer issued.
\<close>

section \<open>Histories\<close>

text \<open>
  The events of a network, newest first: a service signed a context (with life time, clock, nonce
  and the result), or the interceptor of a service admitted a request with a verified identity
  and caller context.
\<close>

datatype net_event =
  Signed string RpcCallerContext duration system_time string SignedRpcCallerContext
| Admitted string VerifiedRpcServiceIdentity system_time VerifiedRpcCallerContext

text \<open>The tag \<open>tag\<close> on an encoded context is no forgery: it does not verify under the key of service
  \<open>i\<close>, or that service has signed the same encoded context before.\<close>

definition unforged ::
  "sdkwork_utils \<Rightarrow> (string \<Rightarrow> bytes) \<Rightarrow> net_event list \<Rightarrow> string \<Rightarrow> string \<Rightarrow> string \<Rightarrow> bool" where
  "unforged U keys tr i encoded tag_text \<longleftrightarrow>
     (\<forall>tag. base64url_decode U tag_text = Some tag \<longrightarrow>
        verify_hmac_sha256_base64url U (signing_input encoded) (keys i) tag \<longrightarrow>
        (\<exists>ctx ttl t nonce sc. Signed i ctx ttl t nonce sc \<in> set tr \<and>
           signing_input (sc_encoded_context sc) = signing_input encoded))"

definition no_forgery ::
  "sdkwork_utils \<Rightarrow> ('md, 'mv) tonic_metadata \<Rightarrow> (string \<Rightarrow> bytes) \<Rightarrow> net_event list \<Rightarrow> string \<Rightarrow> 'md \<Rightarrow> bool" where
  "no_forgery U M keys tr i md =
     (case (header M md RPC_CALLER_CONTEXT_METADATA, header M md RPC_CALLER_CONTEXT_SIGNATURE_METADATA) of
        (Some e, Some g) \<Rightarrow> unforged U keys tr i e g
      | _ \<Rightarrow> True)"

text \<open>
  The histories that can happen. \<open>keys\<close> gives the signing key of each service, which verifiers are
  configured with; \<open>secret\<close> says which of them only honest parties know.
\<close>

inductive network ::
  "sdkwork_utils \<Rightarrow> serde_json \<Rightarrow> 'cert x509 \<Rightarrow> ('md, 'mv) tonic_metadata \<Rightarrow> (string \<Rightarrow> bytes)
     \<Rightarrow> (string \<Rightarrow> bool) \<Rightarrow> net_event list \<Rightarrow> bool" for U J C M keys secret where
  silent: "network U J C M keys secret []"
| signed: "network U J C M keys secret tr \<Longrightarrow> signer_new i (keys i) = Ok s \<Longrightarrow> build b = Ok ctx \<Longrightarrow>
    sign_at U J s ctx ttl t nonce = Ok sc \<Longrightarrow>
    network U J C M keys secret (Signed i ctx ttl t nonce sc # tr)"
| admitted: "network U J C M keys secret tr \<Longrightarrow>
    verifier_new a pairs = Ok v \<Longrightarrow> list_all (\<lambda>(i, key). key = keys i) pairs \<Longrightarrow>
    interceptor_call U J C M (security_new policy (Some v)) now req = Ok req' \<Longrightarrow>
    ext_caller_context req = None \<Longrightarrow>
    ext_service_identity req' = Some peer \<Longrightarrow> ext_caller_context req' = Some vc \<Longrightarrow>
    (secret (vi_service_id peer) \<Longrightarrow> no_forgery U M keys tr (vi_service_id peer) (rq_metadata req)) \<Longrightarrow>
    network U J C M keys secret (Admitted a peer now vc # tr)"

inductive_cases network_signed: "network U J C M keys secret (Signed i ctx ttl t nonce sc # tr)"
inductive_cases network_admitted: "network U J C M keys secret (Admitted a peer now vc # tr)"

lemma network_suffix: "network U J C M keys secret (later @ tr) \<Longrightarrow> network U J C M keys secret tr"
proof (induction later)
  case (Cons e later)
  from Cons.prems have "network U J C M keys secret (later @ tr)" by (auto elim: network.cases)
  then show ?case by (rule Cons.IH)
qed simp

section \<open>What signing and admission say\<close>

lemma sign_at_Ok:
  assumes "signer_new issuer key = Ok s" and "sign_at U J s ctx ttl now nonce = Ok sc"
  obtains iss expi b where "sint iss = clock_seconds now"
    and "sint expi = clock_seconds now + int (as_secs ttl)"
    and "to_vec J (payload_of s ctx iss expi nonce) = Ok b"
    and "sc_encoded_context sc = base64url_encode U b"
  using assms(2)
  by (auto simp: sign_at_def result_simps unix_seconds_Ok_iff i64_try_from_Some_iff
      i64_checked_add_Some_iff Let_def)

lemma admitted_context:
  assumes "interceptor_call U J C M (security_new policy (Some v)) now req = Ok req'"
    and "ext_caller_context req = None"
    and "ext_service_identity req' = Some peer" and "ext_caller_context req' = Some vc"
  obtains e g where "header M (rq_metadata req) RPC_CALLER_CONTEXT_METADATA = Some e"
    and "header M (rq_metadata req) RPC_CALLER_CONTEXT_SIGNATURE_METADATA = Some g"
    and "verify U J v \<lparr>sc_encoded_context = e, sc_signature = g\<rparr> peer
      (header M (rq_metadata req) ''idempotency-key'') now = Ok vc"
proof -
  from assms(1) have "verify_and_inject U J C M (security_new policy (Some v)) now req = (Ok (), req')"
    by (auto simp: interceptor_call_def result_simps split: prod.splits)
  then obtain ctx identity where
      opt: "verify_optional_caller_context U J M (security_new policy (Some v)) (rq_metadata req)
        identity now = Ok ctx"
    and req': "req' = (case ctx of
                  None \<Rightarrow> req\<lparr>ext_service_identity := Some identity\<rparr>
                | Some c \<Rightarrow> req\<lparr>ext_service_identity := Some identity, ext_caller_context := Some c\<rparr>)"
    unfolding verify_and_inject_Ok_iff by blast
  from req' assms(2-4) have "ctx = Some vc" and "identity = peer"
    by (auto split: option.splits)
  with opt that show thesis
    by (auto simp: verify_optional_Ok_iff security_new_def split: option.splits)
qed

lemma verified_by_key:
  assumes "verifier_new a pairs = Ok v" and "list_all (\<lambda>(i, key). key = keys i) pairs"
    and "verify U J v sc peer md now = Ok vc"
  obtains p b tag where "base64url_decode U (sc_encoded_context sc) = Some b" and "from_slice J b = Ok p"
    and "vc = verified_of p" and "pl_audience_service_id p = a"
    and "base64url_decode U (sc_signature sc) = Some tag"
    and "verify_hmac_sha256_base64url U (signing_input (sc_encoded_context sc))
      (keys (vi_service_id peer)) tag"
    and "sint (pl_issued_at_unix_seconds p) \<le> clock_seconds now + 30"
    and "clock_seconds now - 30 \<le> sint (pl_expires_at_unix_seconds p)"
proof -
  obtain p where p: "accepts U J a pairs sc (vi_service_id peer) md now p" "vc = verified_of p"
    using assms(3) unfolding verify_Ok_iff [OF assms(1)] by blast
  then obtain key where key: "map_of (rev pairs) (vi_service_id peer) = Some key"
    by (auto simp: accepts_def)
  then have "key = keys (vi_service_id peer)"
    using assms(2) by (auto simp: list_all_iff dest!: map_of_SomeD)
  with p key that show thesis by (auto simp: accepts_def)
qed

section \<open>Agreement\<close>

text \<open>The verified context that a signed one stands for.\<close>

definition agrees :: "VerifiedRpcCallerContext \<Rightarrow> string \<Rightarrow> RpcCallerContext \<Rightarrow> string \<Rightarrow> bool" where
  "agrees vc issuer ctx nonce \<longleftrightarrow>
     vc_issuer_service_id vc = issuer \<and> vc_audience_service_id vc = cc_audience_service_id ctx \<and>
     vc_tenant_id vc = cc_tenant_id ctx \<and> vc_organization_id vc = cc_organization_id ctx \<and>
     vc_actor_id vc = cc_actor_id ctx \<and> vc_actor_kind vc = cc_actor_kind ctx \<and>
     vc_session_id vc = cc_session_id ctx \<and> vc_request_id vc = cc_request_id ctx \<and>
     vc_trace_id vc = cc_trace_id ctx \<and> vc_idempotency_key vc = cc_idempotency_key ctx \<and>
     vc_nonce vc = nonce"

lemma network_signed_in:
  assumes "network U J C M keys secret tr" and "Signed i ctx ttl t nonce sc \<in> set tr"
  obtains s where "signer_new i (keys i) = Ok s" and "sign_at U J s ctx ttl t nonce = Ok sc"
proof -
  obtain later earlier where "tr = later @ Signed i ctx ttl t nonce sc # earlier"
    using split_list [OF assms(2)] by blast
  with network_suffix assms(1) have "network U J C M keys secret (Signed i ctx ttl t nonce sc # earlier)"
    by blast
  with that show thesis by (blast elim: network_signed)
qed

text \<open>C2. Authenticity: in every history of the network, a caller context that an interceptor admits
  from a peer whose key is secret was signed before by that very peer, for the admitting service;
  every field of the verified context is the one the peer's signer was given, and the admission
  lies within the signed life time and the skew of 30 seconds. No sender can alter a field, change
  the audience, or present another service's context as its own.\<close>
theorem admitted_context_authentic:
  assumes "base64url_roundtrip U" and "json_roundtrip J"
    and "network U J C M keys secret (later @ Admitted a peer now vc # earlier)"
    and "secret (vi_service_id peer)"
  shows "\<exists>ctx ttl t nonce sc. Signed (vi_service_id peer) ctx ttl t nonce sc \<in> set earlier \<and>
    agrees vc (vi_service_id peer) ctx nonce \<and> cc_audience_service_id ctx = a \<and>
    clock_seconds t - 30 \<le> clock_seconds now \<and>
    clock_seconds now \<le> clock_seconds t + int (as_secs ttl) + 30"
proof -
  let ?i = "vi_service_id peer"
  from network_suffix [OF assms(3)] obtain pairs v policy req req' where
      net: "network U J C M keys secret earlier"
    and v: "verifier_new a pairs = Ok v" "list_all (\<lambda>(i, key). key = keys i) pairs"
    and call: "interceptor_call U J C M (security_new policy (Some v)) now req = Ok req'"
      "ext_caller_context req = None" "ext_service_identity req' = Some peer"
      "ext_caller_context req' = Some vc"
    and honest: "no_forgery U M keys earlier ?i (rq_metadata req)"
    using assms(4) by (elim network_admitted) blast
  obtain e g where h: "header M (rq_metadata req) RPC_CALLER_CONTEXT_METADATA = Some e"
      "header M (rq_metadata req) RPC_CALLER_CONTEXT_SIGNATURE_METADATA = Some g"
    and ok: "verify U J v \<lparr>sc_encoded_context = e, sc_signature = g\<rparr> peer
      (header M (rq_metadata req) ''idempotency-key'') now = Ok vc"
    using admitted_context [OF call] .
  obtain p b tag where p: "base64url_decode U e = Some b" "from_slice J b = Ok p" "vc = verified_of p"
      "pl_audience_service_id p = a" "base64url_decode U g = Some tag"
      "verify_hmac_sha256_base64url U (signing_input e) (keys ?i) tag"
      "sint (pl_issued_at_unix_seconds p) \<le> clock_seconds now + 30"
      "clock_seconds now - 30 \<le> sint (pl_expires_at_unix_seconds p)"
    by (rule verified_by_key [OF v ok]) simp
  from honest h p(5,6) obtain ctx ttl t nonce sc where
      ev: "Signed ?i ctx ttl t nonce sc \<in> set earlier" and same: "sc_encoded_context sc = e"
    by (auto simp: no_forgery_def unforged_def signing_input_def)
  obtain s where s: "signer_new ?i (keys ?i) = Ok s" "sign_at U J s ctx ttl t nonce = Ok sc"
    using network_signed_in [OF net ev] .
  obtain iss expi b' where w: "sint iss = clock_seconds t" "sint expi = clock_seconds t + int (as_secs ttl)"
      "to_vec J (payload_of s ctx iss expi nonce) = Ok b'" "e = base64url_encode U b'"
    using sign_at_Ok [OF s] same by metis
  have "b' = b" using p(1) w(4) assms(1) by (simp add: base64url_roundtrip_def)
  then have payload: "p = payload_of s ctx iss expi nonce"
    using w(3) p(2) assms(2) unfolding json_roundtrip_def by (metis sum.inject(2))
  have "sg_issuer_service_id s = ?i" using s(1) by (auto simp: signer_new_Ok_iff)
  with payload p(3,4,7,8) w(1,2) ev show ?thesis
    by (intro exI [of _ ctx] exI [of _ ttl] exI [of _ t] exI [of _ nonce] exI [of _ sc])
      (auto simp: agrees_def payload_of_def verified_of_def)
qed

lemma sample_history:
  obtains vc sc where
    "network reference_utils reference_json sample_x509 reference_metadata (\<lambda>_. sample_key)
       (\<lambda>i. i = ''sdkwork-knowledgebase'')
       [Admitted ''sdkwork-im'' sample_peer sample_now vc,
        Signed ''sdkwork-knowledgebase'' sample_context (from_secs 60) sample_now
          ''0123456789abcdef0123456789abcdef'' sc]"
proof -
  let ?nonce = "''0123456789abcdef0123456789abcdef''" and ?i = "''sdkwork-knowledgebase''"
  let ?net = "network reference_utils reference_json sample_x509 reference_metadata (\<lambda>_. sample_key)
       (\<lambda>i. i = ?i)"
  obtain sc vc where sign: "sign_at reference_utils reference_json sample_signer sample_context
      (from_secs 60) sample_now ?nonce = Ok sc"
    and vc: "verify reference_utils reference_json sample_verifier sc sample_peer
      (Some ''idempotency-1'') sample_now = Ok vc"
    using sample_accepted [of sample_now] sample_clock by auto
  let ?c = "\<lparr>cr_signed_caller_context = sc, cr_idempotency_key = Some ''idempotency-1''\<rparr>"
  have "credential_sendable reference_keys reference_metadata
      \<lparr>cr_signed_caller_context = sc, cr_idempotency_key = cc_idempotency_key sample_context\<rparr>"
    by (rule issued_credential_sendable [OF reference_base64url(2) reference_text
        reference_json_laws(1) reference_json_rejects_empty reference_metadata_laws(3) _ sample_build
        sample_signer_new _ _ _ _ sign])
      (simp_all add: reference_keys_def from_secs_def sample_clock)
  then have sendable: "credential_sendable reference_keys reference_metadata ?c"
    by (simp add: sample_context_def)
  obtain md where call: "interceptor_call reference_utils reference_json sample_x509 reference_metadata
      (security_new sample_policy (Some sample_verifier)) sample_now (sample_request\<lparr>rq_metadata := md\<rparr>) =
      Ok (sample_request\<lparr>rq_metadata := md, ext_service_identity := Some sample_peer,
              ext_caller_context := Some vc\<rparr>)"
    and h: "header reference_metadata md RPC_CALLER_CONTEXT_METADATA = Some (sc_encoded_context sc)"
    using interceptor_on_credential [OF reference_metadata_laws(1,2) _ sendable sample_peer_verified,
        of reference_json sample_verifier sample_now vc sample_request "[]"] vc
    by (auto simp: reference_keys_def sample_request_def)
  have signed: "?net [Signed ?i sample_context (from_secs 60) sample_now ?nonce sc]"
    by (rule network.signed [OF network.silent sample_signer_new sample_build sign])
  have "?net [Admitted ''sdkwork-im'' sample_peer sample_now vc,
      Signed ?i sample_context (from_secs 60) sample_now ?nonce sc]"
    by (rule network.admitted [OF signed sample_verifier_new _ call])
      (use h in \<open>auto simp: sample_request_def no_forgery_def unforged_def sample_peer_def
        split: option.split\<close>)
  then show thesis by (rule that)
qed

theorem admitted_context_authentic_witness:
  "\<exists>vc sc. network reference_utils reference_json sample_x509 reference_metadata (\<lambda>_. sample_key)
       (\<lambda>i. i = ''sdkwork-knowledgebase'')
       [Admitted ''sdkwork-im'' sample_peer sample_now vc,
        Signed ''sdkwork-knowledgebase'' sample_context (from_secs 60) sample_now
          ''0123456789abcdef0123456789abcdef'' sc] \<and>
     agrees vc ''sdkwork-knowledgebase'' sample_context ''0123456789abcdef0123456789abcdef''"
proof -
  obtain vc sc where net: "network reference_utils reference_json sample_x509 reference_metadata
       (\<lambda>_. sample_key) (\<lambda>i. i = ''sdkwork-knowledgebase'')
       ([] @ Admitted ''sdkwork-im'' sample_peer sample_now vc #
        [Signed ''sdkwork-knowledgebase'' sample_context (from_secs 60) sample_now
          ''0123456789abcdef0123456789abcdef'' sc])"
    using sample_history by auto
  have "vi_service_id sample_peer = ''sdkwork-knowledgebase''" by (simp add: sample_peer_def)
  with admitted_context_authentic [OF reference_base64url(1) reference_json_laws(1) net] net
  show ?thesis by auto
qed

end
