(* ===== verification/Discovery_Metadata.thy ===== *)
theory Discovery_Metadata
  imports Reference_Utils Core_Vocabulary
begin

text \<open>
  Crate \<open>sdkwork-rpc-discovery\<close> without the registration life cycle: the endpoint normalisation
  (endpoint.rs), the metadata of a registered instance (metadata.rs) and the metadata headers of
  discovery calls with their W3C trace context (rpc_metadata.rs). UUIDs and random bits are
  arguments; the metadata map is the parameter \<open>M\<close>.
\<close>

section \<open>Endpoints\<close>

definition normalize_http_endpoint :: "sdkwork_utils \<Rightarrow> string \<Rightarrow> string" where
  "normalize_http_endpoint U endpoint =
     (let trimmed = trim U endpoint
      in if starts_with trimmed ''http://'' \<or> starts_with trimmed ''https://'' then trimmed
         else ''http://'' @ trimmed)"

definition normalize_grpc_endpoint :: "sdkwork_utils \<Rightarrow> string \<Rightarrow> string" where
  "normalize_grpc_endpoint U bind_addr =
     (let trimmed = trim U bind_addr
      in if starts_with trimmed ''grpc://'' \<or> starts_with trimmed ''grpcs://'' then trimmed
         else ''grpc://'' @ trimmed)"

definition require_non_blank :: "sdkwork_utils \<Rightarrow> string \<Rightarrow> string \<Rightarrow> string + unit" where
  "require_non_blank U value field =
     (if is_blank U (Some value) then Err (field @ '' is required'') else Ok ())"

section \<open>Registration metadata\<close>

record RegistrationMetadataInput =
  rm_rpc_surface :: string
  rm_sdk_family :: string
  rm_domain :: string
  rm_proto_packages :: "string list"
  rm_operation_manifest_ref :: string
  rm_deployment_profile :: "string option"
  rm_runtime_target :: "string option"

definition build_registration_metadata ::
  "RegistrationMetadataInput \<Rightarrow> (string \<rightharpoonup> string)" where
  "build_registration_metadata input =
     (let m = [''rpc_surface'' \<mapsto> rm_rpc_surface input,
               ''sdk_family'' \<mapsto> rm_sdk_family input,
               ''domain'' \<mapsto> rm_domain input,
               ''proto_packages'' \<mapsto> join '','' (rm_proto_packages input),
               ''operation_manifest_ref'' \<mapsto> rm_operation_manifest_ref input];
          m = (case rm_deployment_profile input of
                 Some deployment_profile \<Rightarrow> m(''deployment_profile'' \<mapsto> deployment_profile)
               | None \<Rightarrow> m)
      in case rm_runtime_target input of
           Some runtime_target \<Rightarrow> m(''runtime_target'' \<mapsto> runtime_target)
         | None \<Rightarrow> m)"

section \<open>Headers of discovery calls\<close>

text \<open>A \<open>SubjectTokenProvider\<close> is the token it gives for this call.\<close>

definition unsigned_local_subject :: "string \<Rightarrow> string" where
  "unsigned_local_subject subject_id = subject_id"

definition build_traceparent :: "fresh \<Rightarrow> string" where
  "build_traceparent F =
     (let trace_id = fresh_uuid_simple F;
          parent_id_val = fresh_u64 F OR 1;
          parent_id = hex_padded 16 (unat parent_id_val)
      in ''00-'' @ trace_id @ ''-'' @ parent_id @ ''-01'')"

definition registry_metadata ::
  "metadata_keys \<Rightarrow> fresh \<Rightarrow> string \<Rightarrow> string \<Rightarrow> (string \<times> string) list" where
  "registry_metadata K F subject_token permission =
     [(''x-sdkwork-subject-id'', subject_token),
      (''x-sdkwork-registry-permissions'', permission),
      (RPC_REQUEST_ID_METADATA K, fresh_uuid F),
      (RPC_TRACEPARENT_METADATA K, build_traceparent F)]"

definition registry_read_metadata ::
  "metadata_keys \<Rightarrow> fresh \<Rightarrow> string \<Rightarrow> (string \<times> string) list" where
  "registry_read_metadata K F subject_token = registry_metadata K F subject_token ''read''"

definition registry_write_metadata ::
  "metadata_keys \<Rightarrow> fresh \<Rightarrow> string \<Rightarrow> (string \<times> string) list" where
  "registry_write_metadata K F subject_token = registry_metadata K F subject_token ''write''"

definition unsigned_registry_read_metadata ::
  "metadata_keys \<Rightarrow> fresh \<Rightarrow> string \<Rightarrow> (string \<times> string) list" where
  "unsigned_registry_read_metadata K F subject_id =
     registry_read_metadata K F (unsigned_local_subject subject_id)"

definition unsigned_registry_write_metadata ::
  "metadata_keys \<Rightarrow> fresh \<Rightarrow> string \<Rightarrow> (string \<times> string) list" where
  "unsigned_registry_write_metadata K F subject_id =
     registry_write_metadata K F (unsigned_local_subject subject_id)"

definition insert_ascii ::
  "('md, 'mv) tonic_metadata \<Rightarrow> 'md \<Rightarrow> string \<Rightarrow> string \<Rightarrow> 'md" where
  "insert_ascii M md key value =
     (case (metadata_key M key, metadata_value M value) of
        (Some parsed_key, Some parsed_value) \<Rightarrow> md_insert M md parsed_key parsed_value
      | _ \<Rightarrow> md)"

fun apply_metadata_template ::
  "('md, 'mv) tonic_metadata \<Rightarrow> 'md \<Rightarrow> (string \<times> string) list \<Rightarrow> 'md" where
  "apply_metadata_template M target [] = target"
| "apply_metadata_template M target ((key, value) # template) =
     apply_metadata_template M (insert_ascii M target key value) template"

section \<open>The trace context\<close>

fun split_on :: "char \<Rightarrow> string \<Rightarrow> string list" where
  "split_on c [] = [[]]"
| "split_on c (x # xs) =
     (if x = c then [] # split_on c xs
      else case split_on c xs of [] \<Rightarrow> [[x]] | p # ps \<Rightarrow> (x # p) # ps)"

definition lower_hex :: "char \<Rightarrow> bool" where
  "lower_hex c \<longleftrightarrow> c \<in> set ''0123456789abcdef''"

text \<open>The W3C format, read from the text: four fields, of which the two ids are lower-case
  hexadecimal of fixed length and not all zero.\<close>

definition w3c_traceparent :: "string \<Rightarrow> bool" where
  "w3c_traceparent s =
     (case split_on (CHR ''-'') s of
        [version, trace_id, parent_id, flags] \<Rightarrow>
          version = ''00'' \<and> flags = ''01'' \<and>
          length trace_id = 32 \<and> list_all lower_hex trace_id \<and> \<not> list_all (\<lambda>c. c = CHR ''0'') trace_id \<and>
          length parent_id = 16 \<and> list_all lower_hex parent_id \<and>
          \<not> list_all (\<lambda>c. c = CHR ''0'') parent_id
      | _ \<Rightarrow> False)"

text \<open>A UUID in simple format is 32 lower-case hexadecimal digits with the version digit 4.\<close>

definition uuid_v4_simple :: "string \<Rightarrow> bool" where
  "uuid_v4_simple s \<longleftrightarrow> length s = 32 \<and> list_all lower_hex s \<and> s ! 12 = CHR ''4''"

lemma split_on_nonempty: "split_on c s \<noteq> []"
  by (cases s) (auto split: list.splits)

lemma split_on_field: "c \<notin> set p \<Longrightarrow> split_on c (p @ c # s) = p # split_on c s"
  by (induction p) (auto split: list.splits)

lemma split_on_last: "c \<notin> set p \<Longrightarrow> split_on c p = [p]"
  by (induction p) auto

lemma hex_char_cases:
  assumes "d < 16"
  shows "lower_hex (hex_char d)" and "hex_char d = CHR ''0'' \<longleftrightarrow> d = 0"
proof -
  have "d \<in> set [0..<16]" using assms by simp
  moreover have "\<forall>d \<in> set [0..<16]. lower_hex (hex_char d) \<and> (hex_char d = CHR ''0'' \<longleftrightarrow> d = 0)"
    by code_simp
  ultimately show "lower_hex (hex_char d)" and "hex_char d = CHR ''0'' \<longleftrightarrow> d = 0"
    by blast+
qed

lemma hex_padded_hex: "list_all lower_hex (hex_padded k n)"
  by (induction k n rule: hex_padded.induct) (simp_all add: hex_char_cases)

lemma hex_padded_zero:
  "n < 16 ^ k \<Longrightarrow> list_all (\<lambda>c. c = CHR ''0'') (hex_padded k n) \<longleftrightarrow> n = 0"
proof (induction k n rule: hex_padded.induct)
  case (2 k n)
  then have "n div 16 < 16 ^ k" by (simp add: div_less_iff_less_mult mult.commute)
  moreover have "n = 0 \<longleftrightarrow> n div 16 = 0 \<and> n mod 16 = 0" by presburger
  ultimately show ?case using "2.IH" by (simp add: hex_char_cases)
qed simp

lemma no_dash:
  assumes "list_all lower_hex s"
  shows "CHR ''-'' \<notin> set s"
proof
  have "\<not> lower_hex (CHR ''-'')" by code_simp
  moreover assume "CHR ''-'' \<in> set s"
  ultimately show False using assms by (auto simp: list_all_iff)
qed

lemma traceparent_w3c_helper:
  assumes "uuid_v4_simple (fresh_uuid_simple F)"
  shows "w3c_traceparent (build_traceparent F)"
proof -
  let ?t = "fresh_uuid_simple F" and ?v = "fresh_u64 F OR 1"
  let ?p = "hex_padded 16 (unat ?v)"
  have t: "length ?t = 32" "list_all lower_hex ?t" "?t ! 12 = CHR ''4''"
    using assms by (simp_all add: uuid_v4_simple_def)
  have "\<not> list_all (\<lambda>c. c = CHR ''0'') ?t"
  proof
    assume "list_all (\<lambda>c. c = CHR ''0'') ?t"
    then have "?t ! 12 = CHR ''0''" by (simp add: list_all_length t(1))
    with t(3) show False by simp
  qed
  moreover have "bit ?v 0" by (simp add: bit_or_iff)
  then have "?v \<noteq> 0" by (metis bit_0_eq bot_apply bot_bool_def)
  then have "\<not> list_all (\<lambda>c. c = CHR ''0'') ?p"
    using hex_padded_zero [of "unat ?v" 16] unat_less_range [of ?v] by (simp add: unat_gt_0)
  moreover have "split_on (CHR ''-'') (build_traceparent F) = [''00'', ?t, ?p, ''01'']"
    using no_dash [OF t(2)] no_dash [OF hex_padded_hex [of 16 "unat ?v"]]
    by (simp add: build_traceparent_def Let_def split_on_field)
  ultimately show ?thesis
    using t hex_padded_hex [of 16 "unat ?v"] by (simp add: w3c_traceparent_def)
qed

section \<open>Reading the headers back\<close>

lemma insert_ascii_get:
  assumes "metadata_get_insert M" and "metadata_key M k = Some k" and "metadata_value M v = Some x"
  shows "md_get M (insert_ascii M md k v) k' = (if k' = k then Some x else md_get M md k')"
  using assms by (simp add: insert_ascii_def metadata_get_insert_def)

lemma apply_template_other:
  assumes "metadata_get_insert M"
    and "list_all (\<lambda>(k, v). metadata_key M k = Some k \<and> metadata_value M v \<noteq> None) tmpl"
    and "k' \<notin> fst ` set tmpl"
  shows "md_get M (apply_metadata_template M md tmpl) k' = md_get M md k'"
  using assms(2,3)
proof (induction tmpl arbitrary: md)
  case (Cons kv tmpl)
  then show ?case
    by (cases kv) (auto simp: insert_ascii_get [OF assms(1)])
qed simp

lemma apply_template_get:
  assumes "metadata_get_insert M"
    and "list_all (\<lambda>(k, v). metadata_key M k = Some k \<and> metadata_value M v \<noteq> None) tmpl"
    and "distinct (map fst tmpl)" and "(k, v) \<in> set tmpl"
  shows "md_get M (apply_metadata_template M md tmpl) k = metadata_value M v"
  using assms(2,3,4)
proof (induction tmpl arbitrary: md)
  case (Cons kv tmpl)
  obtain k1 v1 x where kv: "kv = (k1, v1)" and x: "metadata_value M v1 = Some x"
    and key: "metadata_key M k1 = Some k1"
    using Cons.prems(1) by (cases kv) auto
  show ?case
  proof (cases "(k, v) = (k1, v1)")
    case True
    have "k1 \<notin> fst ` set tmpl" using Cons.prems(2) kv by simp
    then show ?thesis
      using True Cons.prems(1) x key
      by (simp add: kv apply_template_other [OF assms(1)] insert_ascii_get [OF assms(1)])
  next
    case False
    then show ?thesis
      using Cons.prems kv by (auto intro: Cons.IH)
  qed
qed simp

section \<open>Properties\<close>

text \<open>C38. The trace context of a discovery call is a well-formed W3C \<open>traceparent\<close> whatever the 64
  random bits are: version 00, a 32-digit non-zero trace id, a 16-digit non-zero parent id and
  the sampled flag.\<close>
theorem traceparent_w3c:
  "uuid_v4_simple (fresh_uuid_simple F) \<Longrightarrow> w3c_traceparent (build_traceparent F)"
  by (rule traceparent_w3c_helper)

theorem traceparent_w3c_witness:
  "w3c_traceparent (build_traceparent
     \<lparr>fresh_uuid = ''67e55044-10b1-426f-9247-bb680e5fe0c8'',
      fresh_uuid_simple = ''67e5504410b1426f9247bb680e5fe0c8'', fresh_u64 = 0\<rparr>)"
  by (rule traceparent_w3c) code_simp

end
