(* ===== verification/Full_Jitter.thy ===== *)
theory Full_Jitter
  imports External_Api
begin

text \<open>
  The contract that the backoff functions of the framework share: the retry backoff
  (theory \<open>Resilience\<close>), the reconnect backoff of the watch loop (\<open>Watching_Resolver\<close>) and the
  backoff of the lease renewal (\<open>Discovery_Lifecycle\<close>), with the facts on durations that the last
  two need.
\<close>

section \<open>The contract of a Full Jitter backoff\<close>

text \<open>
  A delay that is drawn uniformly from an interval starting at zero, whose upper end never
  shrinks with the attempt and never exceeds a cap. Delays are in milliseconds.
\<close>

locale full_jitter =
  fixes delay :: "rng \<Rightarrow> 'p \<Rightarrow> u32 \<Rightarrow> nat"
    and window :: "'p \<Rightarrow> u32 \<Rightarrow> nat"
    and cap :: "'p \<Rightarrow> nat"
    and jittered :: "'p \<Rightarrow> u32 \<Rightarrow> bool"
  assumes delay_drawn: "jittered p n \<Longrightarrow> draws_in_range draw \<Longrightarrow> delay draw p n = draw (window p n)"
    and window_cap: "jittered p n \<Longrightarrow> window p n \<le> cap p"
    and window_grows: "jittered p n \<Longrightarrow> jittered p m \<Longrightarrow> n \<le> m \<Longrightarrow> window p n \<le> window p m"
begin

lemma delay_in_window:
  "jittered p n \<Longrightarrow> draws_in_range draw \<Longrightarrow> delay draw p n \<le> window p n"
  by (simp add: delay_drawn draws_in_rangeD)

lemma delay_capped: "jittered p n \<Longrightarrow> draws_in_range draw \<Longrightarrow> delay draw p n \<le> cap p"
  by (rule order_trans [OF delay_in_window window_cap])

lemma delay_attained:
  assumes "jittered p n" and "d \<le> window p n"
  shows "\<exists>draw. draws_in_range draw \<and> delay draw p n = d"
proof (intro exI conjI)
  show range: "draws_in_range (\<lambda>b. min d b)"
    by (simp add: draws_in_range_def)
  show "delay (\<lambda>b. min d b) p n = d"
    using assms by (simp add: delay_drawn [OF assms(1) range])
qed

lemma delays_are_window:
  "jittered p n \<Longrightarrow> {delay draw p n |draw. draws_in_range draw} = {0..window p n}"
  by (auto simp: delay_in_window dest: delay_attained)

lemma later_delays_include:
  assumes "jittered p n" and "jittered p m" and "n \<le> m"
  shows "{delay draw p n |draw. draws_in_range draw} \<subseteq> {delay draw p m |draw. draws_in_range draw}"
  using window_grows [OF assms] by (simp add: delays_are_window assms(1,2))

end

section \<open>Durations scaled by a power of two\<close>

text \<open>\<open>initial.saturating_mul(1u32 << attempt.min(16)).min(max_backoff)\<close>\<close>

definition duration_window :: "u32 \<Rightarrow> duration \<Rightarrow> duration \<Rightarrow> duration" where
  "duration_window attempt initial max_backoff =
     (let exponent = min attempt 16
      in min (duration_saturating_mul initial (push_bit (unat exponent) 1)) max_backoff)"

lemma duration_window_eq:
  "duration_window attempt initial max_backoff =
     min (min (initial * 2 ^ min (unat attempt) 16) duration_max) max_backoff"
  by (simp add: duration_window_def duration_saturating_mul_def unat_word_min unat_two_power)

lemma duration_window_zero:
  "duration_window attempt initial max_backoff = 0 \<longleftrightarrow> initial = 0 \<or> max_backoff = 0"
proof -
  have zero: "min a b = 0 \<longleftrightarrow> a = 0 \<or> b = 0" for a b :: nat
    by (auto simp: min_def)
  show ?thesis by (simp add: duration_window_eq zero) (simp add: duration_max_def)
qed

lemma duration_window_mono:
  "n \<le> m \<Longrightarrow> duration_window n initial max_backoff \<le> duration_window m initial max_backoff"
proof -
  assume "n \<le> m"
  then have "(2::nat) ^ min (unat n) 16 \<le> 2 ^ min (unat m) 16"
    by (intro power_increasing) (auto simp: word_le_nat_alt)
  then show ?thesis
    unfolding duration_window_eq by (meson min.mono mult_le_mono2 order_refl)
qed

lemma as_millis_mono: "a \<le> b \<Longrightarrow> as_millis a \<le> as_millis b"
  by (simp add: as_millis_def div_le_mono)

text \<open>The window of a delay drawn in whole milliseconds, for the pair of initial and maximal delay.\<close>

definition duration_window_millis :: "duration \<times> duration \<Rightarrow> u32 \<Rightarrow> nat" where
  "duration_window_millis p attempt =
     min (as_millis (duration_window attempt (fst p) (snd p))) (2 ^ 64 - 1)"

lemma duration_window_millis_cap: "duration_window_millis p n \<le> as_millis (snd p)"
proof -
  have "as_millis (duration_window n (fst p) (snd p)) \<le> as_millis (snd p)"
    by (intro as_millis_mono) (simp add: duration_window_eq)
  then show ?thesis by (simp add: duration_window_millis_def)
qed

lemma duration_window_millis_mono:
  "n \<le> m \<Longrightarrow> duration_window_millis p n \<le> duration_window_millis p m"
  unfolding duration_window_millis_def
  by (intro min.mono as_millis_mono duration_window_mono order_refl)

lemma millis_delay_le:
  "d = from_millis n \<Longrightarrow> as_millis d \<le> as_millis bound \<Longrightarrow> d \<le> bound"
proof -
  assume d: "d = from_millis n" and le: "as_millis d \<le> as_millis bound"
  then have "n \<le> as_millis bound" by simp
  then have "d \<le> from_millis (as_millis bound)"
    by (simp add: d from_millis_def)
  also have "\<dots> \<le> bound"
    by (simp add: from_millis_def as_millis_def)
  finally show ?thesis .
qed

end
