(* ===== verification/Discovery_Lifecycle.thy ===== *)
theory Discovery_Lifecycle
  imports Discovery_Metadata Full_Jitter
begin

text \<open>
  \<open>lifecycle.rs\<close>: the registration of a server instance with the discovery registry, the loop
  that renews its lease and its deregistration. The registry's answer to each call is an argument
  (the record \<open>registry\<close>); a failed call gives its tonic status. The renewal loop runs until its
  task is aborted; it is modelled turn by turn, with the sleep and the log event of each turn.
\<close>

section \<open>Configuration\<close>

datatype DiscoveryRegistrationError =
    RegValidation string
  | RegTransport string
  | RegRpc string

fun registration_error_display :: "DiscoveryRegistrationError \<Rightarrow> string" where
  "registration_error_display (RegValidation m) = ''validation failed: '' @ m"
| "registration_error_display (RegTransport m) = ''transport failed: '' @ m"
| "registration_error_display (RegRpc m) = ''discovery rpc failed: '' @ m"

record DiscoveryInstanceConfig =
  ic_discovery_endpoint :: string
  ic_namespace :: string
  ic_environment :: string
  ic_service_name :: string
  ic_instance_id :: string
  ic_advertised_endpoint :: string
  ic_protocol :: string
  ic_version :: string
  ic_region :: string
  ic_zone :: string
  ic_lease_ttl_seconds :: u64
  ic_subject_id :: string
  ic_metadata :: "string \<rightharpoonup> string"
  ic_revision_cas_on_register :: bool
  ic_expected_revision :: "u64 option"

definition require_non_empty ::
  "sdkwork_utils \<Rightarrow> string \<Rightarrow> string \<Rightarrow> DiscoveryRegistrationError + unit" where
  "require_non_empty U value field = map_err RegValidation (require_non_blank U value field)"

text \<open>The checks in the order of the code; the first blank field is reported.\<close>

definition instance_fields :: "DiscoveryInstanceConfig \<Rightarrow> (string \<times> string) list" where
  "instance_fields c =
     [(ic_discovery_endpoint c, ''discovery_endpoint''), (ic_namespace c, ''namespace''),
      (ic_environment c, ''environment''), (ic_service_name c, ''service_name''),
      (ic_instance_id c, ''instance_id''), (ic_advertised_endpoint c, ''advertised_endpoint''),
      (ic_protocol c, ''protocol''), (ic_version c, ''version''), (ic_region c, ''region''),
      (ic_zone c, ''zone''), (ic_subject_id c, ''subject_id'')]"

definition instance_config_validate ::
  "sdkwork_utils \<Rightarrow> DiscoveryInstanceConfig \<Rightarrow> DiscoveryRegistrationError + unit" where
  "instance_config_validate U c =
     and_then (check_each (\<lambda>(value, field). require_non_empty U value field) (instance_fields c)) (\<lambda>_.
     reject_if (ic_lease_ttl_seconds c = 0)
       (RegValidation ''lease_ttl_seconds must be greater than zero'')
     (reject_if (ic_metadata c ''rpc_surface'' = None)
       (RegValidation ''metadata.rpc_surface is required'')
     (Ok ())))"

record RenewLoopConfig =
  rl_initial_backoff :: duration
  rl_max_backoff :: duration
  rl_max_consecutive_failures :: u32

definition renew_loop_config_default :: RenewLoopConfig where
  "renew_loop_config_default =
     \<lparr>rl_initial_backoff = from_secs 1, rl_max_backoff = from_secs 10,
      rl_max_consecutive_failures = 3\<rparr>"

section \<open>The registry\<close>

record RegisterInstanceRequest =
  ri_namespace :: string
  ri_environment :: string
  ri_service_name :: string
  ri_instance_id :: string
  ri_endpoint :: string
  ri_protocol :: string
  ri_version :: string
  ri_region :: string
  ri_zone :: string
  ri_weight :: u32
  ri_priority :: u32
  ri_status :: i32
  ri_metadata :: "string \<rightharpoonup> string"
  ri_lease_ttl_seconds :: u64
  ri_expected_revision :: "u64 option"
  ri_persistent :: bool
  ri_health_check :: "unit option"

record InstanceRequest =
  ir_namespace :: string
  ir_environment :: string
  ir_service_name :: string
  ir_instance_id :: string

record RenewLeaseRequest =
  rr_lease_id :: string
  rr_lease_ttl_seconds :: u64

text \<open>The answers of the registry service on a channel; \<open>status_text\<close> is the text of a status.\<close>

record ('ch, 'md) registry =
  rpc_register :: "'ch \<Rightarrow> RegisterInstanceRequest \<Rightarrow> 'md \<Rightarrow> 'md status + string"
  rpc_retrieve :: "'ch \<Rightarrow> InstanceRequest \<Rightarrow> 'md \<Rightarrow> 'md status + ServiceInstance option"
  rpc_renew :: "'ch \<Rightarrow> RenewLeaseRequest \<Rightarrow> 'md \<Rightarrow> 'md status + unit"
  rpc_deregister :: "'ch \<Rightarrow> InstanceRequest \<Rightarrow> 'md \<Rightarrow> 'md status + unit"
  status_text :: "'md status \<Rightarrow> string"

definition map_status :: "('ch, 'md) registry \<Rightarrow> 'md status \<Rightarrow> DiscoveryRegistrationError" where
  "map_status R st = RegRpc (status_text R st)"

definition connect ::
  "('ep, 'ch, 'tls, 'md, 'mv) externals \<Rightarrow> string \<Rightarrow> DiscoveryRegistrationError + 'ch" where
  "connect X target =
     map_err RegTransport
       (and_then (ep_from_shared (x_transport X) (normalize_http_endpoint (x_utils X) target))
         (ep_connect (x_transport X)))"

definition call_headers ::
  "('ep, 'ch, 'tls, 'md, 'mv) externals \<Rightarrow> (string \<times> string) list \<Rightarrow> 'md" where
  "call_headers X template =
     apply_metadata_template (x_metadata X) (md_new (x_metadata X)) template"

definition instance_request :: "DiscoveryInstanceConfig \<Rightarrow> InstanceRequest" where
  "instance_request c =
     \<lparr>ir_namespace = ic_namespace c, ir_environment = ic_environment c,
      ir_service_name = ic_service_name c, ir_instance_id = ic_instance_id c\<rparr>"

definition resolve_expected_revision ::
  "('ep, 'ch, 'tls, 'md, 'mv) externals \<Rightarrow> fresh \<Rightarrow> ('ch, 'md) registry \<Rightarrow> 'ch
     \<Rightarrow> DiscoveryInstanceConfig \<Rightarrow> string \<Rightarrow> DiscoveryRegistrationError + u64 option" where
  "resolve_expected_revision X F R ch config subject_id =
     (case ic_expected_revision config of
        Some expected_revision \<Rightarrow> Ok (Some expected_revision)
      | None \<Rightarrow>
          if \<not> ic_revision_cas_on_register config then Ok None
          else (let read_metadata = unsigned_registry_read_metadata (x_keys X) F subject_id
                in case rpc_retrieve R ch (instance_request config) (call_headers X read_metadata) of
                     Ok (Some inst) \<Rightarrow> Ok (Some (si_revision inst))
                   | Ok None \<Rightarrow> Ok None
                   | Err st \<Rightarrow> if status_code st = NotFound then Ok None
                               else Err (map_status R st)))"

section \<open>Registration\<close>

record 'ch DiscoveryInstanceHandle =
  ih_client :: 'ch
  ih_config :: DiscoveryInstanceConfig
  ih_lease_id :: string
  ih_renew_interval :: duration
  ih_metadata_template :: "(string \<times> string) list"

definition register_request ::
  "discovery_proto \<Rightarrow> DiscoveryInstanceConfig \<Rightarrow> u64 option \<Rightarrow> RegisterInstanceRequest" where
  "register_request P c expected_revision =
     \<lparr>ri_namespace = ic_namespace c, ri_environment = ic_environment c,
      ri_service_name = ic_service_name c, ri_instance_id = ic_instance_id c,
      ri_endpoint = ic_advertised_endpoint c, ri_protocol = ic_protocol c,
      ri_version = ic_version c, ri_region = ic_region c, ri_zone = ic_zone c,
      ri_weight = 100, ri_priority = 0, ri_status = serving_as_i32 P,
      ri_metadata = ic_metadata c, ri_lease_ttl_seconds = ic_lease_ttl_seconds c,
      ri_expected_revision = expected_revision, ri_persistent = False,
      ri_health_check = None\<rparr>"

definition renew_interval_of :: "u64 \<Rightarrow> duration" where
  "renew_interval_of lease_ttl_seconds = from_secs (unat (max lease_ttl_seconds 3 div 3))"

text \<open>\<open>F\<close> and \<open>F'\<close> are the fresh values of the write and of the read metadata.\<close>

definition register ::
  "('ep, 'ch, 'tls, 'md, 'mv) externals \<Rightarrow> fresh \<Rightarrow> fresh \<Rightarrow> ('ch, 'md) registry
     \<Rightarrow> DiscoveryInstanceConfig \<Rightarrow> DiscoveryRegistrationError + 'ch DiscoveryInstanceHandle" where
  "register X F F' R config =
     and_then (instance_config_validate (x_utils X) config) (\<lambda>_.
     and_then (connect X (ic_discovery_endpoint config)) (\<lambda>ch.
     let metadata_template = unsigned_registry_write_metadata (x_keys X) F (ic_subject_id config)
     in and_then (resolve_expected_revision X F' R ch config (ic_subject_id config)) (\<lambda>expected.
     and_then (map_err (map_status R)
       (rpc_register R ch (register_request (x_proto X) config expected)
         (call_headers X metadata_template))) (\<lambda>lease_id.
     reject_if (is_blank (x_utils X) (Some lease_id))
       (RegRpc ''register_instance returned empty lease_id'')
     (Ok \<lparr>ih_client = ch, ih_config = config, ih_lease_id = lease_id,
          ih_renew_interval = renew_interval_of (ic_lease_ttl_seconds config),
          ih_metadata_template = metadata_template\<rparr>)))))"

definition renew_once ::
  "('ep, 'ch, 'tls, 'md, 'mv) externals \<Rightarrow> ('ch, 'md) registry \<Rightarrow> 'ch DiscoveryInstanceHandle
     \<Rightarrow> DiscoveryRegistrationError + unit" where
  "renew_once X R h =
     map_err (map_status R)
       (rpc_renew R (ih_client h)
         \<lparr>rr_lease_id = ih_lease_id h, rr_lease_ttl_seconds = ic_lease_ttl_seconds (ih_config h)\<rparr>
         (call_headers X (ih_metadata_template h)))"

definition deregister ::
  "('ep, 'ch, 'tls, 'md, 'mv) externals \<Rightarrow> ('ch, 'md) registry \<Rightarrow> 'ch DiscoveryInstanceHandle
     \<Rightarrow> DiscoveryRegistrationError + unit" where
  "deregister X R h =
     map_err (map_status R)
       (rpc_deregister R (ih_client h) (instance_request (ih_config h))
         (call_headers X (ih_metadata_template h)))"

section \<open>The renewal loop\<close>

definition renew_backoff :: "rng \<Rightarrow> u32 \<Rightarrow> duration \<Rightarrow> duration \<Rightarrow> duration" where
  "renew_backoff draw failures initial max_backoff =
     (let base = duration_window failures initial max_backoff
      in if base = 0 then initial
         else from_millis (draw (min (as_millis base) (2 ^ 64 - 1))))"

datatype renew_log = Quiet | Recovered u32 | Warned u32 | Critical u32

text \<open>The sleep before a renewal, and what its outcome does to the failure count.\<close>

definition renew_sleep :: "rng \<Rightarrow> RenewLoopConfig \<Rightarrow> duration \<Rightarrow> u32 \<Rightarrow> duration" where
  "renew_sleep draw cfg interval failures =
     (if failures = 0 then interval
      else renew_backoff draw failures (rl_initial_backoff cfg) (rl_max_backoff cfg))"

definition after_renewal ::
  "RenewLoopConfig \<Rightarrow> DiscoveryRegistrationError + unit \<Rightarrow> u32 \<Rightarrow> u32 \<times> renew_log" where
  "after_renewal cfg outcome failures =
     (case outcome of
        Ok _ \<Rightarrow> (0, if 0 < failures then Recovered failures else Quiet)
      | Err _ \<Rightarrow>
          (let failures = saturating_add failures 1
           in (failures, if rl_max_consecutive_failures cfg \<le> failures then Critical failures
                         else Warned failures)))"

fun renew_turns ::
  "('ep, 'ch, 'tls, 'md, 'mv) externals \<Rightarrow> RenewLoopConfig \<Rightarrow> 'ch DiscoveryInstanceHandle
     \<Rightarrow> (rng \<times> ('ch, 'md) registry) list \<Rightarrow> u32 \<Rightarrow> (duration \<times> renew_log) list" where
  "renew_turns X cfg h [] failures = []"
| "renew_turns X cfg h ((draw, R) # turns) failures =
     (let sleep = renew_sleep draw cfg (ih_renew_interval h) failures;
          (failures', log) = after_renewal cfg (renew_once X R h) failures
      in (sleep, log) # renew_turns X cfg h turns failures')"

section \<open>Names\<close>

definition default_instance_id :: "string \<Rightarrow> fresh \<Rightarrow> string" where
  "default_instance_id service_name F = service_name @ ''-'' @ fresh_uuid F"

definition grpc_advertised_endpoint :: "sdkwork_utils \<Rightarrow> string \<Rightarrow> string" where
  "grpc_advertised_endpoint U bind_addr = normalize_grpc_endpoint U bind_addr"

section \<open>The renewal backoff meets the jitter contract\<close>

definition renew_jittered :: "duration \<times> duration \<Rightarrow> u32 \<Rightarrow> bool" where
  "renew_jittered p failures \<longleftrightarrow> fst p \<noteq> 0 \<and> snd p \<noteq> 0"

interpretation renew_jitter: full_jitter
  "\<lambda>draw p failures. as_millis (renew_backoff draw failures (fst p) (snd p))"
  duration_window_millis "\<lambda>p. as_millis (snd p)" renew_jittered
  by unfold_locales
    (simp_all add: renew_jittered_def renew_backoff_def duration_window_zero Let_def
      duration_window_millis_mono duration_window_millis_cap,
      simp_all add: duration_window_millis_def)

lemma renew_backoff_window:
  assumes "draws_in_range draw" and "initial \<noteq> 0" and "max_backoff \<noteq> 0"
  shows "renew_backoff draw failures initial max_backoff \<le> duration_window failures initial max_backoff"
  by (rule millis_delay_le [where n = "draw (duration_window_millis (initial, max_backoff) failures)"])
    (use renew_jitter.delay_in_window [of "(initial, max_backoff)" failures draw] assms in
      \<open>simp_all add: renew_jittered_def renew_backoff_def duration_window_zero Let_def
        duration_window_millis_def\<close>)

lemma renew_backoff_le:
  assumes "draws_in_range draw" and "initial \<noteq> 0" and "max_backoff \<noteq> 0"
  shows "renew_backoff draw failures initial max_backoff \<le> max_backoff"
  using renew_backoff_window [OF assms, of failures] by (simp add: duration_window_eq)

section \<open>Counting failures\<close>

definition trailing_failures :: "bool list \<Rightarrow> nat" where
  "trailing_failures oks = length (takeWhile Not (rev oks))"

lemma trailing_failures_simps [simp]:
  "trailing_failures [] = 0"
  "trailing_failures (oks @ [ok]) = (if ok then 0 else Suc (trailing_failures oks))"
  by (simp_all add: trailing_failures_def)

lemma trailing_failures_le: "trailing_failures oks \<le> length oks"
  by (simp add: trailing_failures_def length_takeWhile_le [of Not "rev oks", simplified])

definition turn_log :: "RenewLoopConfig \<Rightarrow> bool list \<Rightarrow> bool \<Rightarrow> renew_log" where
  "turn_log cfg before ok =
     (let k = trailing_failures before
      in if ok then if k = 0 then Quiet else Recovered (word_of_nat k)
         else if unat (rl_max_consecutive_failures cfg) \<le> Suc k then Critical (word_of_nat (Suc k))
         else Warned (word_of_nat (Suc k)))"

text \<open>
  The reference, in plain numbers: the renewal interval if the renewal before succeeded or there was
  none; after \<open>k\<close> failures in a row, whole milliseconds drawn from the initial backoff doubled \<open>k\<close>
  times (at most 16 times) and capped by the maximal backoff, as far as they fit into 64 bits.
\<close>

definition turn_sleep :: "rng \<Rightarrow> RenewLoopConfig \<Rightarrow> duration \<Rightarrow> bool list \<Rightarrow> duration" where
  "turn_sleep draw cfg interval before =
     (let k = trailing_failures before;
          window = min (rl_initial_backoff cfg * 2 ^ min k 16) (rl_max_backoff cfg) div 1000000
      in if k = 0 then interval else draw (min window (2 ^ 64 - 1)) * 1000000)"

fun expected_turns ::
  "('ep, 'ch, 'tls, 'md, 'mv) externals \<Rightarrow> RenewLoopConfig \<Rightarrow> 'ch DiscoveryInstanceHandle
     \<Rightarrow> bool list \<Rightarrow> (rng \<times> ('ch, 'md) registry) list \<Rightarrow> (duration \<times> renew_log) list" where
  "expected_turns X cfg h before [] = []"
| "expected_turns X cfg h before ((draw, R) # turns) =
     (turn_sleep draw cfg (ih_renew_interval h) before,
      turn_log cfg before (is_ok (renew_once X R h)))
     # expected_turns X cfg h (before @ [is_ok (renew_once X R h)]) turns"

lemma after_renewal_count:
  assumes "Suc (trailing_failures before) < 2 ^ 32"
  shows "after_renewal cfg outcome (word_of_nat (trailing_failures before)) =
    (word_of_nat (trailing_failures (before @ [is_ok outcome])), turn_log cfg before (is_ok outcome))"
proof -
  let ?k = "trailing_failures before"
  have k: "unat (word_of_nat ?k :: u32) = ?k"
    using assms by (intro unat_word_of_nat) simp
  have "saturating_add (word_of_nat ?k :: u32) 1 = word_of_nat (Suc ?k)"
    using assms by (intro saturating_add_of_nat) simp
  moreover have "unat (word_of_nat (Suc ?k) :: u32) = Suc ?k"
    using assms by (intro unat_word_of_nat) simp
  moreover have "(0 < (word_of_nat ?k :: u32)) = (?k \<noteq> 0)"
    using k by (simp add: word_less_nat_alt)
  ultimately show ?thesis
    using k by (cases outcome) (auto simp: after_renewal_def turn_log_def Let_def word_le_nat_alt
        \<open>unat (word_of_nat (Suc ?k) :: u32) = Suc ?k\<close> simp del: of_nat_Suc)
qed

lemma renew_sleep_expected:
  assumes "trailing_failures before < 2 ^ 32" and "0 < rl_initial_backoff cfg"
    and "0 < rl_max_backoff cfg" and "rl_max_backoff cfg \<le> duration_max"
  shows "renew_sleep draw cfg interval (word_of_nat (trailing_failures before)) =
    turn_sleep draw cfg interval before"
proof -
  let ?k = "trailing_failures before"
  have k: "unat (word_of_nat ?k :: u32) = ?k"
    using assms(1) by (intro unat_word_of_nat) simp
  then have "(word_of_nat ?k :: u32) = 0 \<longleftrightarrow> ?k = 0" by (metis unat_0 unat_eq_zero)
  moreover have "duration_window (word_of_nat ?k) (rl_initial_backoff cfg) (rl_max_backoff cfg) =
      min (rl_initial_backoff cfg * 2 ^ min ?k 16) (rl_max_backoff cfg)"
    using assms(4) by (simp add: duration_window_eq k min.assoc min.absorb2)
  ultimately show ?thesis
    using assms(2,3)
    by (auto simp: renew_sleep_def turn_sleep_def renew_backoff_def duration_window_zero Let_def
        as_millis_def from_millis_def min_def)
qed

lemma renew_turns_expected:
  assumes "0 < rl_initial_backoff cfg" and "0 < rl_max_backoff cfg"
    and "rl_max_backoff cfg \<le> duration_max"
  shows "length before + length turns < 2 ^ 32 \<Longrightarrow>
   renew_turns X cfg h turns (word_of_nat (trailing_failures before)) =
     expected_turns X cfg h before turns"
proof (induction turns arbitrary: before)
  case (Cons turn turns)
  obtain draw R where turn: "turn = (draw, R)" by (cases turn)
  have "Suc (trailing_failures before) < 2 ^ 32"
    using Cons.prems trailing_failures_le [of before] by simp
  with renew_sleep_expected [of before cfg draw "ih_renew_interval h"] assms
    after_renewal_count [of before cfg "renew_once X R h"]
    Cons.IH [of "before @ [is_ok (renew_once X R h)]"] Cons.prems
  show ?case by (simp add: turn)
qed simp

section \<open>Properties\<close>

lemma instance_config_validate_iff:
  "instance_config_validate U c = Ok u \<longleftrightarrow>
     list_all (\<lambda>(value, field). \<not> is_blank U (Some value)) (instance_fields c) \<and>
     ic_lease_ttl_seconds c \<noteq> 0 \<and> ''rpc_surface'' \<in> dom (ic_metadata c)"
  by (auto simp: instance_config_validate_def result_simps require_non_empty_def
      require_non_blank_def list_all_iff)

text \<open>C31. Registration gives a handle exactly for a configuration whose eleven text fields are not
  blank, whose lease is positive and whose metadata names the RPC surface, when the control plane
  is reachable and grants a non-blank lease. The request carries the configured revision if there
  is one, else under compare-and-set the revision the registry holds (none if the instance is
  unknown), else none; a retrieve error other than NOT_FOUND gives no handle.\<close>
theorem register_accepts_iff:
  "register X F F' R c = Ok h \<longleftrightarrow>
     list_all (\<lambda>(value, field). \<not> is_blank (x_utils X) (Some value)) (instance_fields c) \<and>
     ic_lease_ttl_seconds c \<noteq> 0 \<and> ''rpc_surface'' \<in> dom (ic_metadata c) \<and>
     connect X (ic_discovery_endpoint c) = Ok (ih_client h) \<and>
     (\<exists>expected.
        (case ic_expected_revision c of
           Some revision \<Rightarrow> expected = Some revision
         | None \<Rightarrow>
             if ic_revision_cas_on_register c
             then case rpc_retrieve R (ih_client h) (instance_request c)
                         (call_headers X
                           (unsigned_registry_read_metadata (x_keys X) F' (ic_subject_id c))) of
                    Ok found \<Rightarrow> expected = map_option si_revision found
                  | Err st \<Rightarrow> status_code st = NotFound \<and> expected = None
             else expected = None) \<and>
        rpc_register R (ih_client h) (register_request (x_proto X) c expected)
          (call_headers X (ih_metadata_template h)) = Ok (ih_lease_id h)) \<and>
     \<not> is_blank (x_utils X) (Some (ih_lease_id h)) \<and>
     h = \<lparr>ih_client = ih_client h, ih_config = c, ih_lease_id = ih_lease_id h,
          ih_renew_interval = renew_interval_of (ic_lease_ttl_seconds c),
          ih_metadata_template = unsigned_registry_write_metadata (x_keys X) F (ic_subject_id c)\<rparr>"
  (is "?reg \<longleftrightarrow> ?rhs")
proof -
  have rev: "resolve_expected_revision X F' R ch c (ic_subject_id c) = Ok expected \<longleftrightarrow>
     (case ic_expected_revision c of
        Some revision \<Rightarrow> expected = Some revision
      | None \<Rightarrow>
          if ic_revision_cas_on_register c
          then case rpc_retrieve R ch (instance_request c)
                      (call_headers X
                        (unsigned_registry_read_metadata (x_keys X) F' (ic_subject_id c))) of
                 Ok found \<Rightarrow> expected = map_option si_revision found
               | Err st \<Rightarrow> status_code st = NotFound \<and> expected = None
          else expected = None)" for ch expected
    by (auto simp: resolve_expected_revision_def Let_def
        split: option.splits sum.splits if_splits)
  show ?thesis
    unfolding rev [symmetric]
    by (cases h) (auto simp: register_def instance_config_validate_iff result_simps Let_def)
qed

text \<open>The renewal interval is at least a second and three of them fit in the lease (a lease below
  three seconds counts as three); it is shorter than the lease exactly when the lease is longer
  than one second, so a one-second lease has run out when its first renewal is sent.\<close>
theorem renew_interval_bounds:
  "from_secs 1 \<le> renew_interval_of ttl \<and>
   3 * renew_interval_of ttl \<le> from_secs (max 3 (unat ttl)) \<and>
   (renew_interval_of ttl < from_secs (unat ttl) \<longleftrightarrow> 1 < unat ttl)"
proof -
  have "unat (max ttl 3 div 3) = max (unat ttl) 3 div 3"
    by (simp add: unat_div unat_word_max)
  then show ?thesis
    by (auto simp: renew_interval_of_def from_secs_def max_def)
qed

lemma renew_sleep_le:
  assumes "draws_in_range draw" and "rl_initial_backoff cfg \<noteq> 0" and "rl_max_backoff cfg \<noteq> 0"
  shows "renew_sleep draw cfg interval failures \<le> max interval (rl_max_backoff cfg)"
  using renew_backoff_le [OF assms, of failures] by (simp add: renew_sleep_def max_def)

lemma renew_turns_sleep_le:
  assumes "rl_initial_backoff cfg \<noteq> 0" and "rl_max_backoff cfg \<noteq> 0"
  shows "list_all (\<lambda>(draw, R). draws_in_range draw) turns \<Longrightarrow>
    list_all (\<lambda>(sleep, log). sleep \<le> max (ih_renew_interval h) (rl_max_backoff cfg))
      (renew_turns X cfg h turns failures)"
proof (induction turns arbitrary: failures)
  case (Cons turn turns)
  then show ?case
    using assms renew_sleep_le by (cases turn) (simp split: prod.split)
qed simp

text \<open>C18. Lease renewal: over any number of turns below \<open>2 ^ 32\<close>, the loop sleeps and reports as the
  reference says. Before each renewal it sleeps the renewal interval if the renewal before
  succeeded (or it is the first), and after \<open>k\<close> failures in a row a delay drawn from the initial
  backoff times \<open>2 ^ k\<close> (the exponent held at 16), capped by the maximal backoff; so no sleep exceeds
  the interval or the maximal backoff. It reports a critical error exactly from the configured
  number of failures in a row on, and a recovery at the first success after a failure.\<close>
theorem renewal_loop:
  assumes "length turns < 2 ^ 32" and "list_all (\<lambda>(draw, R). draws_in_range draw) turns"
    and "0 < rl_initial_backoff cfg" and "0 < rl_max_backoff cfg"
    and "rl_max_backoff cfg \<le> duration_max"
  shows "renew_turns X cfg h turns 0 = expected_turns X cfg h [] turns \<and>
    list_all (\<lambda>(sleep, log). sleep \<le> max (ih_renew_interval h) (rl_max_backoff cfg))
      (renew_turns X cfg h turns 0)"
  using renew_turns_expected [OF assms(3,4,5), of "[]" turns X h] assms(1,3,4)
  by (intro conjI renew_turns_sleep_le [OF _ _ assms(2)]) simp_all

definition trial_registry :: "bool \<Rightarrow> (string \<times> bool, string \<rightharpoonup> string) registry" where
  "trial_registry up =
     (let down = \<lparr>status_code = Unavailable, status_message = ''down'', status_metadata = Map.empty\<rparr>
      in \<lparr>rpc_register = \<lambda>_ _ _. if up then Ok ''lease-1'' else Err down,
          rpc_retrieve = \<lambda>_ _ _. if up then Ok None else Err down,
          rpc_renew = \<lambda>_ _ _. if up then Ok () else Err down,
          rpc_deregister = \<lambda>_ _ _. if up then Ok () else Err down,
          status_text = status_message\<rparr>)"

definition trial_instance :: DiscoveryInstanceConfig where
  "trial_instance =
     \<lparr>ic_discovery_endpoint = ''http://127.0.0.1:19090'', ic_namespace = ''sdkwork'',
      ic_environment = ''development'', ic_service_name = ''sdkwork-commerce-app-rpc'',
      ic_instance_id = ''commerce-1'', ic_advertised_endpoint = ''grpc://127.0.0.1:50051'',
      ic_protocol = ''grpc'', ic_version = ''0.1.0'', ic_region = ''local'', ic_zone = ''local'',
      ic_lease_ttl_seconds = 30, ic_subject_id = ''sdkwork-commerce-service-host'',
      ic_metadata = [''rpc_surface'' \<mapsto> ''app''], ic_revision_cas_on_register = True,
      ic_expected_revision = None\<rparr>"

definition trial_handle :: "(string \<times> bool) DiscoveryInstanceHandle" where
  "trial_handle =
     \<lparr>ih_client = (''http://127.0.0.1:19090'', False), ih_config = trial_instance,
      ih_lease_id = ''lease-1'', ih_renew_interval = renew_interval_of 30,
      ih_metadata_template = []\<rparr>"

theorem renewal_loop_witness:
  "renew_turns reference_externals renew_loop_config_default trial_handle
     [(\<lambda>b. b, trial_registry False), (\<lambda>b. b, trial_registry False), (\<lambda>b. b, trial_registry False),
      (\<lambda>b. b, trial_registry True), (\<lambda>b. b, trial_registry True)] 0 =
     [(from_secs 10, Warned 1), (from_secs 2, Warned 2), (from_secs 4, Critical 3),
      (from_secs 8, Recovered 3), (from_secs 10, Quiet)]"
  using renewal_loop [of "[(\<lambda>b. b, trial_registry False), (\<lambda>b. b, trial_registry False),
      (\<lambda>b. b, trial_registry False), (\<lambda>b. b, trial_registry True), (\<lambda>b. b, trial_registry True)]"
      renew_loop_config_default reference_externals trial_handle]
  by (simp add: draws_in_range_def renew_loop_config_default_def from_secs_def renew_once_def
      trial_registry_def trial_handle_def renew_interval_of_def turn_log_def turn_sleep_def
      trailing_failures_def duration_max_def Let_def del: renew_turns.simps)

end
