(* ===== verification/Load_Balance.thy ===== *)
theory Load_Balance
  imports Core_Vocabulary "HOL-Library.Multiset"
begin

text \<open>
  The endpoint snapshots of a name resolver with the static and the composite resolver
  (resolver.rs) and the load balancer over them (load_balance.rs). A resolver is the function that
  gives its answer for a service name. The cursor is a \<open>usize\<close>, the weight sums are \<open>u64\<close> as in
  the code. The locale \<open>cyclic_picker\<close> is the contract of an algorithm that walks around a wheel of
  endpoints; round robin and weighted picking are interpretations of it.
\<close>

section \<open>Resolvers\<close>

record ResolvedEndpoint =
  endpoint :: string
  weight :: u32
  healthy :: bool

type_synonym NameResolver = "string \<Rightarrow> RpcFrameworkError + ResolvedEndpoint list"

record StaticNameResolver =
  endpoints :: "ResolvedEndpoint list"

definition static_single :: "string \<Rightarrow> StaticNameResolver" where
  "static_single e = \<lparr>endpoints = [\<lparr>endpoint = e, weight = 100, healthy = True\<rparr>]\<rparr>"

definition static_resolve :: "StaticNameResolver \<Rightarrow> NameResolver" where
  "static_resolve r service_name = Ok (endpoints r)"

record CompositeNameResolver =
  primary :: NameResolver
  fallback :: StaticNameResolver

definition composite_resolve :: "CompositeNameResolver \<Rightarrow> NameResolver" where
  "composite_resolve r service_name =
     (case primary r service_name of
        Ok eps \<Rightarrow> if eps \<noteq> [] then Ok eps else static_resolve (fallback r) service_name
      | Err _ \<Rightarrow> static_resolve (fallback r) service_name)"

section \<open>Picking an endpoint\<close>

datatype LoadBalanceAlgorithm = PickFirst | RoundRobin | Weighted

record RoundRobinCursor =
  next_index :: usize

definition cursor_default :: RoundRobinCursor where
  "cursor_default = \<lparr>next_index = 0\<rparr>"

definition advance :: "RoundRobinCursor \<Rightarrow> RoundRobinCursor" where
  "advance cursor = cursor\<lparr>next_index := saturating_add (next_index cursor) 1\<rparr>"

definition first_of :: "'a list \<Rightarrow> 'a option" where
  "first_of xs = (case xs of [] \<Rightarrow> None | x # _ \<Rightarrow> Some x)"

definition last_of :: "'a list \<Rightarrow> 'a option" where
  "last_of xs = (if xs = [] then None else Some (last xs))"

definition effective_weight :: "ResolvedEndpoint \<Rightarrow> u64" where
  "effective_weight e = ucast (max (weight e) 1)"

text \<open>The loop of \<open>pick_weighted\<close>: the first endpoint at which the running sum exceeds the slot.\<close>

fun scan_weights :: "u64 \<Rightarrow> u64 \<Rightarrow> ResolvedEndpoint list \<Rightarrow> ResolvedEndpoint option" where
  "scan_weights slot accumulated [] = None"
| "scan_weights slot accumulated (e # es) =
     (let accumulated' = accumulated + effective_weight e
      in if slot < accumulated' then Some e else scan_weights slot accumulated' es)"

definition pick_weighted ::
  "ResolvedEndpoint list \<Rightarrow> RoundRobinCursor \<Rightarrow> ResolvedEndpoint option \<times> RoundRobinCursor" where
  "pick_weighted candidates cursor =
     (let total_weight = sum_list (map effective_weight candidates)
      in if total_weight = 0 then (first_of candidates, cursor)
         else let slot = next_index cursor mod total_weight
              in (case scan_weights slot 0 candidates of
                    Some e \<Rightarrow> Some e
                  | None \<Rightarrow> last_of candidates, advance cursor))"

definition candidates_of :: "ResolvedEndpoint list \<Rightarrow> ResolvedEndpoint list" where
  "candidates_of eps = (let healthy_ones = filter healthy eps
                        in if healthy_ones = [] then eps else healthy_ones)"

definition pick_endpoint ::
  "ResolvedEndpoint list \<Rightarrow> LoadBalanceAlgorithm \<Rightarrow> RoundRobinCursor
     \<Rightarrow> ResolvedEndpoint option \<times> RoundRobinCursor" where
  "pick_endpoint eps algorithm cursor =
     (if eps = [] then (None, cursor)
      else let candidates = candidates_of eps
           in case algorithm of
                PickFirst \<Rightarrow> (first_of candidates, cursor)
              | RoundRobin \<Rightarrow>
                  (let index = next_index cursor mod word_of_nat (length candidates)
                   in (Some (candidates ! unat index), advance cursor))
              | Weighted \<Rightarrow> pick_weighted candidates cursor)"

section \<open>Walking around a wheel\<close>

fun picks :: "('c \<Rightarrow> 'a option \<times> 'c) \<Rightarrow> nat \<Rightarrow> 'c \<Rightarrow> 'a option list" where
  "picks pick 0 c = []"
| "picks pick (Suc n) c = (let (e, c') = pick c in e # picks pick n c')"

lemma mset_rotate: "mset (rotate n xs) = mset xs"
  by (metis add.commute append_take_drop_id mset_append rotate_drop_take)

locale cyclic_picker =
  fixes pick :: "ResolvedEndpoint list \<Rightarrow> RoundRobinCursor
      \<Rightarrow> ResolvedEndpoint option \<times> RoundRobinCursor"
    and wheel :: "ResolvedEndpoint list \<Rightarrow> ResolvedEndpoint list"
    and ok :: "ResolvedEndpoint list \<Rightarrow> bool"
  assumes wheel_nonempty: "ok eps \<Longrightarrow> wheel eps \<noteq> []"
    and pick_wheel: "ok eps \<Longrightarrow>
      pick eps c = (Some (wheel eps ! (unat (next_index c) mod length (wheel eps))), advance c)"
begin

lemma picks_wheel:
  assumes "ok eps"
  shows "unat (next_index c) + n \<le> 2 ^ 64 \<Longrightarrow>
    picks (pick eps) n c =
      map (\<lambda>i. Some (wheel eps ! ((unat (next_index c) + i) mod length (wheel eps)))) [0..<n]"
proof (induction n arbitrary: c)
  case (Suc n)
  show ?case
  proof (cases n)
    case 0
    then show ?thesis by (simp add: pick_wheel [OF assms, of c])
  next
    case (Suc m)
    have next_c: "unat (next_index (advance c)) = Suc (unat (next_index c))"
      using Suc.prems Suc by (simp add: advance_def unat_saturating_add)
    then have "picks (pick eps) n (advance c) =
      map (\<lambda>i. Some (wheel eps ! ((Suc (unat (next_index c)) + i) mod length (wheel eps)))) [0..<n]"
      using Suc.IH [of "advance c"] Suc.prems by simp
    then show ?thesis
      by (simp add: pick_wheel [OF assms, of c] map_upt_Suc del: upt_Suc)
  qed
qed simp

lemma full_turn:
  assumes "ok eps" and "unat (next_index c) + length (wheel eps) \<le> 2 ^ 64"
  shows "picks (pick eps) (length (wheel eps)) c =
    map Some (rotate (unat (next_index c)) (wheel eps))"
  unfolding picks_wheel [OF assms]
  by (rule nth_equalityI) (simp_all add: nth_rotate)

lemma full_turn_counts:
  assumes "ok eps" and "unat (next_index c) + length (wheel eps) \<le> 2 ^ 64"
  shows "mset (picks (pick eps) (length (wheel eps)) c) = image_mset Some (mset (wheel eps))"
  by (simp add: full_turn [OF assms] mset_rotate)

end

section \<open>The two wheels\<close>

definition weight_of :: "ResolvedEndpoint \<Rightarrow> nat" where
  "weight_of e = max (unat (weight e)) 1"

definition weight_wheel :: "ResolvedEndpoint list \<Rightarrow> ResolvedEndpoint list" where
  "weight_wheel es = concat (map (\<lambda>e. replicate (weight_of e) e) es)"

lemma length_weight_wheel: "length (weight_wheel es) = sum_list (map weight_of es)"
  by (simp add: weight_wheel_def length_concat comp_def)

lemma weight_of_pos [simp]: "0 < weight_of e"
  by (simp add: weight_of_def)

lemma weight_of_less: "weight_of e < 2 ^ 32"
  using unat_less_range [of "weight e"] by (simp add: weight_of_def)

lemma unat_effective_weight: "unat (effective_weight e) = weight_of e"
proof -
  have "unat (max (weight e) 1) = weight_of e"
    by (simp add: unat_word_max weight_of_def)
  then show ?thesis
    using weight_of_less [of e]
    by (simp add: effective_weight_def unsigned_ucast_eq take_bit_nat_eq_self)
qed

lemma sum_weights_less: "length es < 2 ^ 32 \<Longrightarrow> sum_list (map weight_of es) < 2 ^ 64"
proof -
  have "sum_list (map weight_of es) \<le> length es * (2 ^ 32 - 1)"
  proof (induction es)
    case (Cons e es)
    then show ?case using weight_of_less [of e] by simp
  qed simp
  moreover assume "length es < 2 ^ 32"
  then have "length es * (2 ^ 32 - 1) < (2::nat) ^ 32 * 2 ^ 32" by simp
  ultimately show ?thesis by simp
qed

lemma unat_sum_weights:
  "sum_list (map weight_of es) < 2 ^ 64 \<Longrightarrow>
   unat (sum_list (map effective_weight es)) = sum_list (map weight_of es)"
proof (induction es)
  case (Cons e es)
  then show ?case by (simp add: unat_word_ariths(1) unat_effective_weight)
qed simp

lemma scan_weights_wheel:
  "unat acc + sum_list (map weight_of es) < 2 ^ 64 \<Longrightarrow> acc \<le> slot \<Longrightarrow>
   unat slot < unat acc + sum_list (map weight_of es) \<Longrightarrow>
   scan_weights slot acc es = Some (weight_wheel es ! (unat slot - unat acc))"
proof (induction es arbitrary: acc)
  case (Cons e es)
  let ?acc = "acc + effective_weight e"
  have acc: "unat ?acc = unat acc + weight_of e"
    using Cons.prems(1) by (simp add: unat_word_ariths(1) unat_effective_weight)
  show ?case
  proof (cases "slot < ?acc")
    case True
    then have "unat slot - unat acc < weight_of e"
      using acc Cons.prems(2) by (simp add: word_less_nat_alt word_le_nat_alt)
    then show ?thesis
      using True by (simp add: weight_wheel_def nth_append)
  next
    case False
    then have "?acc \<le> slot" by simp
    then have "scan_weights slot ?acc es = Some (weight_wheel es ! (unat slot - unat ?acc))"
      using Cons.prems acc by (intro Cons.IH) simp_all
    moreover have "\<not> unat slot - unat acc < weight_of e"
      using False acc by (simp add: word_less_nat_alt)
    ultimately show ?thesis
      using False acc by (simp add: weight_wheel_def nth_append)
  qed
qed (simp add: word_le_nat_alt)

lemma candidates_nonempty: "eps \<noteq> [] \<Longrightarrow> candidates_of eps \<noteq> []"
  by (simp add: candidates_of_def Let_def)

lemma candidates_subset: "set (candidates_of eps) \<subseteq> set eps"
  by (auto simp: candidates_of_def Let_def)

lemma length_candidates: "length (candidates_of eps) \<le> length eps"
  by (simp add: candidates_of_def Let_def)

definition round_robin_ok :: "ResolvedEndpoint list \<Rightarrow> bool" where
  "round_robin_ok eps \<longleftrightarrow> eps \<noteq> [] \<and> length eps < 2 ^ 64"

definition weighted_ok :: "ResolvedEndpoint list \<Rightarrow> bool" where
  "weighted_ok eps \<longleftrightarrow> eps \<noteq> [] \<and> length eps < 2 ^ 32"

interpretation round_robin: cyclic_picker "\<lambda>eps. pick_endpoint eps RoundRobin" candidates_of
  round_robin_ok
proof
  fix eps c
  assume ok: "round_robin_ok eps"
  then have "unat (word_of_nat (length (candidates_of eps)) :: usize) = length (candidates_of eps)"
    using length_candidates [of eps] by (intro unat_word_of_nat) (simp add: round_robin_ok_def)
  then show "pick_endpoint eps RoundRobin c =
      (Some (candidates_of eps ! (unat (next_index c) mod length (candidates_of eps))), advance c)"
    using ok by (simp add: pick_endpoint_def Let_def round_robin_ok_def unat_mod)
qed (simp add: candidates_nonempty round_robin_ok_def)

interpretation weighted: cyclic_picker "\<lambda>eps. pick_endpoint eps Weighted"
  "\<lambda>eps. weight_wheel (candidates_of eps)" weighted_ok
proof
  fix eps and c :: RoundRobinCursor
  assume ok: "weighted_ok eps"
  let ?cs = "candidates_of eps" and ?total = "sum_list (map effective_weight (candidates_of eps))"
  have bound: "sum_list (map weight_of ?cs) < 2 ^ 64"
    using ok length_candidates [of eps] by (intro sum_weights_less) (simp add: weighted_ok_def)
  note total = unat_sum_weights [OF bound]
  have pos: "0 < sum_list (map weight_of ?cs)"
    using candidates_nonempty [of eps] ok by (cases ?cs) (simp_all add: weighted_ok_def)
  then have "?total \<noteq> 0" using total by (metis less_numeral_extra(3) unat_0)
  moreover have "unat (next_index c mod ?total) = unat (next_index c) mod sum_list (map weight_of ?cs)"
    by (simp add: unat_mod total)
  then have "scan_weights (next_index c mod ?total) 0 ?cs =
      Some (weight_wheel ?cs ! (unat (next_index c) mod length (weight_wheel ?cs)))"
    using scan_weights_wheel [of 0 ?cs "next_index c mod ?total"] bound pos
    by (simp add: length_weight_wheel)
  ultimately show "pick_endpoint eps Weighted c =
      (Some (weight_wheel ?cs ! (unat (next_index c) mod length (weight_wheel ?cs))), advance c)"
    using ok by (simp add: pick_endpoint_def pick_weighted_def Let_def weighted_ok_def)
next
  fix eps
  assume "weighted_ok eps"
  then have "candidates_of eps \<noteq> []"
    by (simp add: candidates_nonempty weighted_ok_def)
  then have "0 < length (weight_wheel (candidates_of eps))"
    unfolding length_weight_wheel by (cases "candidates_of eps") simp_all
  then show "weight_wheel (candidates_of eps) \<noteq> []" by simp
qed

lemma picked_member:
  assumes "length eps < 2 ^ 32"
  shows "(case fst (pick_endpoint eps algorithm c) of
      None \<Rightarrow> eps = []
    | Some e \<Rightarrow> e \<in> set eps \<and> healthy e = list_ex healthy eps)"
proof (cases "eps = []")
  case False
  then have ne: "candidates_of eps \<noteq> []" by (rule candidates_nonempty)
  have in_cands: "e \<in> set eps \<and> healthy e = list_ex healthy eps" if "e \<in> set (candidates_of eps)" for e
    using that by (auto simp: candidates_of_def Let_def list_ex_iff filter_empty_conv split: if_splits)
  have "\<exists>e \<in> set (candidates_of eps). fst (pick_endpoint eps algorithm c) = Some e"
  proof (cases algorithm)
    case PickFirst
    with False ne show ?thesis
      by (auto simp: pick_endpoint_def Let_def first_of_def split: list.splits)
  next
    case RoundRobin
    with False ne assms show ?thesis
      by (auto simp: round_robin.pick_wheel round_robin_ok_def)
  next
    case Weighted
    let ?w = "weight_wheel (candidates_of eps)"
    have "?w \<noteq> []" using weighted.wheel_nonempty [of eps] False assms by (simp add: weighted_ok_def)
    then have "?w ! (unat (next_index c) mod length ?w) \<in> set ?w" by simp
    then have "?w ! (unat (next_index c) mod length ?w) \<in> set (candidates_of eps)"
      by (auto simp: weight_wheel_def)
    with Weighted False assms show ?thesis
      by (auto simp: weighted.pick_wheel weighted_ok_def)
  qed
  with in_cands show ?thesis by auto
qed (simp add: pick_endpoint_def)

section \<open>Properties\<close>

text \<open>C17. Weighted fairness: over one full turn of the wheel, from any cursor position that does not
  run into the saturated end, every endpoint is picked exactly as often as its weight says (a
  weight of zero counts as one), and no unhealthy endpoint is picked while a healthy one exists.\<close>
theorem weighted_turn_fair:
  assumes "eps \<noteq> []" and "length eps < 2 ^ 32"
    and "unat (next_index c) + sum_list (map weight_of (candidates_of eps)) \<le> 2 ^ 64"
  shows "mset (picks (pick_endpoint eps Weighted) (sum_list (map weight_of (candidates_of eps))) c) =
    image_mset Some (\<Sum>e \<in># mset (candidates_of eps). replicate_mset (weight_of e) e)"
proof -
  have "mset (weight_wheel es) = (\<Sum>e \<in># mset es. replicate_mset (weight_of e) e)" for es
    by (induction es) (simp_all add: weight_wheel_def)
  then show ?thesis
    using weighted.full_turn_counts [of eps c] assms
    by (simp add: weighted_ok_def length_weight_wheel)
qed

definition trial_endpoints :: "ResolvedEndpoint list" where
  "trial_endpoints =
     [\<lparr>endpoint = ''grpc://light:1'', weight = 1, healthy = True\<rparr>,
      \<lparr>endpoint = ''grpc://heavy:2'', weight = 3, healthy = True\<rparr>,
      \<lparr>endpoint = ''grpc://down:3'', weight = 5, healthy = False\<rparr>]"

lemma trial_candidates:
  "candidates_of trial_endpoints = [trial_endpoints ! 0, trial_endpoints ! 1]"
  "weight_of (trial_endpoints ! 0) = 1" "weight_of (trial_endpoints ! Suc 0) = 3"
  "length trial_endpoints = 3" "trial_endpoints \<noteq> []"
  by (simp_all add: trial_endpoints_def candidates_of_def weight_of_def)

theorem weighted_turn_fair_witness:
  "mset (picks (pick_endpoint trial_endpoints Weighted) 4 \<lparr>next_index = 2\<rparr>) =
     {# Some (trial_endpoints ! 0), Some (trial_endpoints ! 1), Some (trial_endpoints ! 1),
        Some (trial_endpoints ! 1) #}"
  using weighted_turn_fair [of trial_endpoints "\<lparr>next_index = 2\<rparr>"]
  by (simp add: trial_candidates) (simp add: trial_endpoints_def weight_of_def numeral_3_eq_3)

text \<open>Round robin: as many picks as there are candidates walk once around the snapshot, starting
  at the cursor, so each candidate is picked exactly once.\<close>
theorem round_robin_turn:
  assumes "eps \<noteq> []" and "unat (next_index c) + length (candidates_of eps) \<le> 2 ^ 64"
    and "length eps < 2 ^ 64"
  shows "picks (pick_endpoint eps RoundRobin) (length (candidates_of eps)) c =
    map Some (rotate (unat (next_index c)) (candidates_of eps))"
  using round_robin.full_turn [of eps c] assms by (simp add: round_robin_ok_def)

theorem round_robin_turn_witness:
  "picks (pick_endpoint trial_endpoints RoundRobin) (length (candidates_of trial_endpoints))
     \<lparr>next_index = 5\<rparr> =
     [Some (trial_endpoints ! 1), Some (trial_endpoints ! 0)]"
proof -
  have "rotate 5 [a, b] = [b, a]" for a b :: ResolvedEndpoint
    by (simp add: rotate_def numeral_eq_Suc)
  then show ?thesis
    using round_robin_turn [of trial_endpoints "\<lparr>next_index = 5\<rparr>"]
    by (simp add: trial_candidates del: picks.simps)
qed

end
