(* ===== verification/Discovery_Resolver.thy ===== *)
theory Discovery_Resolver
  imports Load_Balance Discovery_Metadata
begin

text \<open>
  \<open>discovery_resolver.rs\<close>: the resolver that asks the discovery control plane. Its state is the
  lazily connected channel. The answer of the control plane to a request on a channel is the
  argument \<open>rpc\<close>; a failed call is given by the text of its status. The locale
  \<open>healthy_resolver\<close> is what the load balancer gets from a resolver that never gives an unhealthy
  endpoint.
\<close>

section \<open>The resolver\<close>

record DiscoveryNameResolverConfig =
  dr_discovery_endpoint :: string
  dr_namespace :: string
  dr_environment :: string
  dr_subject_id :: string
  dr_healthy_only :: bool
  dr_protocol :: string

definition resolver_config_validate ::
  "sdkwork_utils \<Rightarrow> DiscoveryNameResolverConfig \<Rightarrow> RpcFrameworkError + unit" where
  "resolver_config_validate U c =
     and_then (map_err Validation
       (require_non_blank U (dr_discovery_endpoint c) ''discovery_endpoint'')) (\<lambda>_.
     and_then (map_err Validation (require_non_blank U (dr_namespace c) ''namespace'')) (\<lambda>_.
     and_then (map_err Validation (require_non_blank U (dr_environment c) ''environment'')) (\<lambda>_.
     and_then (map_err Validation (require_non_blank U (dr_subject_id c) ''subject_id'')) (\<lambda>_.
     and_then (map_err Validation (require_non_blank U (dr_protocol c) ''protocol'')) (\<lambda>_.
     Ok ())))))"

record 'ch DiscoveryNameResolver =
  dr_config :: DiscoveryNameResolverConfig
  dr_channel :: "'ch option"

definition discovery_resolver_new ::
  "sdkwork_utils \<Rightarrow> DiscoveryNameResolverConfig \<Rightarrow> RpcFrameworkError + 'ch DiscoveryNameResolver" where
  "discovery_resolver_new U config =
     and_then (resolver_config_validate U config) (\<lambda>_. Ok \<lparr>dr_config = config, dr_channel = None\<rparr>)"

definition get_or_init_channel ::
  "('ep, 'ch, 'tls, 'md, 'mv) externals \<Rightarrow> 'ch DiscoveryNameResolver
     \<Rightarrow> (RpcFrameworkError + 'ch) \<times> 'ch DiscoveryNameResolver" where
  "get_or_init_channel X r =
     (case dr_channel r of
        Some ch \<Rightarrow> (Ok ch, r)
      | None \<Rightarrow>
          (let target = normalize_http_endpoint (x_utils X) (dr_discovery_endpoint (dr_config r))
           in case map_err Transport (and_then (ep_from_shared (x_transport X) target)
                     (ep_connect (x_transport X))) of
                Ok ch \<Rightarrow> (Ok ch, r\<lparr>dr_channel := Some ch\<rparr>)
              | Err e \<Rightarrow> (Err e, r)))"

record DiscoverInstancesRequest =
  di_namespace :: string
  di_environment :: string
  di_service_name :: string
  di_healthy_only :: bool
  di_protocol :: string
  di_label_filters :: "string list"
  di_sort_by :: i32
  di_page :: "unit option"

definition serving_status :: "discovery_proto \<Rightarrow> i32 \<Rightarrow> bool" where
  "serving_status P st =
     (case instance_status P st of Some Serving \<Rightarrow> True | Some Degraded \<Rightarrow> True | _ \<Rightarrow> False)"

definition map_discovered_instance ::
  "sdkwork_utils \<Rightarrow> discovery_proto \<Rightarrow> ServiceInstance \<Rightarrow> ResolvedEndpoint option" where
  "map_discovered_instance U P inst =
     (if is_blank U (Some (si_endpoint inst)) then None
      else Some \<lparr>endpoint = si_endpoint inst, weight = max (si_weight inst) 1,
                 healthy = serving_status P (si_status inst)\<rparr>)"

definition discover_request ::
  "DiscoveryNameResolverConfig \<Rightarrow> string \<Rightarrow> DiscoverInstancesRequest" where
  "discover_request c service_name =
     \<lparr>di_namespace = dr_namespace c, di_environment = dr_environment c,
      di_service_name = service_name, di_healthy_only = dr_healthy_only c,
      di_protocol = dr_protocol c, di_label_filters = [], di_sort_by = 0, di_page = None\<rparr>"

definition discover_endpoints ::
  "('ep, 'ch, 'tls, 'md, 'mv) externals \<Rightarrow> fresh
     \<Rightarrow> ('ch \<Rightarrow> DiscoverInstancesRequest \<Rightarrow> 'md \<Rightarrow> string + ServiceInstance list)
     \<Rightarrow> 'ch DiscoveryNameResolver \<Rightarrow> string
     \<Rightarrow> (RpcFrameworkError + ResolvedEndpoint list) \<times> 'ch DiscoveryNameResolver" where
  "discover_endpoints X F rpc r service_name =
     (let (chan, r') = get_or_init_channel X r
      in (and_then chan (\<lambda>ch.
            let headers = apply_metadata_template (x_metadata X) (md_new (x_metadata X))
                  (unsigned_registry_read_metadata (x_keys X) F (dr_subject_id (dr_config r)))
            in and_then (map_err Discovery
                  (rpc ch (discover_request (dr_config r) service_name) headers)) (\<lambda>instances.
               let eps = filter healthy
                     (List.map_filter (map_discovered_instance (x_utils X) (x_proto X)) instances)
               in reject_if (eps = [])
                    (Discovery (''no healthy instances resolved for service '' @ service_name))
                    (Ok eps))), r'))"

definition discovery_resolve ::
  "('ep, 'ch, 'tls, 'md, 'mv) externals \<Rightarrow> fresh
     \<Rightarrow> ('ch \<Rightarrow> DiscoverInstancesRequest \<Rightarrow> 'md \<Rightarrow> string + ServiceInstance list)
     \<Rightarrow> 'ch DiscoveryNameResolver \<Rightarrow> string
     \<Rightarrow> (RpcFrameworkError + ResolvedEndpoint list) \<times> 'ch DiscoveryNameResolver" where
  "discovery_resolve X F rpc r service_name =
     (if is_blank (x_utils X) (Some service_name)
      then (Err (Validation ''service_name is required''), r)
      else discover_endpoints X F rpc r service_name)"

section \<open>A resolver that gives only healthy endpoints\<close>

locale healthy_resolver =
  fixes resolve :: "'s \<Rightarrow> string \<Rightarrow> (RpcFrameworkError + ResolvedEndpoint list) \<times> 's"
    and inv :: "'s \<Rightarrow> bool"
  assumes resolved_healthy:
    "inv s \<Longrightarrow> resolve s name = (Ok eps, s') \<Longrightarrow> eps \<noteq> [] \<and> list_all healthy eps"
    and resolve_keeps: "inv s \<Longrightarrow> resolve s name = (res, s') \<Longrightarrow> inv s'"
begin

lemma picked_healthy:
  assumes "inv s" and "resolve s name = (Ok eps, s')" and "length eps < 2 ^ 32"
  shows "\<exists>e. fst (pick_endpoint eps algorithm c) = Some e \<and> e \<in> set eps \<and> healthy e"
proof -
  have eps: "eps \<noteq> []" "list_all healthy eps"
    using resolved_healthy [OF assms(1,2)] by auto
  then show ?thesis
    using picked_member [OF assms(3), of algorithm c]
    by (auto simp: list_all_iff list_ex_iff split: option.splits)
qed

lemma fallback_unused:
  assumes "inv s" and "resolve s name = (Ok eps, s')"
  shows "composite_resolve \<lparr>primary = \<lambda>n. fst (resolve s n), fallback = fb\<rparr> name = Ok eps"
  using resolved_healthy [OF assms] by (simp add: composite_resolve_def assms(2))

end

lemma map_discovered_some:
  "map_discovered_instance U P inst = Some e \<longleftrightarrow>
     \<not> is_blank U (Some (si_endpoint inst)) \<and>
     e = \<lparr>endpoint = si_endpoint inst, weight = max (si_weight inst) 1,
          healthy = serving_status P (si_status inst)\<rparr>"
  by (auto simp: map_discovered_instance_def)

lemma discover_endpoints_ok:
  "discover_endpoints X F rpc r name = (Ok eps, r') \<Longrightarrow> eps \<noteq> [] \<and> list_all healthy eps"
  by (auto simp: discover_endpoints_def result_simps Let_def list_all_iff split: prod.splits)

interpretation discovery: healthy_resolver "discovery_resolve X F rpc" "\<lambda>_. True"
  by unfold_locales (auto simp: discovery_resolve_def dest: discover_endpoints_ok split: if_splits)

end
