(* ===== verification/Tls_Api.thy ===== *)
theory Tls_Api
  imports External_Api
begin

text \<open>
  What the TLS code of client and server calls outside the repository: \<open>Path::exists\<close> and
  \<open>std::fs::read\<close>, and tonic's builders of TLS settings. A path is its display text, an I/O error
  its message.
\<close>

record file_system =
  path_exists :: "string \<Rightarrow> bool"
  fs_read :: "string \<Rightarrow> string + bytes"

text \<open>\<open>Identity::from_pem\<close> and \<open>Certificate::from_pem\<close>.\<close>

record ('id, 'pem) tonic_pem =
  identity_from_pem :: "bytes \<Rightarrow> bytes \<Rightarrow> 'id"
  certificate_from_pem :: "bytes \<Rightarrow> 'pem"

text \<open>\<open>ServerTlsConfig\<close> and \<open>Server::tls_config\<close>.\<close>

record ('id, 'pem, 'stls, 'srv) tonic_server_tls =
  stls_new :: 'stls
  stls_identity :: "'id \<Rightarrow> 'stls \<Rightarrow> 'stls"
  stls_client_ca_root :: "'pem \<Rightarrow> 'stls \<Rightarrow> 'stls"
  stls_client_auth_optional :: "bool \<Rightarrow> 'stls \<Rightarrow> 'stls"
  srv_tls_config :: "'stls \<Rightarrow> 'srv \<Rightarrow> string + 'srv"

text \<open>\<open>ClientTlsConfig\<close>.\<close>

record ('id, 'pem, 'tls) tonic_client_tls =
  ctls_new :: 'tls
  ctls_domain_name :: "string \<Rightarrow> 'tls \<Rightarrow> 'tls"
  ctls_ca_certificate :: "'pem \<Rightarrow> 'tls \<Rightarrow> 'tls"
  ctls_with_webpki_roots :: "'tls \<Rightarrow> 'tls"
  ctls_identity :: "'id \<Rightarrow> 'tls \<Rightarrow> 'tls"

text \<open>Reading a file; the error names the purpose and the path.\<close>

definition read_file :: "file_system \<Rightarrow> (string \<Rightarrow> 'e) \<Rightarrow> string \<Rightarrow> string \<Rightarrow> 'e + bytes" where
  "read_file fs err what path =
     map_err (\<lambda>msg. err (''failed to read tls '' @ what @ '' '' @ path @ '': '' @ msg)) (fs_read fs path)"

lemma read_file_Ok_iff [result_simps]: "read_file fs err what path = Ok b \<longleftrightarrow> fs_read fs path = Ok b"
  by (simp add: read_file_def result_simps)

section \<open>Instances for the witnesses\<close>

text \<open>A directory as an association of paths with contents, and builders that record their calls.\<close>

definition files_of :: "(string \<times> bytes) list \<Rightarrow> file_system" where
  "files_of fs =
     \<lparr>path_exists = (\<lambda>p. map_of fs p \<noteq> None),
      fs_read = (\<lambda>p. case map_of fs p of None \<Rightarrow> Err ''No such file or directory'' | Some b \<Rightarrow> Ok b)\<rparr>"

datatype tls_call =
    TlsIdentity bytes bytes
  | TlsCaRoot bytes
  | TlsAuthOptional bool
  | TlsDomain string
  | TlsWebpkiRoots

definition reference_pem :: "(bytes \<times> bytes, bytes) tonic_pem" where
  "reference_pem = \<lparr>identity_from_pem = Pair, certificate_from_pem = (\<lambda>b. b)\<rparr>"

definition reference_server_tls ::
  "(bytes \<times> bytes, bytes, tls_call list, tls_call list) tonic_server_tls" where
  "reference_server_tls =
     \<lparr>stls_new = [], stls_identity = (\<lambda>(c, k) t. t @ [TlsIdentity c k]),
      stls_client_ca_root = (\<lambda>p t. t @ [TlsCaRoot p]),
      stls_client_auth_optional = (\<lambda>b t. t @ [TlsAuthOptional b]),
      srv_tls_config = (\<lambda>t s. Ok (s @ t))\<rparr>"

definition reference_client_tls :: "(bytes \<times> bytes, bytes, tls_call list) tonic_client_tls" where
  "reference_client_tls =
     \<lparr>ctls_new = [], ctls_domain_name = (\<lambda>d t. t @ [TlsDomain d]),
      ctls_ca_certificate = (\<lambda>p t. t @ [TlsCaRoot p]),
      ctls_with_webpki_roots = (\<lambda>t. t @ [TlsWebpkiRoots]),
      ctls_identity = (\<lambda>(c, k) t. t @ [TlsIdentity c k])\<rparr>"

end
