(* ===== verification/Client_Transport.thy ===== *)
theory Client_Transport
  imports Load_Balance Discovery_Metadata Tls_Api
begin

text \<open>
  \<open>tls.rs\<close>, \<open>transport.rs\<close> and the invocation context of \<open>lib.rs\<close> of crate \<open>sdkwork-rpc-client\<close>:
  the client's TLS settings, the URI of an endpoint, and connecting a channel to a resolved and
  picked endpoint. Cargo feature \<open>tls\<close> is the argument \<open>feature_tls\<close>.
\<close>

section \<open>Invocation context\<close>

record RpcInvocationContext =
  ctx_resolver_profile :: ResolverProfile
  ctx_resilience_profile :: ResilienceProfile
  ctx_default_deadline_ms :: u64

definition invocation_context_default :: RpcInvocationContext where
  "invocation_context_default =
     \<lparr>ctx_resolver_profile = Static, ctx_resilience_profile = RpcDefault,
      ctx_default_deadline_ms = 30000\<rparr>"

section \<open>TLS settings\<close>

record RpcTlsConfig =
  ct_server_ca_certificate_path :: "string option"
  ct_client_cert_path :: "string option"
  ct_client_key_path :: "string option"
  ct_domain :: "string option"

definition server_verified :: RpcTlsConfig where
  "server_verified =
     \<lparr>ct_server_ca_certificate_path = None, ct_client_cert_path = None, ct_client_key_path = None,
      ct_domain = None\<rparr>"

definition with_server_ca :: "RpcTlsConfig \<Rightarrow> string \<Rightarrow> RpcTlsConfig" where
  "with_server_ca c path = c\<lparr>ct_server_ca_certificate_path := Some path\<rparr>"

definition with_client_identity :: "RpcTlsConfig \<Rightarrow> string \<Rightarrow> string \<Rightarrow> RpcTlsConfig" where
  "with_client_identity c cert_path key_path =
     c\<lparr>ct_client_cert_path := Some cert_path, ct_client_key_path := Some key_path\<rparr>"

definition with_domain :: "RpcTlsConfig \<Rightarrow> string \<Rightarrow> RpcTlsConfig" where
  "with_domain c domain = c\<lparr>ct_domain := Some domain\<rparr>"

definition client_tls_validate :: "file_system \<Rightarrow> RpcTlsConfig \<Rightarrow> RpcFrameworkError + unit" where
  "client_tls_validate fs c =
     and_then (case ct_server_ca_certificate_path c of
         Some path \<Rightarrow>
           reject_if (\<not> path_exists fs path)
             (Configuration (''tls server_ca_certificate_path does not exist: '' @ path))
             (Ok ())
       | None \<Rightarrow> Ok ()) (\<lambda>_.
     case (ct_client_cert_path c, ct_client_key_path c) of
       (Some cert, Some key) \<Rightarrow>
         reject_if (\<not> path_exists fs cert)
           (Configuration (''tls client_cert_path does not exist: '' @ cert))
         (reject_if (\<not> path_exists fs key)
           (Configuration (''tls client_key_path does not exist: '' @ key))
         (Ok ()))
     | (Some cert, None) \<Rightarrow>
         Err (Configuration (''tls client_cert_path is set but client_key_path is missing; '' @
           ''both must be provided for mTLS (cert='' @ cert @ '')''))
     | (None, Some key) \<Rightarrow>
         Err (Configuration (''tls client_key_path is set but client_cert_path is missing; '' @
           ''both must be provided for mTLS (key='' @ key @ '')''))
     | (None, None) \<Rightarrow> Ok ())"

definition build_client_tls_config ::
  "file_system \<Rightarrow> ('id, 'pem) tonic_pem \<Rightarrow> ('id, 'pem, 'tls) tonic_client_tls \<Rightarrow> RpcTlsConfig
     \<Rightarrow> RpcFrameworkError + 'tls" where
  "build_client_tls_config fs P T config =
     and_then (client_tls_validate fs config) (\<lambda>_.
     let tls = ctls_new T;
         tls = (case ct_domain config of Some domain \<Rightarrow> ctls_domain_name T domain tls | None \<Rightarrow> tls)
     in and_then (case ct_server_ca_certificate_path config of
            Some ca_path \<Rightarrow>
              and_then (read_file fs Configuration ''ca certificate'' ca_path) (\<lambda>pem.
              Ok (ctls_ca_certificate T (certificate_from_pem P pem) tls))
          | None \<Rightarrow> Ok (ctls_with_webpki_roots T tls)) (\<lambda>tls.
        case (ct_client_cert_path config, ct_client_key_path config) of
          (Some cert_path, Some key_path) \<Rightarrow>
            and_then (read_file fs Configuration ''client cert'' cert_path) (\<lambda>cert_pem.
            and_then (read_file fs Configuration ''client key'' key_path) (\<lambda>key_pem.
            Ok (ctls_identity T (identity_from_pem P cert_pem key_pem) tls)))
        | _ \<Rightarrow> Ok tls))"

definition build_client_tls_config_no_tls :: "RpcTlsConfig \<Rightarrow> RpcFrameworkError + 'tls" where
  "build_client_tls_config_no_tls config =
     Err (Configuration (''tls config supplied but the `tls` cargo feature is not enabled; '' @
       ''enable `sdkwork-rpc-client/tls` for production TLS/mTLS''))"

section \<open>Channels\<close>

record GrpcChannelConfig =
  gc_connect_timeout :: duration
  gc_keepalive_interval :: duration
  gc_keepalive_timeout :: duration
  gc_keepalive_while_idle :: bool
  gc_tls :: "RpcTlsConfig option"

definition channel_config_default :: GrpcChannelConfig where
  "channel_config_default =
     \<lparr>gc_connect_timeout = from_secs 10, gc_keepalive_interval = from_secs 30,
      gc_keepalive_timeout = from_secs 10, gc_keepalive_while_idle = True, gc_tls = None\<rparr>"

definition tonic_endpoint_uri :: "sdkwork_utils \<Rightarrow> string \<Rightarrow> RpcFrameworkError + string" where
  "tonic_endpoint_uri U grpc_endpoint =
     (let trimmed = trim U grpc_endpoint
      in if is_blank U (Some trimmed) then Err (Validation ''grpc endpoint is required'')
         else case strip_prefix trimmed ''grpcs://'' of
                Some rest \<Rightarrow> Ok (''https://'' @ rest)
              | None \<Rightarrow>
                  (case strip_prefix trimmed ''grpc://'' of
                     Some rest \<Rightarrow> Ok (''http://'' @ rest)
                   | None \<Rightarrow>
                       if starts_with trimmed ''http://'' \<or> starts_with trimmed ''https://''
                       then Ok trimmed
                       else Ok (''http://'' @ trimmed)))"

text \<open>What a channel needs from outside: the libraries, the file system and the TLS builders.\<close>

record ('ep, 'ch, 'tls, 'id, 'pem) channel_env =
  ce_utils :: sdkwork_utils
  ce_transport :: "('ep, 'ch, 'tls) tonic_transport"
  ce_files :: file_system
  ce_pem :: "('id, 'pem) tonic_pem"
  ce_tls :: "('id, 'pem, 'tls) tonic_client_tls"
  feature_tls :: bool

definition client_tls_of ::
  "('ep, 'ch, 'tls, 'id, 'pem) channel_env \<Rightarrow> RpcTlsConfig \<Rightarrow> RpcFrameworkError + 'tls" where
  "client_tls_of E c =
     (if feature_tls E then build_client_tls_config (ce_files E) (ce_pem E) (ce_tls E) c
      else build_client_tls_config_no_tls c)"

definition connect_grpc_channel_with_config ::
  "('ep, 'ch, 'tls, 'id, 'pem) channel_env \<Rightarrow> string \<Rightarrow> GrpcChannelConfig
     \<Rightarrow> RpcFrameworkError + 'ch" where
  "connect_grpc_channel_with_config E target config =
     (let T = ce_transport E
      in and_then (tonic_endpoint_uri (ce_utils E) target) (\<lambda>uri.
         and_then (map_err Transport (ep_from_shared T uri)) (\<lambda>builder.
         let builder = ep_keep_alive_while_idle T (gc_keepalive_while_idle config)
               (ep_keep_alive_timeout T (gc_keepalive_timeout config)
                 (ep_keep_alive_interval T (gc_keepalive_interval config)
                   (ep_connect_timeout T (gc_connect_timeout config) builder)))
         in and_then (case gc_tls config of
                Some tls_config \<Rightarrow>
                  and_then (client_tls_of E tls_config) (\<lambda>client_tls.
                  map_err (\<lambda>error. Configuration (''tls config error: '' @ error))
                    (ep_tls_config T client_tls builder))
              | None \<Rightarrow> Ok builder) (\<lambda>builder.
            map_err Transport (ep_connect T builder)))))"

definition connect_grpc_channel ::
  "('ep, 'ch, 'tls, 'id, 'pem) channel_env \<Rightarrow> string \<Rightarrow> RpcFrameworkError + 'ch" where
  "connect_grpc_channel E target =
     connect_grpc_channel_with_config E target channel_config_default"

text \<open>The cursor is passed by reference: it is returned whatever the outcome.\<close>

definition resolve_and_connect ::
  "('ep, 'ch, 'tls, 'id, 'pem) channel_env \<Rightarrow> NameResolver \<Rightarrow> string \<Rightarrow> LoadBalanceAlgorithm
     \<Rightarrow> RoundRobinCursor \<Rightarrow> GrpcChannelConfig \<Rightarrow> (RpcFrameworkError + 'ch) \<times> RoundRobinCursor" where
  "resolve_and_connect E resolver service_name algorithm cursor config =
     (case resolver service_name of
        Err e \<Rightarrow> (Err e, cursor)
      | Ok eps \<Rightarrow>
          (case pick_endpoint eps algorithm cursor of
             (None, cursor') \<Rightarrow>
               (Err (Discovery (''no endpoints resolved for service '' @ service_name)), cursor')
           | (Some picked, cursor') \<Rightarrow>
               (connect_grpc_channel_with_config E (endpoint picked) config, cursor')))"

section \<open>Endpoint URIs\<close>

text \<open>An address that names no scheme and has no white space at its ends.\<close>

definition bare_address :: "string \<Rightarrow> bool" where
  "bare_address a \<longleftrightarrow> a \<noteq> [] \<and> str_trim a = a \<and> str_trim (''grpc://'' @ a) = ''grpc://'' @ a \<and>
     \<not> starts_with a ''grpc://'' \<and> \<not> starts_with a ''grpcs://''"

lemma tonic_endpoint_uri_cases:
  "tonic_endpoint_uri U e = Ok uri \<longleftrightarrow>
     \<not> is_blank U (Some (trim U e)) \<and>
     ((\<exists>rest. trim U e = ''grpcs://'' @ rest \<and> uri = ''https://'' @ rest) \<or>
      (\<exists>rest. trim U e = ''grpc://'' @ rest \<and> uri = ''http://'' @ rest) \<or>
      (uri = trim U e \<and> (starts_with uri ''http://'' \<or> starts_with uri ''https://'')) \<or>
      (uri = ''http://'' @ trim U e \<and>
       list_all (\<lambda>p. \<not> starts_with (trim U e) p) [''grpcs://'', ''grpc://'', ''http://'', ''https://'']))"
  by (auto simp: tonic_endpoint_uri_def Let_def strip_prefix_Some_iff strip_prefix_None_iff
      starts_with_def split: option.splits if_splits)

text \<open>C34. Endpoint schemes: an endpoint is refused exactly if it is blank; the URI it gives is an HTTP
  URI, and it is an \<open>https\<close> one exactly if the endpoint is written with \<open>grpcs\<close> or \<open>https\<close>, so no
  secure endpoint is turned into a plaintext one.\<close>
theorem endpoint_scheme_kept:
  "(case tonic_endpoint_uri U e of
      Err err \<Rightarrow> is_blank U (Some (trim U e)) \<and> err = Validation ''grpc endpoint is required''
    | Ok uri \<Rightarrow>
        \<not> is_blank U (Some (trim U e)) \<and>
        (starts_with uri ''https://'' \<longleftrightarrow>
           starts_with (trim U e) ''grpcs://'' \<or> starts_with (trim U e) ''https://'') \<and>
        (starts_with uri ''http://'' \<or> starts_with uri ''https://''))"
proof (cases "tonic_endpoint_uri U e")
  case (Inl err)
  then show ?thesis
    by (auto simp: tonic_endpoint_uri_def Let_def split: option.splits if_splits)
next
  case (Inr uri)
  then have "\<not> is_blank U (Some (trim U e))"
    and "starts_with uri ''http://'' \<or> starts_with uri ''https://''"
    and "starts_with uri ''https://'' \<longleftrightarrow>
      starts_with (trim U e) ''grpcs://'' \<or> starts_with (trim U e) ''https://''"
    by (auto simp: tonic_endpoint_uri_cases starts_with_iff)
  with Inr show ?thesis by simp
qed

text \<open>A server that advertises a bare bind address is reachable under it: the endpoint it registers
  gives the client the URI of exactly that address.\<close>
theorem advertised_endpoint_connects:
  assumes "blank_is_trimmed_empty U" and "trim_keeps_clean U" and "bare_address addr"
  shows "tonic_endpoint_uri U (normalize_grpc_endpoint U addr) = Ok (''http://'' @ addr)"
proof -
  have "trim U addr = addr" and "trim U (''grpc://'' @ addr) = ''grpc://'' @ addr"
    using assms(2,3) unfolding trim_keeps_clean_def bare_address_def by blast+
  moreover from this have "\<not> is_blank U (Some (''grpc://'' @ addr))"
    using assms(1) unfolding blank_is_trimmed_empty_def by simp
  ultimately show ?thesis
    using assms(3)
    by (simp add: normalize_grpc_endpoint_def bare_address_def tonic_endpoint_uri_def Let_def
        strip_prefix_def starts_with_def)
qed

theorem advertised_endpoint_connects_witness:
  "tonic_endpoint_uri reference_utils (normalize_grpc_endpoint reference_utils ''127.0.0.1:50051'') =
     Ok ''http://127.0.0.1:50051''"
proof -
  have "bare_address ''127.0.0.1:50051''" by code_simp
  from advertised_endpoint_connects [OF reference_trim this] show ?thesis by simp
qed

section \<open>TLS is never dropped\<close>

definition tls_pair_ok :: "RpcTlsConfig \<Rightarrow> bool" where
  "tls_pair_ok c \<longleftrightarrow> (ct_client_cert_path c = None \<longleftrightarrow> ct_client_key_path c = None)"

definition paths_of :: "RpcTlsConfig \<Rightarrow> string list" where
  "paths_of c = concat (map (case_option [] (\<lambda>p. [p]))
     [ct_server_ca_certificate_path c, ct_client_cert_path c, ct_client_key_path c])"

lemma client_tls_validate_Ok_iff:
  "client_tls_validate fs c = Ok u \<longleftrightarrow> tls_pair_ok c \<and> list_all (path_exists fs) (paths_of c)"
  by (auto simp: client_tls_validate_def result_simps tls_pair_ok_def paths_of_def
      split: option.splits)

text \<open>C24. With TLS settings on the channel configuration, a channel is only ever the result of
  connecting an endpoint to which the built TLS settings were applied: the certificate and key
  paths are given together, every named file exists, and the build has the TLS feature. Nothing
  connects in plaintext instead.\<close>
theorem tls_never_dropped:
  assumes "gc_tls config = Some tls"
    and "connect_grpc_channel_with_config E target config = Ok ch"
  shows "feature_tls E \<and> tls_pair_ok tls \<and> list_all (path_exists (ce_files E)) (paths_of tls) \<and>
    (\<exists>client_tls builder secured.
       build_client_tls_config (ce_files E) (ce_pem E) (ce_tls E) tls = Ok client_tls \<and>
       ep_tls_config (ce_transport E) client_tls builder = Ok secured \<and>
       ep_connect (ce_transport E) secured = Ok ch)"
proof -
  obtain client_tls builder secured where tls: "client_tls_of E tls = Ok client_tls"
    and "ep_tls_config (ce_transport E) client_tls builder = Ok secured"
    and "ep_connect (ce_transport E) secured = Ok ch"
    using assms by (auto simp: connect_grpc_channel_with_config_def result_simps Let_def)
  moreover from tls have "feature_tls E"
    and "build_client_tls_config (ce_files E) (ce_pem E) (ce_tls E) tls = Ok client_tls"
    by (auto simp: client_tls_of_def build_client_tls_config_no_tls_def split: if_splits)
  moreover from this(2) have "client_tls_validate (ce_files E) tls = Ok ()"
    by (auto simp: build_client_tls_config_def result_simps)
  ultimately show ?thesis by (auto simp: client_tls_validate_Ok_iff)
qed

definition trial_channel_env ::
  "(string \<times> bool, string \<times> bool, tls_call list, bytes \<times> bytes, bytes) channel_env" where
  "trial_channel_env =
     \<lparr>ce_utils = reference_utils,
      ce_transport =
        \<lparr>ep_from_shared = (\<lambda>uri. Ok (uri, False)), ep_connect_timeout = (\<lambda>_ e. e),
         ep_keep_alive_interval = (\<lambda>_ e. e), ep_keep_alive_timeout = (\<lambda>_ e. e),
         ep_keep_alive_while_idle = (\<lambda>_ e. e), ep_tls_config = (\<lambda>t e. Ok (fst e, t \<noteq> [])),
         ep_connect = Ok\<rparr>,
      ce_files = files_of [(''ca.crt'', ''CA''), (''tls.crt'', ''CRT''), (''tls.key'', ''KEY'')],
      ce_pem = reference_pem, ce_tls = reference_client_tls, feature_tls = True\<rparr>"

definition trial_client_tls :: RpcTlsConfig where
  "trial_client_tls =
     with_client_identity (with_server_ca server_verified ''ca.crt'') ''tls.crt'' ''tls.key''"

lemma trial_uris:
  "tonic_endpoint_uri reference_utils ''grpcs://rpc.internal:443'' = Ok ''https://rpc.internal:443''"
  "tonic_endpoint_uri reference_utils ''grpc://10.0.0.1:50051'' = Ok ''http://10.0.0.1:50051''"
  by code_simp+

lemmas trial_connect_simps =
  connect_grpc_channel_with_config_def trial_channel_env_def client_tls_of_def
  build_client_tls_config_def client_tls_validate_def trial_client_tls_def with_client_identity_def
  with_server_ca_def server_verified_def files_of_def read_file_def reference_client_tls_def
  reference_pem_def channel_config_default_def Let_def

theorem tls_never_dropped_witness:
  "connect_grpc_channel_with_config trial_channel_env ''grpcs://rpc.internal:443''
     (channel_config_default\<lparr>gc_tls := Some trial_client_tls\<rparr>) =
       Ok (''https://rpc.internal:443'', True) \<and>
   list_all (path_exists (ce_files trial_channel_env)) (paths_of trial_client_tls)"
proof -
  have "connect_grpc_channel_with_config trial_channel_env ''grpcs://rpc.internal:443''
     (channel_config_default\<lparr>gc_tls := Some trial_client_tls\<rparr>) =
       Ok (''https://rpc.internal:443'', True)"
    by (simp add: trial_connect_simps trial_uris)
  moreover from this have "list_all (path_exists (ce_files trial_channel_env)) (paths_of trial_client_tls)"
    using tls_never_dropped [of "channel_config_default\<lparr>gc_tls := Some trial_client_tls\<rparr>"
        trial_client_tls trial_channel_env "''grpcs://rpc.internal:443''"
        "(''https://rpc.internal:443'', True)"]
    by simp
  ultimately show ?thesis by simp
qed

section \<open>Resolving and connecting\<close>

text \<open>C33. A channel to a service: it is connected to an endpoint that the resolver returned for that
  service, a healthy one if there is any; if the resolver fails its error is returned and the
  cursor stays; an empty answer is a discovery error that names the service.\<close>
theorem resolve_and_connect_outcome:
  assumes "case resolver service_name of Ok eps \<Rightarrow> length eps < 2 ^ 32 | Err _ \<Rightarrow> True"
  shows "(case resolver service_name of
      Err e \<Rightarrow> resolve_and_connect E resolver service_name algorithm cursor config = (Err e, cursor)
    | Ok eps \<Rightarrow>
        if eps = []
        then resolve_and_connect E resolver service_name algorithm cursor config =
          (Err (Discovery (''no endpoints resolved for service '' @ service_name)), cursor)
        else \<exists>picked cursor'. pick_endpoint eps algorithm cursor = (Some picked, cursor') \<and>
          picked \<in> set eps \<and> healthy picked = list_ex healthy eps \<and>
          resolve_and_connect E resolver service_name algorithm cursor config =
            (connect_grpc_channel_with_config E (endpoint picked) config, cursor'))"
proof (cases "resolver service_name")
  case (Inr eps)
  obtain picked cursor' where pick: "pick_endpoint eps algorithm cursor = (picked, cursor')"
    by (cases "pick_endpoint eps algorithm cursor")
  have "eps = [] \<Longrightarrow> picked = None \<and> cursor' = cursor"
    using pick by (auto simp: pick_endpoint_def)
  moreover have "length eps < 2 ^ 32" using assms Inr by simp
  from picked_member [OF this, of algorithm cursor]
  have "case picked of None \<Rightarrow> eps = [] | Some e \<Rightarrow> e \<in> set eps \<and> healthy e = list_ex healthy eps"
    by (simp add: pick)
  ultimately show ?thesis
    using pick by (cases picked) (auto simp: Inr resolve_and_connect_def)
qed (simp add: resolve_and_connect_def)

theorem resolve_and_connect_outcome_witness:
  "fst (resolve_and_connect trial_channel_env (static_resolve (static_single ''grpc://10.0.0.1:50051''))
     ''svc'' RoundRobin cursor_default channel_config_default) = Ok (''http://10.0.0.1:50051'', False)"
proof -
  have "connect_grpc_channel_with_config trial_channel_env ''grpc://10.0.0.1:50051''
      channel_config_default = Ok (''http://10.0.0.1:50051'', False)"
    by (simp add: trial_connect_simps trial_uris)
  then show ?thesis
    using resolve_and_connect_outcome [of "static_resolve (static_single ''grpc://10.0.0.1:50051'')"
        "''svc''" trial_channel_env RoundRobin cursor_default channel_config_default]
    by (auto simp: static_resolve_def static_single_def)
qed

end
