(* ===== verification/Service_Discovery.thy ===== *)
theory Service_Discovery
  imports Discovery_Lifecycle Discovery_Resolver Client_Transport
begin

text \<open>
  The two sides of service discovery together: what a server registers (\<open>lifecycle.rs\<close>) is what a
  client resolves, picks and connects to (\<open>discovery_resolver.rs\<close>, \<open>load_balance.rs\<close>,
  \<open>transport.rs\<close>). Between them stands the control plane, of which two things are assumed.
\<close>

section \<open>What the control plane promises\<close>

text \<open>The status a server registers with is read back as serving.\<close>

definition serving_code :: "discovery_proto \<Rightarrow> bool" where
  "serving_code P \<longleftrightarrow> instance_status P (serving_as_i32 P) = Some Serving"

text \<open>While a registration is live, discovery answers, and a query for its namespace, environment,
  service and protocol lists an instance with the registered endpoint, status and weight.\<close>

definition lists_registered ::
  "RegisterInstanceRequest \<Rightarrow> ('ch \<Rightarrow> DiscoverInstancesRequest \<Rightarrow> 'md \<Rightarrow> string + ServiceInstance list) \<Rightarrow> bool" where
  "lists_registered reg rpc \<longleftrightarrow>
     (\<forall>ch req headers.
        di_namespace req = ri_namespace reg \<and> di_environment req = ri_environment reg \<and>
        di_service_name req = ri_service_name reg \<and> di_protocol req = ri_protocol reg \<longrightarrow>
        (\<exists>instances inst. rpc ch req headers = Ok instances \<and> inst \<in> set instances \<and>
           si_endpoint inst = ri_endpoint reg \<and> si_status inst = ri_status reg \<and>
           si_weight inst = ri_weight reg))"

section \<open>From the registration to the resolver's answer\<close>

definition registered_endpoint :: "DiscoveryInstanceConfig \<Rightarrow> ResolvedEndpoint" where
  "registered_endpoint c = \<lparr>endpoint = ic_advertised_endpoint c, weight = 100, healthy = True\<rparr>"

lemma mapped_registered:
  assumes "serving_code P" and "\<not> is_blank U (Some (ic_advertised_endpoint c))"
    and "si_endpoint inst = ic_advertised_endpoint c" and "si_status inst = serving_as_i32 P"
    and "si_weight inst = 100"
  shows "map_discovered_instance U P inst = Some (registered_endpoint c)"
  using assms
  by (simp add: map_discovered_instance_def serving_status_def serving_code_def registered_endpoint_def)

lemma register_Ok:
  assumes "register X F F' R c = Ok h"
  obtains ch where "connect X (ic_discovery_endpoint c) = Ok ch"
    and "\<not> is_blank (x_utils X) (Some (ic_advertised_endpoint c))"
    and "\<not> is_blank (x_utils X) (Some (ic_service_name c))"
  using assms
  by (auto simp: register_def result_simps instance_config_validate_iff instance_fields_def)

text \<open>A client looks for the service in the place where it was registered.\<close>

definition same_place :: "DiscoveryInstanceConfig \<Rightarrow> DiscoveryNameResolverConfig \<Rightarrow> bool" where
  "same_place c d \<longleftrightarrow>
     dr_discovery_endpoint d = ic_discovery_endpoint c \<and> dr_namespace d = ic_namespace c \<and>
     dr_environment d = ic_environment c \<and> dr_protocol d = ic_protocol c"

lemma same_channel:
  assumes "connect X (ic_discovery_endpoint c) = Ok ch" and "same_place c (dr_config r)"
    and "dr_channel r = None"
  shows "get_or_init_channel X r = (Ok ch, r\<lparr>dr_channel := Some ch\<rparr>)"
  using assms by (auto simp: connect_def get_or_init_channel_def same_place_def map_err_def Let_def
      split: sum.splits)

lemma registered_resolved:
  assumes reg: "register X F F' R c = Ok h" and P: "serving_code (x_proto X)"
    and plane: "lists_registered (register_request (x_proto X) c expected) rpc"
    and d: "discovery_resolver_new (x_utils X) d = Ok r" "same_place c d"
  obtains eps r' where "discovery_resolve X G rpc r (ic_service_name c) = (Ok eps, r')"
    and "registered_endpoint c \<in> set eps"
proof -
  obtain ch where ch: "connect X (ic_discovery_endpoint c) = Ok ch"
    and named: "\<not> is_blank (x_utils X) (Some (ic_advertised_endpoint c))"
      "\<not> is_blank (x_utils X) (Some (ic_service_name c))"
    using register_Ok [OF reg] .
  have r: "r = \<lparr>dr_config = d, dr_channel = None\<rparr>"
    using d(1) by (auto simp: discovery_resolver_new_def result_simps)
  have cfg: "dr_config r = d" by (simp add: r)
  have chan: "get_or_init_channel X r = (Ok ch, r\<lparr>dr_channel := Some ch\<rparr>)"
    using d(2) by (intro same_channel [OF ch]) (simp_all add: r)
  let ?headers = "apply_metadata_template (x_metadata X) (md_new (x_metadata X))
      (unsigned_registry_read_metadata (x_keys X) G (dr_subject_id d))"
  obtain instances inst where
      answer: "rpc ch (discover_request d (ic_service_name c)) ?headers = Ok instances"
    and inst: "inst \<in> set instances" "si_endpoint inst = ic_advertised_endpoint c"
      "si_status inst = serving_as_i32 (x_proto X)" "si_weight inst = 100"
    using plane [unfolded lists_registered_def, rule_format, of "discover_request d (ic_service_name c)"
        ch ?headers] d(2)
    by (auto simp: register_request_def discover_request_def same_place_def)
  let ?eps = "filter healthy
      (List.map_filter (map_discovered_instance (x_utils X) (x_proto X)) instances)"
  have "registered_endpoint c \<in> set ?eps"
    using mapped_registered [OF P named(1) inst(2-4)] inst(1)
    by (force simp: List.map_filter_def registered_endpoint_def)
  moreover from this have "discovery_resolve X G rpc r (ic_service_name c) =
      (Ok ?eps, r\<lparr>dr_channel := Some ch\<rparr>)"
    using named(2)
    by (auto simp: discovery_resolve_def discover_endpoints_def chan cfg answer reject_if_def Let_def
        filter_empty_conv)
  ultimately show thesis using that by blast
qed

lemma picked_in_turn:
  assumes "e \<in> set eps" and "list_all healthy eps" and "length eps < 2 ^ 63"
  shows "Some e \<in> set (picks (pick_endpoint eps RoundRobin) (length eps) cursor_default)"
proof -
  have "candidates_of eps = eps"
    using assms(1,2) by (auto simp: candidates_of_def list_all_iff filter_id_conv)
  moreover have "eps \<noteq> []" using assms(1) by auto
  ultimately have "picks (pick_endpoint eps RoundRobin) (length eps) cursor_default =
      map Some (rotate (unat (next_index cursor_default)) eps)"
    using round_robin_turn [of eps cursor_default] assms(3) by (simp add: cursor_default_def)
  then show ?thesis using assms(1) by simp
qed

section \<open>Property\<close>

text \<open>C3. Register, resolve, connect: when a server that binds a bare address has registered its
  advertised endpoint, a client configured for the same place resolves the service over a fresh
  resolver; the answer contains the instance, healthy and with the registered weight; within one
  round-robin turn the load balancer picks it; and the URI the client connects to for it is the
  server's own address.\<close>
theorem registered_service_reachable:
  assumes "blank_is_trimmed_empty (x_utils X)" and "trim_keeps_clean (x_utils X)"
    and "serving_code (x_proto X)"
    and "bare_address addr" and "ic_advertised_endpoint c = grpc_advertised_endpoint (x_utils X) addr"
    and "register X F F' R c = Ok h"
    and "lists_registered (register_request (x_proto X) c expected) rpc"
    and "discovery_resolver_new (x_utils X) d = Ok r" and "same_place c d"
  shows "\<exists>eps r' e. discovery_resolve X G rpc r (ic_service_name c) = (Ok eps, r') \<and>
    e \<in> set eps \<and> healthy e \<and> weight e = 100 \<and>
    (length eps < 2 ^ 63 \<longrightarrow>
       Some e \<in> set (picks (pick_endpoint eps RoundRobin) (length eps) cursor_default)) \<and>
    tonic_endpoint_uri (x_utils X) (endpoint e) = Ok (''http://'' @ addr)"
proof -
  obtain eps r' where res: "discovery_resolve X G rpc r (ic_service_name c) = (Ok eps, r')"
    and mem: "registered_endpoint c \<in> set eps"
    using registered_resolved [OF assms(6,3,7-9)] .
  have "list_all healthy eps" using discovery.resolved_healthy [OF TrueI res] by simp
  then have "length eps < 2 ^ 63 \<longrightarrow>
      Some (registered_endpoint c) \<in> set (picks (pick_endpoint eps RoundRobin) (length eps) cursor_default)"
    using picked_in_turn [OF mem] by blast
  moreover have "tonic_endpoint_uri (x_utils X) (endpoint (registered_endpoint c)) = Ok (''http://'' @ addr)"
    using advertised_endpoint_connects [OF assms(1,2,4)]
    by (simp add: registered_endpoint_def assms(5) grpc_advertised_endpoint_def)
  ultimately show ?thesis
    using res mem
    by (intro exI [of _ eps] exI [of _ r'] exI [of _ "registered_endpoint c"])
      (simp add: registered_endpoint_def)
qed

text \<open>The instance of the unit tests, a control plane that lists it and a client beside it.\<close>

definition trial_client :: DiscoveryNameResolverConfig where
  "trial_client =
     \<lparr>dr_discovery_endpoint = ''http://127.0.0.1:19090'', dr_namespace = ''sdkwork'',
      dr_environment = ''development'', dr_subject_id = ''client-1'', dr_healthy_only = True,
      dr_protocol = ''grpc''\<rparr>"

definition trial_listing :: "'ch \<Rightarrow> DiscoverInstancesRequest \<Rightarrow> 'md \<Rightarrow> string + ServiceInstance list" where
  "trial_listing ch req headers =
     Ok [\<lparr>si_endpoint = ''grpc://10.0.0.9:50051'', si_status = 3, si_weight = 7, si_revision = 1\<rparr>,
         \<lparr>si_endpoint = ''grpc://127.0.0.1:50051'', si_status = 2, si_weight = 100, si_revision = 4\<rparr>]"

definition trial_values :: fresh where
  "trial_values = \<lparr>fresh_uuid = ''67e55044-10b1-426f-9247-bb680e5fe0c8'',
     fresh_uuid_simple = ''67e5504410b1426f9247bb680e5fe0c8'', fresh_u64 = 0\<rparr>"

lemma trial_registered:
  obtains h where "register reference_externals trial_values trial_values (trial_registry True)
    trial_instance = Ok h"
proof -
  have "instance_config_validate reference_utils trial_instance = Ok ()" by code_simp
  moreover have "normalize_http_endpoint reference_utils ''http://127.0.0.1:19090'' =
      ''http://127.0.0.1:19090''" by code_simp
  moreover have "is_blank reference_utils (Some ''lease-1'') = False" by code_simp
  moreover have "ic_discovery_endpoint trial_instance = ''http://127.0.0.1:19090''"
    "ic_expected_revision trial_instance = None" "ic_revision_cas_on_register trial_instance"
    by (simp_all add: trial_instance_def)
  ultimately show thesis
    using that
    by (simp add: register_def connect_def resolve_expected_revision_def trial_registry_def
        reference_externals_def reference_transport_def Let_def)
qed

theorem registered_service_reachable_witness:
  "\<exists>eps r' e. discovery_resolve reference_externals trial_values trial_listing
      \<lparr>dr_config = trial_client, dr_channel = None\<rparr> ''sdkwork-commerce-app-rpc'' = (Ok eps, r') \<and>
     e \<in> set eps \<and> tonic_endpoint_uri reference_utils (endpoint e) = Ok ''http://127.0.0.1:50051''"
proof -
  obtain h where reg: "register reference_externals trial_values trial_values (trial_registry True)
      trial_instance = Ok h"
    using trial_registered .
  have bare: "bare_address ''127.0.0.1:50051''" by code_simp
  have adv: "ic_advertised_endpoint trial_instance =
      grpc_advertised_endpoint (x_utils reference_externals) ''127.0.0.1:50051''" by code_simp
  have code: "serving_code (x_proto reference_externals)" by code_simp
  have listed: "lists_registered (register_request (x_proto reference_externals) trial_instance None)
      trial_listing"
    by (simp add: lists_registered_def trial_listing_def register_request_def trial_instance_def
        reference_externals_def reference_proto_def conj_disj_distribR ex_disj_distrib)
  have client: "discovery_resolver_new (x_utils reference_externals) trial_client =
      Ok \<lparr>dr_config = trial_client, dr_channel = None\<rparr>"
  proof -
    have "resolver_config_validate reference_utils trial_client = Ok ()" by code_simp
    then show ?thesis by (simp add: discovery_resolver_new_def reference_externals_def)
  qed
  have place: "same_place trial_instance trial_client"
    by (simp add: same_place_def trial_instance_def trial_client_def)
  have utils: "x_utils reference_externals = reference_utils" by (simp add: reference_externals_def)
  have name: "ic_service_name trial_instance = ''sdkwork-commerce-app-rpc''"
    by (simp add: trial_instance_def)
  from registered_service_reachable [OF _ _ code bare adv reg listed client place, of trial_values]
  show ?thesis unfolding utils name using reference_trim by auto
qed

end
