(* ===== verification/Watching_Resolver.thy ===== *)
theory Watching_Resolver
  imports Discovery_Resolver Full_Jitter
begin

text \<open>
  \<open>watching_discovery_resolver.rs\<close>: the resolver with a cache that a watch stream keeps current.
  Handling one stream message, one session, one turn of the reconnect loop and one \<open>resolve\<close> are
  functions on the resolver's state; the readings of the clock, the messages of a stream and the
  answer of the control plane are arguments. The cache is guarded by a lock: a message is handled
  under it, but \<open>resolve\<close> gives it up while it asks the control plane. So asking and storing the
  answer are also steps of their own, between which messages and other resolves may come.
\<close>

section \<open>State\<close>

record WatchLoopConfig =
  initial_reconnect_backoff :: duration
  max_reconnect_backoff :: duration
  cache_ttl :: duration

definition watch_loop_config_default :: WatchLoopConfig where
  "watch_loop_config_default =
     \<lparr>initial_reconnect_backoff = from_millis 500, max_reconnect_backoff = from_secs 30,
      cache_ttl = from_secs 15\<rparr>"

record CachedEndpoints =
  ce_endpoints :: "ResolvedEndpoint list"
  updated_at :: instant

record 'ch WatchingDiscoveryNameResolver =
  wr_inner :: "'ch DiscoveryNameResolver"
  wr_cache :: "string \<rightharpoonup> CachedEndpoints"
  wr_last_revision :: u64
  wr_watch_config :: WatchLoopConfig

definition with_watch_config ::
  "sdkwork_utils \<Rightarrow> DiscoveryNameResolverConfig \<Rightarrow> WatchLoopConfig
     \<Rightarrow> RpcFrameworkError + 'ch WatchingDiscoveryNameResolver" where
  "with_watch_config U config watch_config =
     and_then (discovery_resolver_new U config) (\<lambda>inner.
       Ok \<lparr>wr_inner = inner, wr_cache = Map.empty, wr_last_revision = 0,
           wr_watch_config = watch_config\<rparr>)"

definition watching_resolver_new ::
  "sdkwork_utils \<Rightarrow> DiscoveryNameResolverConfig
     \<Rightarrow> RpcFrameworkError + 'ch WatchingDiscoveryNameResolver" where
  "watching_resolver_new U config = with_watch_config U config watch_loop_config_default"

section \<open>Messages of the watch stream\<close>

text \<open>
  Of a message the code reads the revision of its optional response metadata, the event type and
  the optional instance. \<open>wm_now\<close> is the clock at the time the message is handled.
\<close>

record WatchMessage =
  wm_revision :: "u64 option"
  wm_event_type :: i32
  wm_instance :: "ServiceInstance option"
  wm_now :: instant

fun upsert_endpoint :: "ResolvedEndpoint list \<Rightarrow> ResolvedEndpoint \<Rightarrow> ResolvedEndpoint list" where
  "upsert_endpoint [] e = [e]"
| "upsert_endpoint (x # xs) e =
     (if endpoint x = endpoint e then e # xs else x # upsert_endpoint xs e)"

definition observe_revision :: "u64 option \<Rightarrow> u64 \<Rightarrow> u64" where
  "observe_revision metadata prev =
     (case metadata of
        Some revision \<Rightarrow> if 0 < revision then max prev revision else prev
      | None \<Rightarrow> prev)"

definition event_of :: "discovery_proto \<Rightarrow> WatchMessage \<Rightarrow> WatchEventType" where
  "event_of P m =
     (case watch_event_type P (wm_event_type m) of Some t \<Rightarrow> t | None \<Rightarrow> EventUnspecified)"

text \<open>The handling of an instance event on the cache entry of the service.\<close>

definition cache_instance ::
  "sdkwork_utils \<Rightarrow> discovery_proto \<Rightarrow> WatchEventType \<Rightarrow> ServiceInstance \<Rightarrow> instant \<Rightarrow> string
     \<Rightarrow> (string \<rightharpoonup> CachedEndpoints) \<Rightarrow> (string \<rightharpoonup> CachedEndpoints)" where
  "cache_instance U P event inst now service_name cache =
     (let mapped = map_discovered_instance U P inst;
          entry = (case cache service_name of
                     Some c \<Rightarrow> c
                   | None \<Rightarrow> \<lparr>ce_endpoints = [], updated_at = now\<rparr>)
      in if event = InstanceDeregistered \<or> \<not> serving_status P (si_status inst)
         then let kept = filter (\<lambda>x. endpoint x \<noteq> si_endpoint inst) (ce_endpoints entry)
              in if kept = [] then cache(service_name := None)
                 else cache(service_name \<mapsto> entry\<lparr>ce_endpoints := kept\<rparr>)
         else case mapped of
                Some e \<Rightarrow> cache(service_name \<mapsto>
                  \<lparr>ce_endpoints = upsert_endpoint (ce_endpoints entry) e, updated_at = now\<rparr>)
              | None \<Rightarrow> cache(service_name \<mapsto> entry))"

definition refresh_entry ::
  "instant \<Rightarrow> string \<Rightarrow> (string \<rightharpoonup> CachedEndpoints) \<Rightarrow> (string \<rightharpoonup> CachedEndpoints)" where
  "refresh_entry now service_name cache =
     (case cache service_name of
        Some c \<Rightarrow> cache(service_name \<mapsto> c\<lparr>updated_at := now\<rparr>)
      | None \<Rightarrow> cache)"

definition handle_message ::
  "('ep, 'ch, 'tls, 'md, 'mv) externals \<Rightarrow> string \<Rightarrow> WatchMessage
     \<Rightarrow> 'ch WatchingDiscoveryNameResolver \<Rightarrow> 'ch WatchingDiscoveryNameResolver" where
  "handle_message X service_name m r =
     (let r = r\<lparr>wr_last_revision := observe_revision (wm_revision m) (wr_last_revision r)\<rparr>;
          event = event_of (x_proto X) m
      in if event = Heartbeat
         then r\<lparr>wr_cache := refresh_entry (wm_now m) service_name (wr_cache r)\<rparr>
         else case wm_instance m of
                None \<Rightarrow> r
              | Some inst \<Rightarrow>
                  r\<lparr>wr_cache := cache_instance (x_utils X) (x_proto X) event inst (wm_now m)
                                 service_name (wr_cache r)\<rparr>)"

section \<open>Sessions and the reconnect loop\<close>

record WatchServiceRequest =
  ws_namespace :: string
  ws_environment :: string
  ws_service_name :: string
  ws_from_revision :: u64

text \<open>A stream delivers messages and then ends, cleanly or with the text of an error.\<close>

type_synonym watch_stream = "WatchMessage list \<times> (string + unit)"

definition watch_request ::
  "DiscoveryNameResolverConfig \<Rightarrow> string \<Rightarrow> u64 \<Rightarrow> WatchServiceRequest" where
  "watch_request c service_name from_revision =
     \<lparr>ws_namespace = dr_namespace c, ws_environment = dr_environment c,
      ws_service_name = service_name, ws_from_revision = from_revision\<rparr>"

definition run_watch_session ::
  "('ep, 'ch, 'tls, 'md, 'mv) externals \<Rightarrow> fresh
     \<Rightarrow> ('ch \<Rightarrow> WatchServiceRequest \<Rightarrow> 'md \<Rightarrow> string + watch_stream)
     \<Rightarrow> string \<Rightarrow> 'ch WatchingDiscoveryNameResolver
     \<Rightarrow> (RpcFrameworkError + unit) \<times> 'ch WatchingDiscoveryNameResolver" where
  "run_watch_session X F watch service_name r =
     (let (chan, inner) = get_or_init_channel X (wr_inner r);
          r = r\<lparr>wr_inner := inner\<rparr>;
          config = dr_config (wr_inner r)
      in case chan of
           Err e \<Rightarrow> (Err e, r)
         | Ok ch \<Rightarrow>
             (let request = watch_request config service_name (wr_last_revision r);
                  headers = apply_metadata_template (x_metadata X) (md_new (x_metadata X))
                    (unsigned_registry_read_metadata (x_keys X) F (dr_subject_id config))
              in case watch ch request headers of
                   Err e \<Rightarrow> (Err (Transport e), r)
                 | Ok (messages, stream_end) \<Rightarrow>
                     (map_err Transport stream_end,
                      fold (handle_message X service_name) messages r)))"

definition reconnect_backoff :: "rng \<Rightarrow> u32 \<Rightarrow> duration \<Rightarrow> duration \<Rightarrow> duration" where
  "reconnect_backoff draw attempt initial max_backoff =
     (let base = duration_window attempt initial max_backoff
      in if base = 0 then initial
         else from_millis (draw (min (as_millis base) (2 ^ 64 - 1))))"

text \<open>One turn of \<open>run_reconnect_loop\<close> after its session: the next attempt number and the sleep.\<close>

definition after_session ::
  "rng \<Rightarrow> WatchLoopConfig \<Rightarrow> RpcFrameworkError + unit \<Rightarrow> u32 \<Rightarrow> u32 \<times> duration option" where
  "after_session draw cfg outcome attempt =
     (case outcome of
        Ok _ \<Rightarrow> (0, None)
      | Err _ \<Rightarrow> (saturating_add attempt 1,
                  Some (reconnect_backoff draw attempt (initial_reconnect_backoff cfg)
                          (max_reconnect_backoff cfg))))"

text \<open>The loop runs until its task is dropped; \<open>reconnect_turns\<close> runs it for a given list of turns,
  each with its fresh values, its generator and the service's answer, and lists the outcome of
  each session with the sleep after it.\<close>

fun reconnect_turns ::
  "('ep, 'ch, 'tls, 'md, 'mv) externals \<Rightarrow> string
     \<Rightarrow> (fresh \<times> rng \<times> ('ch \<Rightarrow> WatchServiceRequest \<Rightarrow> 'md \<Rightarrow> string + watch_stream)) list
     \<Rightarrow> u32 \<Rightarrow> 'ch WatchingDiscoveryNameResolver
     \<Rightarrow> ((RpcFrameworkError + unit) \<times> duration option) list \<times> 'ch WatchingDiscoveryNameResolver" where
  "reconnect_turns X service_name [] attempt r = ([], r)"
| "reconnect_turns X service_name ((F, draw, watch) # turns) attempt r =
     (let (outcome, r') = run_watch_session X F watch service_name r;
          (attempt', sleep) = after_session draw (wr_watch_config r') outcome attempt;
          (sleeps, r'') = reconnect_turns X service_name turns attempt' r'
      in ((outcome, sleep) # sleeps, r''))"

section \<open>Resolving\<close>

definition cached_endpoints ::
  "instant \<Rightarrow> 'ch WatchingDiscoveryNameResolver \<Rightarrow> string \<Rightarrow> ResolvedEndpoint list option" where
  "cached_endpoints now r service_name =
     (case wr_cache r service_name of
        None \<Rightarrow> None
      | Some cached \<Rightarrow>
          if ce_endpoints cached = [] then None
          else if cache_ttl (wr_watch_config r) < elapsed_since (updated_at cached) now then None
          else Some (ce_endpoints cached))"

definition store_answer ::
  "string \<Rightarrow> ResolvedEndpoint list \<Rightarrow> instant \<Rightarrow> 'ch WatchingDiscoveryNameResolver
     \<Rightarrow> 'ch WatchingDiscoveryNameResolver" where
  "store_answer service_name eps now r =
     r\<lparr>wr_cache := (wr_cache r)(service_name \<mapsto> \<lparr>ce_endpoints = eps, updated_at = now\<rparr>)\<rparr>"

text \<open>A resolve that nothing interrupts: \<open>now\<close> is the clock when the cache is read, \<open>now'\<close> when the
  fresh answer is stored.\<close>

definition watching_resolve ::
  "('ep, 'ch, 'tls, 'md, 'mv) externals \<Rightarrow> fresh
     \<Rightarrow> ('ch \<Rightarrow> DiscoverInstancesRequest \<Rightarrow> 'md \<Rightarrow> string + ServiceInstance list)
     \<Rightarrow> instant \<Rightarrow> instant \<Rightarrow> 'ch WatchingDiscoveryNameResolver \<Rightarrow> string
     \<Rightarrow> (RpcFrameworkError + ResolvedEndpoint list) \<times> 'ch WatchingDiscoveryNameResolver" where
  "watching_resolve X F rpc now now' r service_name =
     (case cached_endpoints now r service_name of
        Some eps \<Rightarrow> (Ok eps, r)
      | None \<Rightarrow>
          (let (res, inner) = discovery_resolve X F rpc (wr_inner r) service_name;
               r = r\<lparr>wr_inner := inner\<rparr>
           in case res of
                Err e \<Rightarrow> (Err e, r)
              | Ok eps \<Rightarrow> (Ok eps, store_answer service_name eps now' r)))"

section \<open>What the cache says of a service\<close>

text \<open>The abstract view: the weight of each endpoint that is known to serve. An instance event sets
  or clears one endpoint, everything else leaves the view alone.\<close>

definition weights_of :: "ResolvedEndpoint list \<Rightarrow> (string \<rightharpoonup> u32)" where
  "weights_of eps = map_of (map (\<lambda>e. (endpoint e, weight e)) eps)"

definition cache_view :: "'ch WatchingDiscoveryNameResolver \<Rightarrow> string \<Rightarrow> (string \<rightharpoonup> u32)" where
  "cache_view r service_name =
     (case wr_cache r service_name of None \<Rightarrow> Map.empty | Some c \<Rightarrow> weights_of (ce_endpoints c))"

definition view_message ::
  "('ep, 'ch, 'tls, 'md, 'mv) externals \<Rightarrow> WatchMessage \<Rightarrow> (string \<rightharpoonup> u32) \<Rightarrow> (string \<rightharpoonup> u32)" where
  "view_message X m v =
     (case wm_instance m of
        None \<Rightarrow> v
      | Some inst \<Rightarrow>
          if event_of (x_proto X) m = Heartbeat then v
          else if event_of (x_proto X) m = InstanceDeregistered \<or>
                  \<not> serving_status (x_proto X) (si_status inst)
          then v(si_endpoint inst := None)
          else if is_blank (x_utils X) (Some (si_endpoint inst)) then v
          else v(si_endpoint inst \<mapsto> max (si_weight inst) 1))"

lemma weights_of_simps [simp]:
  "weights_of [] = Map.empty"
  "weights_of (e # es) = (weights_of es)(endpoint e \<mapsto> weight e)"
  by (simp_all add: weights_of_def)

lemma weights_of_listed: "weights_of es k \<noteq> None \<longleftrightarrow> list_ex (\<lambda>e. endpoint e = k) es"
  by (induction es) auto

lemma weights_of_upsert:
  "weights_of (upsert_endpoint es e) = (weights_of es)(endpoint e \<mapsto> weight e)"
  by (induction es) (auto simp: fun_eq_iff)

lemma weights_of_retain:
  "weights_of (filter (\<lambda>x. endpoint x \<noteq> k) es) = (weights_of es)(k := None)"
  by (induction es) (auto simp: fun_eq_iff)

lemma weights_of_gone:
  "filter (\<lambda>x. endpoint x \<noteq> k) es = [] \<Longrightarrow> (weights_of es)(k := None) = Map.empty"
  using weights_of_retain [of k es] by simp

lemma handle_message_view:
  "cache_view (handle_message X s m r) s = view_message X m (cache_view r s)"
proof (cases "wm_instance m")
  case None
  then show ?thesis
    by (auto simp: handle_message_def view_message_def cache_view_def refresh_entry_def Let_def
        split: option.splits)
next
  case (Some inst)
  then show ?thesis
    by (cases "wr_cache r s")
      (auto simp: handle_message_def view_message_def cache_view_def refresh_entry_def
        cache_instance_def map_discovered_instance_def weights_of_upsert weights_of_retain
        weights_of_gone Let_def split: if_splits)
qed

lemma handle_message_other:
  "t \<noteq> s \<Longrightarrow> wr_cache (handle_message X s m r) t = wr_cache r t"
  by (auto simp: handle_message_def refresh_entry_def cache_instance_def Let_def
      split: option.splits)

lemma handle_message_revision:
  "wr_last_revision (handle_message X s m r) = observe_revision (wm_revision m) (wr_last_revision r)"
  by (auto simp: handle_message_def Let_def split: option.splits)

section \<open>Only healthy endpoints are cached\<close>

definition cache_ok :: "'ch WatchingDiscoveryNameResolver \<Rightarrow> bool" where
  "cache_ok r \<longleftrightarrow> (\<forall>s c. wr_cache r s = Some c \<longrightarrow> list_all healthy (ce_endpoints c))"

lemma upsert_all: "list_all P es \<Longrightarrow> P e \<Longrightarrow> list_all P (upsert_endpoint es e)"
  by (induction es) auto

lemma handle_message_ok: "cache_ok r \<Longrightarrow> cache_ok (handle_message X s m r)"
  unfolding cache_ok_def handle_message_def cache_instance_def refresh_entry_def
  by (auto simp: Let_def map_discovered_instance_def list_all_iff[of _ "filter _ _"]
      intro!: upsert_all split: option.splits if_splits)
    (auto simp: list_all_iff)

lemma fold_messages_ok: "cache_ok r \<Longrightarrow> cache_ok (fold (handle_message X s) ms r)"
  by (induction ms arbitrary: r) (simp_all add: handle_message_ok)

lemma run_watch_session_ok:
  "cache_ok r \<Longrightarrow> run_watch_session X F watch s r = (res, r') \<Longrightarrow> cache_ok r'"
  unfolding run_watch_session_def Let_def
  by (auto split: prod.splits sum.splits intro!: fold_messages_ok)
    (auto simp: cache_ok_def)

lemma watching_resolve_ok:
  assumes "cache_ok r" and "watching_resolve X F rpc now now' r s = (res, r')"
  shows "cache_ok r'" and "res = Ok eps \<Longrightarrow> eps \<noteq> [] \<and> list_all healthy eps"
  using assms
  by (auto simp: watching_resolve_def store_answer_def cached_endpoints_def cache_ok_def Let_def
      dest!: discovery.resolved_healthy [OF TrueI]
      split: option.splits prod.splits sum.splits if_splits)

interpretation watching: healthy_resolver "watching_resolve X F rpc now now'" cache_ok
  by unfold_locales (auto dest: watching_resolve_ok)

lemma store_answer_ok: "cache_ok r \<Longrightarrow> list_all healthy eps \<Longrightarrow> cache_ok (store_answer s eps now r)"
  by (auto simp: cache_ok_def store_answer_def)

text \<open>The states a resolver goes through: messages of any watched service, whole resolves and the two
  halves of a resolve, in any order; the answer stored may have been asked for in any state.\<close>

inductive watch_reachable ::
  "('ep, 'ch, 'tls, 'md, 'mv) externals \<Rightarrow> 'ch WatchingDiscoveryNameResolver \<Rightarrow> bool" for X where
  created: "with_watch_config (x_utils X) config watch_config = Ok r \<Longrightarrow> watch_reachable X r"
| message: "watch_reachable X r \<Longrightarrow> watch_reachable X (handle_message X s m r)"
| session: "watch_reachable X r \<Longrightarrow> run_watch_session X F watch s r = (res, r') \<Longrightarrow>
    watch_reachable X r'"
| resolved: "watch_reachable X r \<Longrightarrow> watching_resolve X F rpc now now' r s = (res', r') \<Longrightarrow>
    watch_reachable X r'"
| asked: "watch_reachable X r \<Longrightarrow> discovery_resolve X F rpc (wr_inner r) s = (answer, inner) \<Longrightarrow>
    watch_reachable X (r\<lparr>wr_inner := inner\<rparr>)"
| stored: "watch_reachable X r \<Longrightarrow> discovery_resolve X F rpc inner s = (Ok eps, inner') \<Longrightarrow>
    watch_reachable X (store_answer s eps now r)"

lemma watch_reachable_ok: "watch_reachable X r \<Longrightarrow> cache_ok r"
proof (induction rule: watch_reachable.induct)
  case (created config watch_config r)
  then show ?case by (auto simp: with_watch_config_def cache_ok_def result_simps)
next
  case (asked r F rpc s answer inner)
  then show ?case by (simp add: cache_ok_def)
next
  case (stored r F rpc inner s eps inner' now)
  then show ?case using discovery.resolved_healthy [OF TrueI] by (blast intro: store_answer_ok)
qed (blast intro: handle_message_ok run_watch_session_ok watching_resolve_ok(1))+

section \<open>The reconnect backoff\<close>

definition reconnect_jittered :: "duration \<times> duration \<Rightarrow> u32 \<Rightarrow> bool" where
  "reconnect_jittered p attempt \<longleftrightarrow> fst p \<noteq> 0 \<and> snd p \<noteq> 0"

interpretation reconnect_jitter: full_jitter
  "\<lambda>draw p attempt. as_millis (reconnect_backoff draw attempt (fst p) (snd p))"
  duration_window_millis "\<lambda>p. as_millis (snd p)" reconnect_jittered
  by unfold_locales
    (simp_all add: reconnect_jittered_def reconnect_backoff_def duration_window_zero Let_def
      duration_window_millis_mono duration_window_millis_cap,
      simp_all add: duration_window_millis_def)

section \<open>Properties\<close>

text \<open>C9. Cache refinement: whatever messages a watch stream of a service delivers, the cache says of
  that service what the messages say one by one: a serving instance sets its weight (at least
  one), a deregistration or non-serving instance clears it, heartbeats and messages without an
  instance change nothing; the entries of all other services stay as they are.\<close>
theorem cache_follows_stream:
  "cache_view (fold (handle_message X s) ms r) s = fold (view_message X) ms (cache_view r s) \<and>
   (wr_cache (fold (handle_message X s) ms r))(s := None) = (wr_cache r)(s := None)"
proof (induction ms arbitrary: r)
  case (Cons m ms)
  have "(wr_cache (handle_message X s m r))(s := None) = (wr_cache r)(s := None)"
    by (auto simp: fun_eq_iff handle_message_other)
  with Cons.IH [of "handle_message X s m r"] show ?case
    by (simp add: handle_message_view)
qed simp

text \<open>A resolver of the unit tests, for the examples, and a control plane with one instance.\<close>

definition trial_resolver_config :: DiscoveryNameResolverConfig where
  "trial_resolver_config =
     \<lparr>dr_discovery_endpoint = ''http://127.0.0.1:50051'', dr_namespace = ''sdkwork'',
      dr_environment = ''development'', dr_subject_id = ''watcher-1'', dr_healthy_only = True,
      dr_protocol = ''grpc''\<rparr>"

definition trial_fresh :: fresh where
  "trial_fresh = \<lparr>fresh_uuid = ''67e55044-10b1-426f-9247-bb680e5fe0c8'',
     fresh_uuid_simple = ''67e5504410b1426f9247bb680e5fe0c8'', fresh_u64 = 0\<rparr>"

definition trial_watcher :: "(string \<times> bool) WatchingDiscoveryNameResolver" where
  "trial_watcher =
     \<lparr>wr_inner = \<lparr>dr_config = trial_resolver_config, dr_channel = None\<rparr>, wr_cache = Map.empty,
      wr_last_revision = 0, wr_watch_config = watch_loop_config_default\<rparr>"

definition trial_plane :: "'ch \<Rightarrow> DiscoverInstancesRequest \<Rightarrow> 'md \<Rightarrow> string + ServiceInstance list" where
  "trial_plane ch req md =
     Ok [\<lparr>si_endpoint = ''grpc://a:1'', si_status = 2, si_weight = 7, si_revision = 4\<rparr>]"

definition trial_endpoint :: ResolvedEndpoint where
  "trial_endpoint = \<lparr>endpoint = ''grpc://a:1'', weight = 7, healthy = True\<rparr>"

lemma trial_watcher_new:
  "with_watch_config (x_utils reference_externals) trial_resolver_config watch_loop_config_default =
     Ok trial_watcher"
proof -
  have "resolver_config_validate reference_utils trial_resolver_config = Ok ()" by code_simp
  then show ?thesis
    by (simp add: with_watch_config_def discovery_resolver_new_def reference_externals_def
        trial_watcher_def)
qed

lemma trial_watcher_reachable: "watch_reachable reference_externals trial_watcher"
  by (rule watch_reachable.created [OF trial_watcher_new])

lemma trial_watcher_ttl: "cache_ttl (wr_watch_config trial_watcher) = from_secs 15"
  by (simp add: trial_watcher_def watch_loop_config_default_def)

lemma trial_watcher_backoff:
  "max_reconnect_backoff (wr_watch_config trial_watcher) = from_secs 30"
  "0 < initial_reconnect_backoff (wr_watch_config trial_watcher)" "0 < from_secs 30"
  by (simp_all add: trial_watcher_def watch_loop_config_default_def from_millis_def from_secs_def)

lemma trial_resolve:
  "watching_resolve reference_externals F trial_plane now now' trial_watcher ''svc'' =
     (Ok [trial_endpoint], trial_watcher
        \<lparr>wr_inner := \<lparr>dr_config = trial_resolver_config,
                       dr_channel = Some (''http://127.0.0.1:50051'', False)\<rparr>,
         wr_cache := [''svc'' \<mapsto> \<lparr>ce_endpoints = [trial_endpoint], updated_at = now'\<rparr>]\<rparr>)"
proof -
  have "is_blank reference_utils (Some ''svc'') = False" by code_simp
  moreover have "normalize_http_endpoint reference_utils ''http://127.0.0.1:50051'' =
      ''http://127.0.0.1:50051''" by code_simp
  moreover have "map_discovered_instance reference_utils reference_proto
      \<lparr>si_endpoint = ''grpc://a:1'', si_status = 2, si_weight = 7, si_revision = 4\<rparr> =
      Some trial_endpoint" by code_simp
  moreover have "healthy trial_endpoint" by (simp add: trial_endpoint_def)
  ultimately show ?thesis
    by (simp add: watching_resolve_def store_answer_def cached_endpoints_def trial_watcher_def
        discovery_resolve_def
        reference_externals_def discover_endpoints_def get_or_init_channel_def trial_plane_def
        trial_resolver_config_def reference_transport_def map_filter_simps Let_def)
qed

text \<open>C26. In every state a resolver can reach through watch sessions, single messages and resolves of
  any services, a successful resolve gives a non-empty list of healthy endpoints, so every
  balancing algorithm picks a healthy one and a static fallback is not consulted.\<close>
theorem watching_resolve_healthy:
  assumes "watch_reachable X r" and "watching_resolve X F rpc now now' r s = (Ok eps, r')"
    and "length eps < 2 ^ 32"
  shows "eps \<noteq> [] \<and> list_all healthy eps \<and>
    (\<exists>e. fst (pick_endpoint eps algorithm c) = Some e \<and> e \<in> set eps \<and> healthy e) \<and>
    composite_resolve \<lparr>primary = \<lambda>n. fst (watching_resolve X F rpc now now' r n), fallback = fb\<rparr> s =
      Ok eps"
  using watching.resolved_healthy [OF watch_reachable_ok [OF assms(1)] assms(2)]
    watching.picked_healthy [OF watch_reachable_ok [OF assms(1)] assms(2,3)]
    watching.fallback_unused [OF watch_reachable_ok [OF assms(1)] assms(2)]
  by blast

theorem watching_resolve_healthy_witness:
  "[trial_endpoint] \<noteq> [] \<and> list_all healthy [trial_endpoint] \<and>
   (\<exists>e. fst (pick_endpoint [trial_endpoint] Weighted cursor_default) = Some e \<and>
        e \<in> set [trial_endpoint] \<and> healthy e)"
  using watching_resolve_healthy [OF trial_watcher_reachable trial_resolve,
      where algorithm = Weighted and c = cursor_default]
  by simp

lemma handle_message_keeps [simp]:
  "wr_watch_config (handle_message X s m r) = wr_watch_config r"
  "wr_inner (handle_message X s m r) = wr_inner r"
  by (simp_all add: handle_message_def Let_def split: option.splits)

lemma other_messages_keep:
  assumes "list_all (\<lambda>(n, m). n \<noteq> s) others"
  shows "wr_cache (fold (\<lambda>(n, m). handle_message X n m) others r) s = wr_cache r s"
    and "wr_watch_config (fold (\<lambda>(n, m). handle_message X n m) others r) = wr_watch_config r"
    and "wr_inner (fold (\<lambda>(n, m). handle_message X n m) others r) = wr_inner r"
  using assms
  by (induction others arbitrary: r) (auto simp: handle_message_other)

text \<open>C27. How long an answer is kept: a resolve that missed the cache and got an answer from the control
  plane stores it. After any messages of watch streams of other services, a resolve of the same
  service gives the same endpoints and changes nothing, whatever the control plane would answer,
  up to and including the moment at which the stored entry is as old as the time to live; past
  that moment the control plane is asked, its outcome is the result, and an answer replaces the
  entry while an error leaves it.\<close>
theorem resolve_cached_until_ttl:
  assumes "cached_endpoints now r s = None"
    and "watching_resolve X F rpc now now' r s = (Ok eps, r1)"
    and "list_all (\<lambda>(n, m). n \<noteq> s) others"
    and "r' = fold (\<lambda>(n, m). handle_message X n m) others r1"
  shows "watching_resolve X F2 rpc2 t t' r' s =
    (if t \<le> now' + cache_ttl (wr_watch_config r) then (Ok eps, r')
     else map_prod id (\<lambda>inner. r'\<lparr>wr_inner := inner,
            wr_cache := (case fst (discovery_resolve X F2 rpc2 (wr_inner r') s) of
                Ok eps2 \<Rightarrow> (wr_cache r')(s \<mapsto> \<lparr>ce_endpoints = eps2, updated_at = t'\<rparr>)
              | Err _ \<Rightarrow> wr_cache r')\<rparr>)
            (discovery_resolve X F2 rpc2 (wr_inner r') s))"
proof -
  obtain inner where d: "discovery_resolve X F rpc (wr_inner r) s = (Ok eps, inner)"
    and r1: "r1 = r\<lparr>wr_inner := inner,
        wr_cache := (wr_cache r)(s \<mapsto> \<lparr>ce_endpoints = eps, updated_at = now'\<rparr>)\<rparr>"
    using assms(1,2)
    by (auto simp: watching_resolve_def store_answer_def Let_def split: prod.splits sum.splits)
  have "eps \<noteq> []" using discovery.resolved_healthy [OF TrueI d] by simp
  then have "cached_endpoints t r' s =
      (if t \<le> now' + cache_ttl (wr_watch_config r) then Some eps else None)"
    by (auto simp: cached_endpoints_def assms(4) other_messages_keep [OF assms(3)] r1
        elapsed_since_def)
  then show ?thesis
    by (auto simp: watching_resolve_def [of X F2 rpc2 t t' r' s] store_answer_def Let_def
        split: prod.splits sum.splits)
qed

definition other_message :: WatchMessage where
  "other_message = \<lparr>wm_revision = Some 9, wm_event_type = 5, wm_instance = None, wm_now = 2\<rparr>"

theorem resolve_cached_until_ttl_witness:
  "fst (watching_resolve reference_externals trial_fresh (\<lambda>_ _ _. Err ''down'') (from_secs 15) 0
     (handle_message reference_externals ''other'' other_message
       (snd (watching_resolve reference_externals trial_fresh trial_plane 0 1 trial_watcher ''svc'')))
     ''svc'') = Ok [trial_endpoint]"
proof -
  have "cached_endpoints 0 trial_watcher ''svc'' = None"
    by (simp add: cached_endpoints_def trial_watcher_def)
  from resolve_cached_until_ttl [OF this trial_resolve, of "[(''other'', other_message)]",
      where t = "from_secs 15"]
  show ?thesis
    using trial_resolve [of trial_fresh 0 1]
    by (simp add: trial_watcher_ttl)
qed

text \<open>The revision cursor never moves back, covers every revision a stream has reported and is
  itself the old cursor or one of those revisions.\<close>
theorem revision_cursor_max:
  "wr_last_revision (fold (handle_message X s) ms r) =
     Max (insert (wr_last_revision r) {v. Some v \<in> wm_revision ` set ms})"
proof (induction ms arbitrary: r)
  case (Cons m ms)
  let ?R = "{v. Some v \<in> wm_revision ` set ms}"
  have fin: "finite ?R"
  proof (rule finite_subset)
    show "?R \<subseteq> (the \<circ> wm_revision) ` set ms" by (auto simp: image_iff) (metis option.sel)
  qed simp
  show ?case
  proof (cases "wm_revision m")
    case None
    then have "{v. Some v \<in> wm_revision ` set (m # ms)} = ?R" by auto
    with None Cons.IH [of "handle_message X s m r"] show ?thesis
      by (simp add: handle_message_revision observe_revision_def)
  next
    case (Some v)
    then have eq: "{v. Some v \<in> wm_revision ` set (m # ms)} = insert v ?R" by auto
    have step: "wr_last_revision (handle_message X s m r) = max (wr_last_revision r) v"
      using Some
      by (auto simp: handle_message_revision observe_revision_def max_def word_gt_0)
    show ?thesis
      unfolding eq using Cons.IH [of "handle_message X s m r"] fin
      by (cases "?R = {}") (simp_all add: step max.assoc)
  qed
qed simp

lemma reconnect_backoff_le:
  assumes "draws_in_range draw" and "initial \<noteq> 0" and "max_backoff \<noteq> 0"
  shows "reconnect_backoff draw attempt initial max_backoff \<le> max_backoff"
  by (rule millis_delay_le [where n = "draw (duration_window_millis (initial, max_backoff) attempt)"])
    (use reconnect_jitter.delay_capped [of "(initial, max_backoff)" attempt draw] assms in
      \<open>simp_all add: reconnect_jittered_def reconnect_backoff_def duration_window_zero Let_def
        duration_window_millis_def\<close>)

lemma fold_messages_config [simp]:
  "wr_watch_config (fold (handle_message X s) ms r) = wr_watch_config r"
  by (induction ms arbitrary: r) simp_all

lemma session_keeps_config:
  "run_watch_session X F watch s r = (res, r') \<Longrightarrow> wr_watch_config r' = wr_watch_config r"
  by (auto simp: run_watch_session_def Let_def split: prod.splits sum.splits)

fun sleep_within :: "duration \<Rightarrow> (RpcFrameworkError + unit) \<times> duration option \<Rightarrow> bool" where
  "sleep_within bound (outcome, sleep) =
     (case sleep of None \<Rightarrow> is_ok outcome | Some d \<Rightarrow> \<not> is_ok outcome \<and> d \<le> bound)"

text \<open>Reconnecting: over any number of turns of the watch loop, a session that ended cleanly is
  followed by no sleep, and a failed one by a sleep within the configured maximum.\<close>
theorem reconnect_sleeps_bounded:
  assumes "list_all (\<lambda>(F, draw, watch). draws_in_range draw) turns"
    and "initial_reconnect_backoff (wr_watch_config r) \<noteq> 0"
    and "max_reconnect_backoff (wr_watch_config r) \<noteq> 0"
  shows "list_all (sleep_within (max_reconnect_backoff (wr_watch_config r)))
    (fst (reconnect_turns X s turns attempt r))"
  using assms
proof (induction turns arbitrary: attempt r)
  case (Cons turn turns)
  obtain F draw watch where turn: "turn = (F, draw, watch)" by (cases turn)
  obtain res r1 where run: "run_watch_session X F watch s r = (res, r1)" by fastforce
  obtain n sleep where after: "after_session draw (wr_watch_config r1) res attempt = (n, sleep)"
    by fastforce
  have same: "wr_watch_config r1 = wr_watch_config r"
    by (rule session_keeps_config [OF run])
  have sleep: "sleep_within (max_reconnect_backoff (wr_watch_config r)) (res, sleep)"
    using after Cons.prems turn same
    by (auto simp: after_session_def intro!: reconnect_backoff_le split: sum.splits)
  have "list_all (sleep_within (max_reconnect_backoff (wr_watch_config r)))
    (fst (reconnect_turns X s turns n r1))"
    using Cons.IH [of r1 n] Cons.prems turn same by simp
  with sleep show ?case
    by (cases "reconnect_turns X s turns n r1") (simp add: turn run after)
qed simp

section \<open>A late answer\<close>

text \<open>C37. A resolve that asked the control plane before a deregistration and stores the answer after it
  undoes the deregistration: the message removes the endpoint from the cache, the late answer puts
  it back, and every resolve within the cache TTL is answered with it although the stream said
  that the instance is gone.\<close>
theorem late_answer_undoes_deregistration:
  assumes "discovery_resolve X F rpc (wr_inner r) s = (Ok eps, inner)"
    and "wm_instance m = Some inst" and "event_of (x_proto X) m = InstanceDeregistered"
    and "list_ex (\<lambda>e. endpoint e = si_endpoint inst) eps"
    and "t \<le> now + cache_ttl (wr_watch_config r)"
  shows "cache_view (handle_message X s m r) s (si_endpoint inst) = None \<and>
    (\<exists>w. cache_view (store_answer s eps now (handle_message X s m r)) s (si_endpoint inst) = Some w) \<and>
    fst (watching_resolve X F' rpc' t t' (store_answer s eps now (handle_message X s m r)) s) = Ok eps"
proof (intro conjI)
  show "cache_view (handle_message X s m r) s (si_endpoint inst) = None"
    using assms(2,3) by (simp add: handle_message_view view_message_def)
  have "weights_of eps (si_endpoint inst) \<noteq> None"
    unfolding weights_of_listed by (rule assms(4))
  then show "\<exists>w. cache_view (store_answer s eps now (handle_message X s m r)) s (si_endpoint inst) =
      Some w"
    by (auto simp: cache_view_def store_answer_def)
  have "eps \<noteq> []" using discovery.resolved_healthy [OF TrueI assms(1)] by simp
  moreover have "wr_watch_config (handle_message X s m r) = wr_watch_config r"
    using fold_messages_config [of X s "[m]" r] by simp
  ultimately have "cached_endpoints t (store_answer s eps now (handle_message X s m r)) s = Some eps"
    using assms(5) by (simp add: cached_endpoints_def store_answer_def elapsed_since_def)
  then show "fst (watching_resolve X F' rpc' t t'
      (store_answer s eps now (handle_message X s m r)) s) = Ok eps"
    by (simp add: watching_resolve_def)
qed

definition trial_gone :: ServiceInstance where
  "trial_gone = \<lparr>si_endpoint = ''grpc://a:1'', si_status = 2, si_weight = 7, si_revision = 5\<rparr>"

definition trial_goodbye :: WatchMessage where
  "trial_goodbye =
     \<lparr>wm_revision = Some 5, wm_event_type = 3, wm_instance = Some trial_gone, wm_now = 2\<rparr>"

theorem late_answer_undoes_deregistration_witness:
  "fst (watching_resolve reference_externals trial_fresh (\<lambda>_ _ _. Err ''down'') 4 5
     (store_answer ''svc'' [trial_endpoint] 3
       (handle_message reference_externals ''svc'' trial_goodbye trial_watcher)) ''svc'') =
   Ok [trial_endpoint]"
proof -
  have "fst (discovery_resolve reference_externals trial_fresh trial_plane
      (wr_inner trial_watcher) ''svc'') = Ok [trial_endpoint]"
    using trial_resolve [of trial_fresh 0 1]
    by (auto simp: watching_resolve_def cached_endpoints_def trial_watcher_def Let_def
        split: prod.splits sum.splits)
  then obtain inner where asked: "discovery_resolve reference_externals trial_fresh trial_plane
      (wr_inner trial_watcher) ''svc'' = (Ok [trial_endpoint], inner)"
    by (metis prod.collapse)
  have m: "wm_instance trial_goodbye = Some trial_gone"
    and event: "event_of (x_proto reference_externals) trial_goodbye = InstanceDeregistered"
    and listed: "list_ex (\<lambda>e. endpoint e = si_endpoint trial_gone) [trial_endpoint]"
    and time: "4 \<le> 3 + cache_ttl (wr_watch_config trial_watcher)"
    by (simp_all add: trial_goodbye_def trial_gone_def event_of_def reference_externals_def
        reference_proto_def trial_endpoint_def trial_watcher_ttl from_secs_def)
  show ?thesis
    using late_answer_undoes_deregistration [OF asked m event listed time] by blast
qed

end
