(* ===== verification/Watch_Resume.thy ===== *)
theory Watch_Resume
  imports Watching_Resolver
begin

text \<open>
  The watch stream across reconnects. The control plane keeps a log of the mutations of each
  service, ordered by revision; a stream opened from a revision replays the later ones in order.
  The client keeps the largest revision it has seen and opens the next stream from there. The
  theory shows that the loop of one service applies every mutation exactly once over any number
  of broken sessions, and that loops of two services on one resolver do not, because the resolver
  has one revision for all of them.
\<close>

section \<open>Logs and streams\<close>

text \<open>A mutation is a message with a revision; its clock reading is that of the client that handles it.\<close>

definition revision_of :: "WatchMessage \<Rightarrow> u64" where
  "revision_of m = (case wm_revision m of Some v \<Rightarrow> v | None \<Rightarrow> 0)"

definition log_ok :: "('ep, 'ch, 'tls, 'md, 'mv) externals \<Rightarrow> WatchMessage list \<Rightarrow> bool" where
  "log_ok X log \<longleftrightarrow> sorted_wrt (<) (map revision_of log) \<and>
     list_all (\<lambda>m. 0 < revision_of m \<and> event_of (x_proto X) m \<noteq> Heartbeat) log"

definition pending :: "WatchMessage list \<Rightarrow> u64 \<Rightarrow> WatchMessage list" where
  "pending log v = filter (\<lambda>m. v < revision_of m) log"

definition seen :: "WatchMessage list \<Rightarrow> u64 \<Rightarrow> WatchMessage list" where
  "seen log v = filter (\<lambda>m. revision_of m \<le> v) log"

text \<open>
  The messages of a stream opened from revision \<open>v\<close>: mutations in the order of the log, from the
  first one after \<open>v\<close> on, with heartbeats between them that report no revision past a mutation
  still to come. The stream may break off anywhere.
\<close>

fun replays :: "('ep, 'ch, 'tls, 'md, 'mv) externals \<Rightarrow> WatchMessage list \<Rightarrow> u64 \<Rightarrow> WatchMessage list \<Rightarrow> bool" where
  "replays X log v [] = True"
| "replays X log v (m # ms) =
     (if event_of (x_proto X) m = Heartbeat
      then pending log (observe_revision (wm_revision m) v) = pending log v \<and>
           replays X log (observe_revision (wm_revision m) v) ms
      else case pending log v of
             [] \<Rightarrow> False
           | e # _ \<Rightarrow> m = e\<lparr>wm_now := wm_now m\<rparr> \<and> replays X log (revision_of e) ms)"

text \<open>What the control plane promises of its streams.\<close>

definition serves_logs ::
  "('ep, 'ch, 'tls, 'md, 'mv) externals \<Rightarrow> (string \<Rightarrow> WatchMessage list)
     \<Rightarrow> ('ch \<Rightarrow> WatchServiceRequest \<Rightarrow> 'md \<Rightarrow> string + watch_stream) \<Rightarrow> bool" where
  "serves_logs X logs watch \<longleftrightarrow>
     (\<forall>ch req headers ms stream_end. watch ch req headers = Ok (ms, stream_end) \<longrightarrow>
        replays X (logs (ws_service_name req)) (ws_from_revision req) ms)"

section \<open>One message\<close>

lemma event_of_now [simp]: "event_of P (m\<lparr>wm_now := t\<rparr>) = event_of P m"
  by (simp add: event_of_def)

lemma view_message_now [simp]: "view_message X (m\<lparr>wm_now := t\<rparr>) = view_message X m"
  by (rule ext) (simp add: view_message_def split: option.split)

lemma view_heartbeat: "event_of (x_proto X) m = Heartbeat \<Longrightarrow> view_message X m v = v"
  by (simp add: view_message_def split: option.split)

lemma seen_pending:
  assumes "pending log w = pending log v"
  shows "seen log w = seen log v"
proof -
  have "w < revision_of m \<longleftrightarrow> v < revision_of m" if "m \<in> set log" for m
    using arg_cong [OF assms, of set] that by (auto simp: pending_def set_eq_iff)
  then show ?thesis unfolding seen_def by (intro filter_cong) (auto simp: not_less [symmetric])
qed

lemma pending_first:
  assumes "sorted_wrt (<) (map revision_of log)" and "pending log v = e # es"
  shows "seen log (revision_of e) = seen log v @ [e] \<and> pending log (revision_of e) = es \<and>
    v < revision_of e \<and> e \<in> set log"
  using assms
proof (induction log)
  case (Cons m log)
  show ?case
  proof (cases "v < revision_of m")
    case True
    have later: "revision_of m < revision_of x" "v < revision_of x" if "x \<in> set log" for x
      using Cons.prems(1) True that by (auto intro: less_trans)
    then have "seen log (revision_of m) = []" "seen log v = []" "pending log (revision_of m) = log"
        "pending log v = log"
      by (auto simp: seen_def pending_def filter_empty_conv filter_id_conv not_le)
    with True Cons.prems(2) show ?thesis by (simp add: pending_def seen_def)
  next
    case False
    with Cons.prems have "seen log (revision_of e) = seen log v @ [e] \<and> pending log (revision_of e) = es \<and>
        v < revision_of e \<and> e \<in> set log"
      by (intro Cons.IH) (simp_all add: pending_def)
    with False show ?thesis by (auto simp: seen_def pending_def)
  qed
qed (simp add: pending_def)

text \<open>A control plane that replays the log meets the contract, also when its streams break off.\<close>

definition log_watch ::
  "(string \<Rightarrow> WatchMessage list) \<Rightarrow> nat \<Rightarrow> 'ch \<Rightarrow> WatchServiceRequest \<Rightarrow> 'md \<Rightarrow> string + watch_stream" where
  "log_watch logs n ch req headers =
     Ok (take n (pending (logs (ws_service_name req)) (ws_from_revision req)), Err ''stream reset'')"

lemma replays_take:
  assumes "log_ok X log"
  shows "replays X log v (take n (pending log v))"
proof (induction n arbitrary: v)
  case (Suc n)
  show ?case
  proof (cases "pending log v")
    case (Cons e es)
    have "pending log (revision_of e) = es" and "e \<in> set log"
      using pending_first [OF _ Cons] assms by (auto simp: log_ok_def)
    with Suc.IH [of "revision_of e"] Cons assms show ?thesis
      by (simp add: log_ok_def list_all_iff)
  qed simp
qed simp

lemma log_watch_serves: "(\<And>s. log_ok X (logs s)) \<Longrightarrow> serves_logs X logs (log_watch logs n)"
  by (auto simp: serves_logs_def log_watch_def replays_take)

section \<open>Sessions\<close>

text \<open>The view of the service is that of the mutations up to the cursor.\<close>

definition caught_up ::
  "('ep, 'ch, 'tls, 'md, 'mv) externals \<Rightarrow> WatchMessage list \<Rightarrow> string
     \<Rightarrow> 'ch WatchingDiscoveryNameResolver \<Rightarrow> bool" where
  "caught_up X log s r \<longleftrightarrow>
     cache_view r s = fold (view_message X) (seen log (wr_last_revision r)) Map.empty"

lemma replay_caught_up:
  assumes "log_ok X log"
  shows "replays X log (wr_last_revision r) ms \<Longrightarrow> caught_up X log s r \<Longrightarrow>
    caught_up X log s (fold (handle_message X s) ms r)"
proof (induction ms arbitrary: r)
  case (Cons m ms)
  let ?r = "handle_message X s m r"
  have "caught_up X log s ?r \<and> replays X log (wr_last_revision ?r) ms"
  proof (cases "event_of (x_proto X) m = Heartbeat")
    case True
    then have "pending log (wr_last_revision ?r) = pending log (wr_last_revision r)"
      using Cons.prems(1) by (simp add: handle_message_revision)
    from seen_pending [OF this] True Cons.prems show ?thesis
      by (simp add: caught_up_def handle_message_view handle_message_revision view_heartbeat)
  next
    case False
    then obtain e es where pend: "pending log (wr_last_revision r) = e # es"
      and m: "m = e\<lparr>wm_now := wm_now m\<rparr>" and rest: "replays X log (revision_of e) ms"
      using Cons.prems(1) by (auto split: list.splits)
    have split: "seen log (revision_of e) = seen log (wr_last_revision r) @ [e]"
      and later: "wr_last_revision r < revision_of e"
      using pending_first [OF _ pend] assms by (auto simp: log_ok_def)
    have "wm_revision m = wm_revision e" using arg_cong [OF m, of wm_revision] by simp
    moreover from later have "wm_revision e = Some (revision_of e)"
      by (auto simp: revision_of_def split: option.splits)
    moreover have "0 < revision_of e" using later by (rule le_less_trans [OF word_zero_le])
    ultimately have "wr_last_revision ?r = revision_of e"
      using later by (auto simp: handle_message_revision observe_revision_def max_def)
    moreover have "view_message X m = view_message X e" by (subst m) simp
    ultimately show ?thesis
      using Cons.prems(2) rest split by (simp add: caught_up_def handle_message_view)
  qed
  with Cons.IH show ?case by simp
qed simp

lemma run_watch_session_cases:
  assumes "run_watch_session X F watch s r = (res, r')"
  obtains (refused) inner where "r' = r\<lparr>wr_inner := inner\<rparr>"
  | (streamed) inner ch headers ms stream_end
    where "watch ch (watch_request (dr_config inner) s (wr_last_revision r)) headers = Ok (ms, stream_end)"
      and "r' = fold (handle_message X s) ms (r\<lparr>wr_inner := inner\<rparr>)"
  using assms by (auto simp: run_watch_session_def Let_def split: prod.splits sum.splits)

lemma session_caught_up:
  assumes "log_ok X (logs s)" and "serves_logs X logs watch" and "caught_up X (logs s) s r"
    and "run_watch_session X F watch s r = (res, r')"
  shows "caught_up X (logs s) s r'"
proof -
  have same: "caught_up X (logs s) s (r\<lparr>wr_inner := inner\<rparr>)" for inner
    using assms(3) by (simp add: caught_up_def cache_view_def)
  from assms(4) show ?thesis
  proof (cases rule: run_watch_session_cases)
    case (streamed inner ch headers ms stream_end)
    then have "replays X (logs s) (wr_last_revision (r\<lparr>wr_inner := inner\<rparr>)) ms"
      using assms(2) by (fastforce simp: serves_logs_def watch_request_def)
    then show ?thesis unfolding streamed(2) by (rule replay_caught_up [OF assms(1) _ same])
  qed (simp add: same)
qed

lemma turns_caught_up:
  assumes "log_ok X (logs s)"
  shows "list_all (\<lambda>(F, draw, watch). serves_logs X logs watch) turns \<Longrightarrow> caught_up X (logs s) s r \<Longrightarrow>
    caught_up X (logs s) s (snd (reconnect_turns X s turns attempt r))"
proof (induction turns arbitrary: attempt r)
  case (Cons turn turns)
  obtain F draw watch where turn: "turn = (F, draw, watch)" by (cases turn)
  obtain res r1 where run: "run_watch_session X F watch s r = (res, r1)" by fastforce
  have "caught_up X (logs s) s r1"
    using Cons.prems turn by (intro session_caught_up [where logs = logs, OF assms _ _ run]) simp_all
  with Cons.IH [of r1] Cons.prems(1) show ?case
    by (simp add: turn run case_prod_beta)
qed simp

section \<open>Two loops on one resolver\<close>

lemma replay_idle:
  "pending log (wr_last_revision r) = [] \<Longrightarrow> replays X log (wr_last_revision r) ms \<Longrightarrow>
     cache_view (fold (handle_message X s) ms r) s = cache_view r s \<and>
     pending log (wr_last_revision (fold (handle_message X s) ms r)) = []"
proof (induction ms arbitrary: r)
  case (Cons m ms)
  have beat: "event_of (x_proto X) m = Heartbeat" using Cons.prems by (auto split: if_splits)
  with Cons.prems have "pending log (wr_last_revision (handle_message X s m r)) = []"
    and "replays X log (wr_last_revision (handle_message X s m r)) ms"
    by (simp_all add: handle_message_revision)
  from Cons.IH [OF this] beat show ?case by (simp add: handle_message_view view_heartbeat)
qed simp

lemma session_idle:
  assumes "serves_logs X logs watch" and "pending (logs s) (wr_last_revision r) = []"
    and "run_watch_session X F watch s r = (res, r')"
  shows "cache_view r' s = cache_view r s \<and> pending (logs s) (wr_last_revision r') = []"
  using assms(3)
proof (cases rule: run_watch_session_cases)
  case (refused inner)
  with assms(2) show ?thesis by (simp add: cache_view_def)
next
  case (streamed inner ch headers ms stream_end)
  then have "replays X (logs s) (wr_last_revision (r\<lparr>wr_inner := inner\<rparr>)) ms"
    using assms(1) by (fastforce simp: serves_logs_def watch_request_def)
  from replay_idle [OF _ this] assms(2) show ?thesis
    unfolding streamed(2) by (simp add: cache_view_def)
qed

lemma turns_idle:
  "list_all (\<lambda>(F, draw, watch). serves_logs X logs watch) turns \<Longrightarrow>
     pending (logs s) (wr_last_revision r) = [] \<Longrightarrow>
     cache_view (snd (reconnect_turns X s turns attempt r)) s = cache_view r s \<and>
     pending (logs s) (wr_last_revision (snd (reconnect_turns X s turns attempt r))) = []"
proof (induction turns arbitrary: attempt r)
  case (Cons turn turns)
  obtain F draw watch where turn: "turn = (F, draw, watch)" by (cases turn)
  obtain res r1 where run: "run_watch_session X F watch s r = (res, r1)" by fastforce
  have "cache_view r1 s = cache_view r s \<and> pending (logs s) (wr_last_revision r1) = []"
    using Cons.prems turn by (intro session_idle [where logs = logs, OF _ _ run]) simp_all
  with Cons.IH [of r1] Cons.prems(1) show ?case by (simp add: turn run case_prod_beta)
qed simp

lemma fold_messages_other: "t \<noteq> s \<Longrightarrow> cache_view (fold (handle_message X s) ms r) t = cache_view r t"
  by (induction ms arbitrary: r) (simp_all add: cache_view_def handle_message_other)

lemma session_other:
  assumes "t \<noteq> s" and "run_watch_session X F watch s r = (res, r')"
  shows "cache_view r' t = cache_view r t"
  using assms(2)
  by (cases rule: run_watch_session_cases)
    (simp_all add: fold_messages_other [OF assms(1)], simp_all add: cache_view_def)

section \<open>Properties\<close>

text \<open>C10. Resuming: let the control plane replay the mutations of a service in revision order from the
  revision it is asked for. Then after any number of turns of the reconnect loop, of sessions that
  were refused, broke off or ended, what a fresh resolver's cache says of the service is what the
  mutations up to its cursor say, each applied once and in order; none is lost or repeated.\<close>
theorem resume_loses_nothing:
  assumes "log_ok X (logs s)" and "list_all (\<lambda>(F, draw, watch). serves_logs X logs watch) turns"
    and "with_watch_config (x_utils X) config watch_config = Ok r"
    and "reconnect_turns X s turns attempt r = (outcomes, r')"
  shows "cache_view r' s = fold (view_message X)
    (filter (\<lambda>m. revision_of m \<le> wr_last_revision r') (logs s)) Map.empty"
proof -
  have new: "wr_cache r = Map.empty" "wr_last_revision r = 0"
    using assms(3) by (auto simp: with_watch_config_def result_simps)
  have "seen (logs s) 0 = []"
    using assms(1) by (auto simp: seen_def log_ok_def list_all_iff filter_empty_conv)
  then have "caught_up X (logs s) s r" by (simp add: caught_up_def cache_view_def new)
  from turns_caught_up [where logs = logs, OF assms(1,2) this, of attempt] show ?thesis
    by (simp add: assms(4) caught_up_def seen_def)
qed

text \<open>The mutations of two services, with revisions of one counter.\<close>

definition trial_hello :: WatchMessage where
  "trial_hello = \<lparr>wm_revision = Some 4, wm_event_type = 1,
     wm_instance = Some (trial_gone\<lparr>si_revision := 4\<rparr>), wm_now = 0\<rparr>"

definition trial_other :: WatchMessage where
  "trial_other = \<lparr>wm_revision = Some 7, wm_event_type = 1,
     wm_instance = Some \<lparr>si_endpoint = ''grpc://b:1'', si_status = 2, si_weight = 1, si_revision = 7\<rparr>,
     wm_now = 0\<rparr>"

definition trial_logs :: "string \<Rightarrow> WatchMessage list" where
  "trial_logs s = (if s = ''billing'' then [trial_hello, trial_goodbye]
                   else if s = ''search'' then [trial_other] else [])"

lemma trial_events:
  "event_of (x_proto reference_externals) trial_hello = OtherEvent"
  "event_of (x_proto reference_externals) trial_goodbye = InstanceDeregistered"
  "event_of (x_proto reference_externals) trial_other = OtherEvent"
  by (simp_all add: trial_hello_def trial_goodbye_def trial_other_def event_of_def
      reference_externals_def reference_proto_def word_sle_eq)

lemma trial_revisions:
  "revision_of trial_hello = 4" "revision_of trial_goodbye = 5" "revision_of trial_other = 7"
  by (simp_all add: revision_of_def trial_hello_def trial_goodbye_def trial_other_def)

lemma trial_logs_ok: "log_ok reference_externals (trial_logs s)"
  by (simp add: log_ok_def trial_logs_def trial_events trial_revisions)

theorem resume_loses_nothing_witness:
  "case reconnect_turns reference_externals ''billing''
      [(trial_fresh, \<lambda>b. b, log_watch trial_logs 1), (trial_fresh, \<lambda>b. b, log_watch trial_logs 1)]
      0 trial_watcher of
     (outcomes, r) \<Rightarrow> cache_view r ''billing'' = fold (view_message reference_externals)
       (filter (\<lambda>m. revision_of m \<le> wr_last_revision r) [trial_hello, trial_goodbye]) Map.empty"
proof -
  let ?turns = "[(trial_fresh, \<lambda>b. b, log_watch trial_logs 1), (trial_fresh, \<lambda>b. b, log_watch trial_logs 1)]"
  obtain outs r where run: "reconnect_turns reference_externals ''billing'' ?turns 0 trial_watcher = (outs, r)"
    by fastforce
  have "list_all (\<lambda>(F, draw, watch). serves_logs reference_externals trial_logs watch) ?turns"
    by (simp add: log_watch_serves trial_logs_ok)
  from resume_loses_nothing [where logs = trial_logs, OF trial_logs_ok this trial_watcher_new run] show ?thesis
    by (simp only: run case_prod_conv) (simp add: trial_logs_def)
qed

text \<open>C11. One cursor for all services: let the loop of one service move the resolver's revision past
  mutations of another service that its own loop, until then up to date, has not received. Then no
  number of later sessions of that loop delivers them: what the cache says of the service never
  changes again through them, and stays wrong if the missed mutations matter.\<close>
theorem shared_cursor_loses_mutations:
  assumes "s \<noteq> t" and "run_watch_session X F watch s r = (res, r1)"
    and "list_all (\<lambda>m. revision_of m \<le> wr_last_revision r1) (logs t)"
    and "list_all (\<lambda>(F, draw, watch). serves_logs X logs watch) turns"
    and "fold (view_message X) (logs t) Map.empty \<noteq> cache_view r t"
    and "reconnect_turns X t turns attempt r1 = (outcomes, r2)"
  shows "cache_view r2 t = cache_view r t \<and>
    cache_view r2 t \<noteq> fold (view_message X)
      (filter (\<lambda>m. revision_of m \<le> wr_last_revision r2) (logs t)) Map.empty"
proof -
  have "pending (logs t) (wr_last_revision r1) = []"
    using assms(3) by (auto simp: pending_def list_all_iff filter_empty_conv not_less)
  from turns_idle [where logs = logs, OF assms(4) this, of attempt] assms(6)
  have view: "cache_view r2 t = cache_view r1 t" and "pending (logs t) (wr_last_revision r2) = []"
    by simp_all
  then have "filter (\<lambda>m. revision_of m \<le> wr_last_revision r2) (logs t) = logs t"
    by (auto simp: pending_def filter_empty_conv filter_id_conv not_less)
  moreover have "cache_view r1 t = cache_view r t"
    using assms(1) by (intro session_other [OF _ assms(2)]) simp
  ultimately show ?thesis using assms(5) view by simp
qed

definition trial_cached :: "(string \<times> bool) WatchingDiscoveryNameResolver" where
  "trial_cached = trial_watcher\<lparr>wr_last_revision := 4,
     wr_cache := [''billing'' \<mapsto> \<lparr>ce_endpoints = [trial_endpoint], updated_at = 0\<rparr>]\<rparr>"

lemma trial_search_session:
  "wr_last_revision (snd (run_watch_session reference_externals trial_fresh (log_watch trial_logs 9)
     ''search'' trial_cached)) = 7"
proof -
  have "normalize_http_endpoint reference_utils ''http://127.0.0.1:50051'' =
      ''http://127.0.0.1:50051''" by code_simp
  moreover have "pending (trial_logs ''search'') 4 = [trial_other]"
    by (simp add: pending_def trial_logs_def trial_revisions)
  moreover have "observe_revision (wm_revision trial_other) 4 = 7"
    by (simp add: observe_revision_def trial_other_def)
  ultimately show ?thesis
    by (simp add: run_watch_session_def get_or_init_channel_def trial_cached_def trial_watcher_def
        trial_resolver_config_def reference_externals_def reference_transport_def log_watch_def
        watch_request_def handle_message_revision Let_def)
qed

text \<open>The instance of \<open>billing\<close> deregistered at revision 5, the stream of \<open>search\<close> reported revision 7:
  the cache keeps the instance.\<close>

theorem shared_cursor_loses_mutations_witness:
  "cache_view (snd (reconnect_turns reference_externals ''billing''
      [(trial_fresh, \<lambda>b. b, log_watch trial_logs 9)] 0
      (snd (run_watch_session reference_externals trial_fresh (log_watch trial_logs 9) ''search''
         trial_cached)))) ''billing'' ''grpc://a:1'' = Some 7"
proof -
  let ?turns = "[(trial_fresh, \<lambda>b. b, log_watch trial_logs 9)]"
  obtain res r1 where run: "run_watch_session reference_externals trial_fresh (log_watch trial_logs 9)
      ''search'' trial_cached = (res, r1)" by fastforce
  obtain outs r2 where turns: "reconnect_turns reference_externals ''billing'' ?turns 0 r1 = (outs, r2)"
    by fastforce
  have cursor: "wr_last_revision r1 = 7" using trial_search_session by (simp add: run)
  have view: "cache_view trial_cached ''billing'' = [''grpc://a:1'' \<mapsto> 7]"
    by (simp add: cache_view_def trial_cached_def trial_endpoint_def)
  have "fold (view_message reference_externals) (trial_logs ''billing'') Map.empty ''grpc://a:1'' = None"
  proof -
    have "wm_instance trial_goodbye = Some trial_gone" and "si_endpoint trial_gone = ''grpc://a:1''"
      by (simp_all add: trial_goodbye_def trial_gone_def)
    then show ?thesis
      by (simp add: trial_logs_def view_message_def [of _ trial_goodbye] trial_events)
  qed
  then have differ: "fold (view_message reference_externals) (trial_logs ''billing'') Map.empty \<noteq>
      cache_view trial_cached ''billing''" using view by (auto dest: fun_cong)
  have "cache_view r2 ''billing'' = cache_view trial_cached ''billing''"
    using shared_cursor_loses_mutations [where logs = trial_logs, OF _ run _ _ differ turns] cursor
    by (simp add: trial_logs_ok log_watch_serves) (simp add: trial_logs_def trial_revisions)
  then show ?thesis by (simp add: run turns view del: reconnect_turns.simps)
qed

end
