(* ===== verification/Resilience.thy ===== *)
theory Resilience
  imports Core_Vocabulary Reference_Utils Full_Jitter
begin

text \<open>
  Crate \<open>sdkwork-rpc-resilience\<close> without its circuit breaker: the retry policies and the per-call
  budget (lib.rs), the Full Jitter backoff (backoff.rs), the idempotency admission
  (idempotency.rs) and the pushback-aware decision (pushback.rs). A \<open>&mut\<close> budget is passed in
  and returned. The generator \<open>rand::rng\<close> is the parameter \<open>draw\<close>, which gives a number for an
  inclusive upper bound; the metadata of a status is read through the parameter \<open>M\<close>. The backoff
  is an interpretation of the locale \<open>full_jitter\<close>; the locale \<open>retry_gate\<close> is the contract of the
  retry decisions.
\<close>

section \<open>Policies\<close>

definition MIN_RPC_DEADLINE_RESERVE_MS :: u64 where
  "MIN_RPC_DEADLINE_RESERVE_MS = 10"

text \<open>\<open>u64::try_from\<close> of the \<open>u128\<close> that \<open>Duration::as_millis\<close> gives.\<close>

definition u64_try_from :: "nat \<Rightarrow> u64 option" where
  "u64_try_from n = (if n < 2 ^ 64 then Some (word_of_nat n) else None)"

definition deadline_covers_backoff :: "u64 \<Rightarrow> duration \<Rightarrow> bool" where
  "deadline_covers_backoff backoff_ms rest =
     (let rpc_estimate_ms = max (backoff_ms div 2) MIN_RPC_DEADLINE_RESERVE_MS;
          required_ms = saturating_add backoff_ms rpc_estimate_ms
      in case u64_try_from (as_millis rest) of
           Some remaining_ms \<Rightarrow> required_ms \<le> remaining_ms
         | None \<Rightarrow> True)"

record RetryPolicy =
  max_attempts :: u32
  retry_budget :: u32
  initial_backoff_ms :: u64
  max_backoff_ms :: u64
  retryable_codes :: "Code list"

fun for_profile :: "ResilienceProfile \<Rightarrow> RetryPolicy" where
  "for_profile RpcReadOnly =
     \<lparr>max_attempts = 3, retry_budget = 32, initial_backoff_ms = 50, max_backoff_ms = 2000,
      retryable_codes = [Unavailable, ResourceExhausted]\<rparr>"
| "for_profile RpcIdempotentWrite =
     \<lparr>max_attempts = 2, retry_budget = 16, initial_backoff_ms = 100, max_backoff_ms = 2000,
      retryable_codes = [Unavailable]\<rparr>"
| "for_profile RpcCriticalWrite =
     \<lparr>max_attempts = 1, retry_budget = 4, initial_backoff_ms = 100, max_backoff_ms = 500,
      retryable_codes = []\<rparr>"
| "for_profile RpcStream =
     \<lparr>max_attempts = 1, retry_budget = 4, initial_backoff_ms = 100, max_backoff_ms = 500,
      retryable_codes = []\<rparr>"
| "for_profile RpcLocalDev =
     \<lparr>max_attempts = 5, retry_budget = 64, initial_backoff_ms = 25, max_backoff_ms = 1000,
      retryable_codes = [Unavailable, ResourceExhausted]\<rparr>"
| "for_profile RpcDefault =
     \<lparr>max_attempts = 3, retry_budget = 24, initial_backoff_ms = 50, max_backoff_ms = 2000,
      retryable_codes = [Unavailable]\<rparr>"

definition allows_retry :: "RetryPolicy \<Rightarrow> Code \<Rightarrow> u32 \<Rightarrow> bool" where
  "allows_retry policy code remaining_budget \<longleftrightarrow>
     0 < remaining_budget \<and> code \<in> set (retryable_codes policy)"

section \<open>The per-call budget\<close>

record RetryBudgetTracker =
  rbt_remaining :: u32

definition tracker_new :: "u32 \<Rightarrow> RetryBudgetTracker" where
  "tracker_new budget = \<lparr>rbt_remaining = budget\<rparr>"

definition consume :: "RetryBudgetTracker \<Rightarrow> bool \<times> RetryBudgetTracker" where
  "consume t = (if rbt_remaining t = 0 then (False, t)
                else (True, t\<lparr>rbt_remaining := rbt_remaining t - 1\<rparr>))"

definition remaining :: "RetryBudgetTracker \<Rightarrow> u32" where
  "remaining t = rbt_remaining t"

section \<open>Backoff\<close>

definition backoff_base :: "RetryPolicy \<Rightarrow> u32 \<Rightarrow> u64" where
  "backoff_base policy attempt =
     (let exponent = min (saturating_sub attempt 1) 16
      in min (saturating_mul (initial_backoff_ms policy) (push_bit (unat exponent) 1))
             (max_backoff_ms policy))"

definition retry_backoff_ms :: "rng \<Rightarrow> RetryPolicy \<Rightarrow> u32 \<Rightarrow> u64" where
  "retry_backoff_ms draw policy attempt =
     (if attempt = 0 then initial_backoff_ms policy
      else let base = backoff_base policy attempt
           in if base = 0 then initial_backoff_ms policy
              else word_of_nat (draw (unat base)))"

section \<open>Decisions\<close>

definition should_retry_with_deadline ::
  "rng \<Rightarrow> RetryPolicy \<Rightarrow> Code \<Rightarrow> u32 \<Rightarrow> RetryBudgetTracker \<Rightarrow> duration
     \<Rightarrow> bool \<times> RetryBudgetTracker" where
  "should_retry_with_deadline draw policy code attempt budget rest =
     (if max_attempts policy \<le> attempt then (False, budget)
      else if \<not> allows_retry policy code (remaining budget) then (False, budget)
      else let backoff_ms = retry_backoff_ms draw policy attempt
           in if \<not> deadline_covers_backoff backoff_ms rest then (False, budget)
              else let (consumed, budget') = consume budget
                   in if \<not> consumed then (False, budget') else (True, budget'))"

definition should_retry ::
  "rng \<Rightarrow> RetryPolicy \<Rightarrow> Code \<Rightarrow> u32 \<Rightarrow> RetryBudgetTracker \<Rightarrow> bool \<times> RetryBudgetTracker" where
  "should_retry draw policy code attempt budget =
     should_retry_with_deadline draw policy code attempt budget duration_max"

record RetryAdmission =
  method_requires_idempotency :: bool
  ra_has_idempotency_key :: bool

definition allows_retry_metadata :: "RetryAdmission \<Rightarrow> bool" where
  "allows_retry_metadata a =
     (if method_requires_idempotency a \<and> \<not> ra_has_idempotency_key a then False else True)"

definition should_retry_call_with_deadline ::
  "rng \<Rightarrow> RetryPolicy \<Rightarrow> Code \<Rightarrow> u32 \<Rightarrow> RetryBudgetTracker \<Rightarrow> RetryAdmission \<Rightarrow> duration
     \<Rightarrow> bool \<times> RetryBudgetTracker" where
  "should_retry_call_with_deadline draw policy code attempt budget admission rest =
     (if \<not> allows_retry_metadata admission then (False, budget)
      else should_retry_with_deadline draw policy code attempt budget rest)"

definition should_retry_call ::
  "rng \<Rightarrow> RetryPolicy \<Rightarrow> Code \<Rightarrow> u32 \<Rightarrow> RetryBudgetTracker \<Rightarrow> RetryAdmission
     \<Rightarrow> bool \<times> RetryBudgetTracker" where
  "should_retry_call draw policy code attempt budget admission =
     should_retry_call_with_deadline draw policy code attempt budget admission duration_max"

definition GRPC_RETRY_PUSHBACK_MS :: string where
  "GRPC_RETRY_PUSHBACK_MS = ''grpc-retry-pushback-ms''"

datatype RetryDecision = Stop | Retry u64

definition extract_retry_pushback_ms ::
  "('md, 'mv) tonic_metadata \<Rightarrow> 'md status \<Rightarrow> u64 option" where
  "extract_retry_pushback_ms M st =
     (case md_get M (status_metadata st) GRPC_RETRY_PUSHBACK_MS of
        None \<Rightarrow> None
      | Some value \<Rightarrow> (case mv_to_str M value of None \<Rightarrow> None | Some t \<Rightarrow> parse_u64 t))"

definition effective_retry_backoff_ms :: "rng \<Rightarrow> RetryPolicy \<Rightarrow> u32 \<Rightarrow> u64 option \<Rightarrow> u64" where
  "effective_retry_backoff_ms draw policy attempt pushback_ms =
     (case pushback_ms of
        Some ms \<Rightarrow> min ms (max_backoff_ms policy)
      | None \<Rightarrow> retry_backoff_ms draw policy attempt)"

definition should_retry_call_with_pushback ::
  "rng \<Rightarrow> ('md, 'mv) tonic_metadata \<Rightarrow> RetryPolicy \<Rightarrow> 'md status \<Rightarrow> u32 \<Rightarrow> RetryBudgetTracker
     \<Rightarrow> RetryAdmission \<Rightarrow> duration \<Rightarrow> RetryDecision \<times> RetryBudgetTracker" where
  "should_retry_call_with_pushback draw M policy st attempt budget admission rest =
     (if \<not> allows_retry_metadata admission then (Stop, budget)
      else if max_attempts policy \<le> attempt then (Stop, budget)
      else let code = status_code st;
               pushback_ms = (if code = ResourceExhausted then extract_retry_pushback_ms M st
                              else None);
               code_allowed = (if code = ResourceExhausted
                               then pushback_ms \<noteq> None \<and> code \<in> set (retryable_codes policy)
                               else code \<in> set (retryable_codes policy))
           in if \<not> code_allowed then (Stop, budget)
              else let backoff_ms = effective_retry_backoff_ms draw policy attempt pushback_ms
                   in if \<not> deadline_covers_backoff backoff_ms rest then (Stop, budget)
                      else let (consumed, budget') = consume budget
                           in if \<not> consumed then (Stop, budget')
                              else (Retry backoff_ms, budget'))"

section \<open>The deadline check\<close>

lemma u64_try_from_simps [sat_simps]:
  "n < 2 ^ 64 \<Longrightarrow> u64_try_from n = Some (word_of_nat n)"
  "\<not> n < 2 ^ 64 \<Longrightarrow> u64_try_from n = None"
  by (simp_all add: u64_try_from_def)

lemma deadline_covers_backoff_iff:
  "deadline_covers_backoff b rest \<longleftrightarrow>
     min (unat b + max (unat b div 2) 10) (2 ^ 64 - 1) \<le> as_millis rest"
proof -
  have half: "unat (b div 2) = unat b div 2"
    by (simp add: unat_div)
  show ?thesis
  proof (cases "as_millis rest < 2 ^ 64")
    case True
    then have "unat (word_of_nat (as_millis rest) :: u64) = as_millis rest"
      by (simp add: unat_word_of_nat)
    with True show ?thesis
      by (simp add: deadline_covers_backoff_def u64_try_from_def Let_def word_le_nat_alt
          unat_saturating_add unat_word_max half MIN_RPC_DEADLINE_RESERVE_MS_def)
  next
    case False
    then show ?thesis
      by (simp add: deadline_covers_backoff_def u64_try_from_def)
  qed
qed

lemma duration_max_covers [simp]: "deadline_covers_backoff b duration_max"
  by (simp add: deadline_covers_backoff_iff as_millis_def duration_max_def)

section \<open>The backoff meets its contract\<close>

definition retry_jittered :: "RetryPolicy \<Rightarrow> u32 \<Rightarrow> bool" where
  "retry_jittered policy attempt \<longleftrightarrow>
     attempt \<noteq> 0 \<and> initial_backoff_ms policy \<noteq> 0 \<and> max_backoff_ms policy \<noteq> 0"

lemma unat_backoff_base:
  "unat (backoff_base policy attempt) =
     min (unat (initial_backoff_ms policy) * 2 ^ min (unat attempt - 1) 16)
         (unat (max_backoff_ms policy))"
proof -
  have "unat (max_backoff_ms policy) \<le> 2 ^ 64 - 1"
    using unat_less_range [of "max_backoff_ms policy"] by simp
  then show ?thesis
    by (simp add: backoff_base_def Let_def unat_word_min unat_saturating_mul
        unat_saturating_sub unat_two_power min.assoc min.absorb2)
qed

lemma retry_backoff_drawn:
  assumes "retry_jittered policy attempt" and "draws_in_range draw"
  shows "unat (retry_backoff_ms draw policy attempt) = draw (unat (backoff_base policy attempt))"
proof -
  let ?b = "backoff_base policy attempt"
  have "0 < unat ?b"
    using assms(1) by (simp add: unat_backoff_base retry_jittered_def unat_gt_0)
  then have "?b \<noteq> 0" by auto
  moreover have "draw (unat ?b) < 2 ^ 64"
    using draws_in_rangeD [OF assms(2), of "unat ?b"] unat_less_range [of ?b] by simp
  ultimately show ?thesis
    using assms(1) by (simp add: retry_backoff_ms_def retry_jittered_def unat_word_of_nat)
qed

interpretation retry_jitter: full_jitter
  "\<lambda>draw policy attempt. unat (retry_backoff_ms draw policy attempt)"
  "\<lambda>policy attempt. unat (backoff_base policy attempt)"
  "\<lambda>policy. unat (max_backoff_ms policy)"
  retry_jittered
proof
  fix policy :: RetryPolicy and n m :: u32
  assume "n \<le> m"
  then have "(2::nat) ^ min (unat n - 1) 16 \<le> 2 ^ min (unat m - 1) 16"
    by (intro power_increasing) (auto simp: word_le_nat_alt)
  then show "unat (backoff_base policy n) \<le> unat (backoff_base policy m)"
    unfolding unat_backoff_base by (meson min.mono mult_le_mono2 order_refl)
qed (simp_all add: retry_backoff_drawn unat_backoff_base)

section \<open>The contract of a retry decision\<close>

text \<open>
  A decision grants a retry and spends one token, or refuses and leaves the budget alone.
  \<open>run_decisions\<close> threads one budget through a sequence of decisions, each with its own inputs.
\<close>

fun run_decisions :: "('i \<Rightarrow> 's \<Rightarrow> 'd \<times> 's) \<Rightarrow> 'i list \<Rightarrow> 's \<Rightarrow> 'd list \<times> 's" where
  "run_decisions decide [] t = ([], t)"
| "run_decisions decide (i # is) t =
     (let (d, t') = decide i t; (ds, t'') = run_decisions decide is t' in (d # ds, t''))"

locale retry_gate =
  fixes decide :: "'i \<Rightarrow> RetryBudgetTracker \<Rightarrow> 'd \<times> RetryBudgetTracker"
    and granted :: "'d \<Rightarrow> bool"
  assumes granted_spends: "decide i t = (d, t') \<Longrightarrow> granted d \<Longrightarrow>
      unat (remaining t) = Suc (unat (remaining t'))"
    and refused_keeps: "decide i t = (d, t') \<Longrightarrow> \<not> granted d \<Longrightarrow> t' = t"
begin

lemma budget_conserved:
  "run_decisions decide is t = (ds, t') \<Longrightarrow>
     length (filter granted ds) + unat (remaining t') = unat (remaining t)"
proof (induction "is" arbitrary: t ds)
  case (Cons i "is")
  obtain d t1 where d: "decide i t = (d, t1)" by fastforce
  obtain ds' where run: "run_decisions decide is t1 = (ds', t')" and ds: "ds = d # ds'"
    using Cons.prems d by (auto split: prod.splits)
  show ?case
    using Cons.IH [OF run] granted_spends [OF d] refused_keeps [OF d]
    by (cases "granted d") (simp_all add: ds)
qed simp

lemma grants_bounded:
  "run_decisions decide is t = (ds, t') \<Longrightarrow> length (filter granted ds) \<le> unat (remaining t)"
  using budget_conserved by fastforce

lemma empty_budget_refuses:
  "remaining t = 0 \<Longrightarrow> run_decisions decide is t = (ds, t') \<Longrightarrow> list_all (\<lambda>d. \<not> granted d) ds"
  using budget_conserved [of "is" t ds t'] by (simp add: filter_empty_conv list_all_iff)

end

lemma consume_spends:
  "remaining t \<noteq> 0 \<Longrightarrow> unat (remaining t) = Suc (unat (remaining (snd (consume t))))"
  by (auto simp: consume_def remaining_def unat_minus_one unat_gt_0)

text \<open>When each of the two decisions grants a retry.\<close>

lemma should_retry_with_deadline_eq:
  "should_retry_with_deadline draw policy code attempt budget rest =
     (if attempt < max_attempts policy \<and> code \<in> set (retryable_codes policy) \<and>
         remaining budget \<noteq> 0 \<and>
         deadline_covers_backoff (retry_backoff_ms draw policy attempt) rest
      then (True, snd (consume budget)) else (False, budget))"
  by (auto simp: should_retry_with_deadline_def allows_retry_def Let_def consume_def remaining_def
      word_gt_0 not_le)

definition pushback_backoff ::
  "rng \<Rightarrow> ('md, 'mv) tonic_metadata \<Rightarrow> RetryPolicy \<Rightarrow> 'md status \<Rightarrow> u32 \<Rightarrow> u64 option" where
  "pushback_backoff draw M policy st attempt =
     (if status_code st \<notin> set (retryable_codes policy) then None
      else if status_code st = ResourceExhausted
      then map_option (\<lambda>ms. min ms (max_backoff_ms policy)) (extract_retry_pushback_ms M st)
      else Some (retry_backoff_ms draw policy attempt))"

lemma should_retry_call_with_pushback_eq:
  "should_retry_call_with_pushback draw M policy st attempt budget admission rest =
     (case pushback_backoff draw M policy st attempt of
        None \<Rightarrow> (Stop, budget)
      | Some b \<Rightarrow>
          if allows_retry_metadata admission \<and> attempt < max_attempts policy \<and>
             remaining budget \<noteq> 0 \<and> deadline_covers_backoff b rest
          then (Retry b, snd (consume budget)) else (Stop, budget))"
  by (auto simp: should_retry_call_with_pushback_def pushback_backoff_def Let_def not_le
      effective_retry_backoff_ms_def consume_def remaining_def split: option.splits)

abbreviation pushback_decision where
  "pushback_decision \<equiv> \<lambda>(draw, M, policy, st, attempt, admission, rest) budget.
     should_retry_call_with_pushback draw M policy st attempt budget admission rest"

interpretation deadline_gate: retry_gate
  "\<lambda>(draw, policy, code, attempt, rest) budget.
     should_retry_with_deadline draw policy code attempt budget rest"
  "\<lambda>b. b"
proof
  fix i :: "rng \<times> RetryPolicy \<times> Code \<times> u32 \<times> duration" and t t' :: RetryBudgetTracker and b
  assume "(case i of (draw, policy, code, attempt, rest) \<Rightarrow>
    \<lambda>budget. should_retry_with_deadline draw policy code attempt budget rest) t = (b, t')"
  then have "(if b then remaining t \<noteq> 0 \<and> t' = snd (consume t) else t' = t)"
    by (auto simp: should_retry_with_deadline_eq split: prod.splits if_splits)
  then show "b \<Longrightarrow> unat (remaining t) = Suc (unat (remaining t'))" "\<not> b \<Longrightarrow> t' = t"
    using consume_spends [of t] by auto
qed

interpretation pushback_gate: retry_gate pushback_decision "\<lambda>d. d \<noteq> Stop"
proof
  fix i :: "rng \<times> ('md, 'mv) tonic_metadata \<times> RetryPolicy \<times> 'md status \<times> u32 \<times>
    RetryAdmission \<times> duration" and t t' :: RetryBudgetTracker and d
  assume "pushback_decision i t = (d, t')"
  then have "(if d \<noteq> Stop then remaining t \<noteq> 0 \<and> t' = snd (consume t) else t' = t)"
    by (auto simp: should_retry_call_with_pushback_eq
        split: prod.splits if_splits option.splits)
  then show "d \<noteq> Stop \<Longrightarrow> unat (remaining t) = Suc (unat (remaining t'))"
    "\<not> d \<noteq> Stop \<Longrightarrow> t' = t"
    using consume_spends [of t] by auto
qed

section \<open>Properties\<close>

text \<open>C14. Retry budget: whatever statuses, attempts, admissions, deadlines and jitter a call meets,
  the number of retries the pushback-aware decision grants from one tracker plus the tokens left
  in it is the budget the tracker was created with.\<close>
theorem retries_spend_budget:
  "(let (ds, t) = run_decisions pushback_decision evs (tracker_new budget)
    in length (filter (\<lambda>d. d \<noteq> Stop) ds) + unat (remaining t)) = unat budget"
  using pushback_gate.budget_conserved [of evs "tracker_new budget"]
  by (auto simp: tracker_new_def remaining_def split: prod.splits)

text \<open>C13. The pushback-aware decision retries after \<open>b\<close> milliseconds exactly when the idempotency
  admission holds, the attempt is below the limit, the code is whitelisted, a token is left and
  the remaining deadline covers \<open>b\<close> plus half of it (at least 10 ms). For \<open>RESOURCE_EXHAUSTED\<close>
  the server must have sent a numeric pushback and \<open>b\<close> is that value capped by the policy; for
  any other code \<open>b\<close> is the jittered backoff. Exactly one token is spent.\<close>
theorem pushback_retry_iff:
  "should_retry_call_with_pushback draw M policy st attempt budget admission rest
       = (Retry b, budget') \<longleftrightarrow>
     \<not> (method_requires_idempotency admission \<and> \<not> ra_has_idempotency_key admission) \<and>
     attempt < max_attempts policy \<and>
     status_code st \<in> set (retryable_codes policy) \<and>
     (if status_code st = ResourceExhausted
      then \<exists>ms. extract_retry_pushback_ms M st = Some ms \<and> b = min ms (max_backoff_ms policy)
      else b = retry_backoff_ms draw policy attempt) \<and>
     min (unat b + max (unat b div 2) 10) (2 ^ 64 - 1) \<le> as_millis rest \<and>
     0 < rbt_remaining budget \<and>
     budget' = budget\<lparr>rbt_remaining := rbt_remaining budget - 1\<rparr>"
  by (auto simp: should_retry_call_with_pushback_eq pushback_backoff_def consume_def
      remaining_def allows_retry_metadata_def deadline_covers_backoff_iff word_gt_0
      split: option.splits if_splits)

text \<open>C39. For every code but \<open>RESOURCE_EXHAUSTED\<close> the pushback-aware decision grants a retry and
  changes the budget exactly as the deadline-aware one does for the same jitter.\<close>
theorem pushback_refines_deadline_decision:
  "status_code st \<noteq> ResourceExhausted \<Longrightarrow>
   map_prod (\<lambda>d. d \<noteq> Stop) id
     (should_retry_call_with_pushback draw M policy st attempt budget admission rest) =
   should_retry_call_with_deadline draw policy (status_code st) attempt budget admission rest"
  by (simp add: should_retry_call_with_pushback_eq should_retry_call_with_deadline_def
      should_retry_with_deadline_eq pushback_backoff_def)

theorem pushback_refines_deadline_witness:
  "map_prod (\<lambda>d. d \<noteq> Stop) id
     (should_retry_call_with_pushback (\<lambda>b. b) reference_metadata (for_profile RpcDefault)
        \<lparr>status_code = Unavailable, status_message = ''test'', status_metadata = Map.empty\<rparr>
        0 (tracker_new 10)
        \<lparr>method_requires_idempotency = False, ra_has_idempotency_key = False\<rparr> (from_secs 10)) =
   (True, tracker_new 9)"
  unfolding pushback_refines_deadline_decision [of
      "\<lparr>status_code = Unavailable, status_message = ''test'', status_metadata = Map.empty\<rparr>",
      simplified]
  by (simp add: should_retry_call_with_deadline_def should_retry_with_deadline_eq
      allows_retry_metadata_def tracker_new_def remaining_def consume_def
      deadline_covers_backoff_iff retry_backoff_ms_def as_millis_def from_secs_def)



text \<open>Every built-in profile keeps each delay, the first one included, within its maximum.\<close>
theorem profile_backoff_bounded:
  assumes "draws_in_range draw"
  shows "retry_backoff_ms draw (for_profile p) attempt \<le> max_backoff_ms (for_profile p)"
proof (cases "attempt = 0")
  case True
  then show ?thesis by (cases p) (simp_all add: retry_backoff_ms_def)
next
  case False
  then have "retry_jittered (for_profile p) attempt"
    by (cases p) (simp_all add: retry_jittered_def)
  then show ?thesis
    using retry_jitter.delay_capped assms by (simp add: word_le_nat_alt)
qed

theorem profile_backoff_bounded_witness:
  "retry_backoff_ms (\<lambda>b. b) (for_profile RpcStream) 9 \<le> 500"
  using profile_backoff_bounded [of "\<lambda>b. b" RpcStream 9] by (simp add: draws_in_range_def)

text \<open>A call under a built-in profile can be retried at all exactly when the profile is neither
  the critical-write nor the stream profile.\<close>
theorem retryable_profiles:
  "(\<exists>draw code attempt budget rest.
      fst (should_retry_with_deadline draw (for_profile p) code attempt budget rest)) \<longleftrightarrow>
   p \<noteq> RpcCriticalWrite \<and> p \<noteq> RpcStream"
proof
  assume "\<exists>draw code attempt budget rest.
      fst (should_retry_with_deadline draw (for_profile p) code attempt budget rest)"
  then show "p \<noteq> RpcCriticalWrite \<and> p \<noteq> RpcStream"
    by (cases p) (auto simp: should_retry_with_deadline_eq split: if_splits)
next
  assume "p \<noteq> RpcCriticalWrite \<and> p \<noteq> RpcStream"
  then have "fst (should_retry_with_deadline draw (for_profile p) Unavailable 0
      (tracker_new 1) duration_max)" for draw
    by (cases p) (simp_all add: should_retry_with_deadline_eq tracker_new_def remaining_def)
  then show "\<exists>draw code attempt budget rest.
      fst (should_retry_with_deadline draw (for_profile p) code attempt budget rest)"
    by blast
qed

lemma pushback_text_visible: "list_all visible_ascii (show_nat n)"
  by (rule show_nat_all) (simp add: digit_char_def visible_ascii_def)

text \<open>Pushback round trip: a server that writes \<open>ms\<close> in decimal under
  \<open>grpc-retry-pushback-ms\<close> makes the client read \<open>ms\<close>, whatever other metadata the status has.\<close>
theorem pushback_roundtrip:
  assumes "metadata_get_insert M" and "metadata_value_reads_back M"
    and "metadata_value M (show_nat (unat ms)) = Some v"
  shows "extract_retry_pushback_ms M
     \<lparr>status_code = c, status_message = msg,
      status_metadata = md_insert M md GRPC_RETRY_PUSHBACK_MS v\<rparr> = Some ms"
  using assms
  by (simp add: extract_retry_pushback_ms_def metadata_get_insert_def
      metadata_value_reads_back_def parse_u64_show_nat)

theorem pushback_roundtrip_witness:
  "extract_retry_pushback_ms reference_metadata
     \<lparr>status_code = ResourceExhausted, status_message = ''busy'',
      status_metadata = md_insert reference_metadata Map.empty GRPC_RETRY_PUSHBACK_MS
        (show_nat (unat (250 :: u64)))\<rparr> = Some 250"
  by (rule pushback_roundtrip [OF reference_metadata_laws(1,2)])
    (simp add: reference_metadata_def pushback_text_visible)

end
