(* ===== verification/Circuit_Breaker.thy ===== *)
theory Circuit_Breaker
  imports RPC_Prelude
begin

text \<open>
  \<open>circuit_breaker.rs\<close>. First the methods run one after the other on the record of the breaker's
  atomics, with each reading of the clock as an argument; then an abstract machine with the three
  states and the refinement between the two, through the locale \<open>call_gate\<close>; then the properties
  of call sequences. The interleaved executions are in theory \<open>Circuit_Breaker_Threads\<close>.
\<close>

section \<open>The breaker\<close>

datatype CircuitBreakerState = Closed | Open | HalfOpen

definition CLOSED_U8 :: u8 where "CLOSED_U8 = 0"
definition OPEN_U8 :: u8 where "OPEN_U8 = 1"
definition HALF_OPEN_U8 :: u8 where "HALF_OPEN_U8 = 2"

definition from_u8 :: "u8 \<Rightarrow> CircuitBreakerState" where
  "from_u8 value =
     (if value = OPEN_U8 then Open else if value = HALF_OPEN_U8 then HalfOpen else Closed)"

record CircuitBreakerConfig =
  failure_threshold :: u32
  recovery_timeout :: duration
  half_open_max_probes :: u32

definition circuit_breaker_config_default :: CircuitBreakerConfig where
  "circuit_breaker_config_default =
     \<lparr>failure_threshold = 5, recovery_timeout = from_secs 30, half_open_max_probes = 1\<rparr>"

record CircuitBreaker =
  cb_config :: CircuitBreakerConfig
  cb_state :: u8
  consecutive_failures :: u32
  half_open_probes :: u32
  opened_at_nanos :: u64
  created_at :: instant

definition circuit_breaker_new :: "CircuitBreakerConfig \<Rightarrow> instant \<Rightarrow> CircuitBreaker" where
  "circuit_breaker_new config now =
     \<lparr>cb_config = config, cb_state = CLOSED_U8, consecutive_failures = 0, half_open_probes = 0,
      opened_at_nanos = 0, created_at = now\<rparr>"

text \<open>\<open>created_at.elapsed().as_nanos() as u64\<close> keeps the low 64 bits.\<close>

definition elapsed_nanos :: "CircuitBreaker \<Rightarrow> instant \<Rightarrow> u64" where
  "elapsed_nanos cb now = word_of_nat (elapsed_since (created_at cb) now)"

definition recovery_due :: "CircuitBreaker \<Rightarrow> u64 \<Rightarrow> instant \<Rightarrow> bool" where
  "recovery_due cb opened_nanos now \<longleftrightarrow>
     \<not> elapsed_since (created_at cb + from_nanos opened_nanos) now < recovery_timeout (cb_config cb)"

definition refresh_state :: "instant \<Rightarrow> CircuitBreaker \<Rightarrow> CircuitBreaker" where
  "refresh_state now cb =
     (let observed = cb_state cb
      in if from_u8 observed \<noteq> Open then cb
         else let opened_nanos = opened_at_nanos cb
              in if opened_nanos = 0 then cb
                 else if \<not> recovery_due cb opened_nanos now then cb
                 else cb\<lparr>cb_state := HALF_OPEN_U8, half_open_probes := 0,
                         consecutive_failures := 0\<rparr>)"

definition state :: "instant \<Rightarrow> CircuitBreaker \<Rightarrow> CircuitBreakerState \<times> CircuitBreaker" where
  "state now cb = (let cb' = refresh_state now cb in (from_u8 (cb_state cb'), cb'))"

text \<open>Without a competitor the first \<open>compare_exchange\<close> of the loop succeeds.\<close>

definition acquire_half_open_probe :: "CircuitBreaker \<Rightarrow> bool \<times> CircuitBreaker" where
  "acquire_half_open_probe cb =
     (let observed = half_open_probes cb
      in if half_open_max_probes (cb_config cb) \<le> observed then (False, cb)
         else (True, cb\<lparr>half_open_probes := saturating_add observed 1\<rparr>))"

definition allow_request :: "instant \<Rightarrow> CircuitBreaker \<Rightarrow> bool \<times> CircuitBreaker" where
  "allow_request now cb =
     (let cb' = refresh_state now cb
      in case from_u8 (cb_state cb') of
           Closed \<Rightarrow> (True, cb')
         | Open \<Rightarrow> (False, cb')
         | HalfOpen \<Rightarrow> acquire_half_open_probe cb')"

definition record_success :: "instant \<Rightarrow> CircuitBreaker \<Rightarrow> CircuitBreaker" where
  "record_success now cb =
     (let cb' = refresh_state now cb
      in cb'\<lparr>cb_state := CLOSED_U8, consecutive_failures := 0, half_open_probes := 0,
             opened_at_nanos := 0\<rparr>)"

definition open_breaker :: "instant \<Rightarrow> CircuitBreaker \<Rightarrow> CircuitBreaker" where
  "open_breaker now cb =
     cb\<lparr>cb_state := OPEN_U8, opened_at_nanos := elapsed_nanos cb now, half_open_probes := 0\<rparr>"

text \<open>\<open>record_failure\<close> reads the clock in \<open>refresh_state\<close> and again in \<open>open\<close>.\<close>

definition record_failure :: "instant \<Rightarrow> instant \<Rightarrow> CircuitBreaker \<Rightarrow> CircuitBreaker" where
  "record_failure now now' cb =
     (let cb' = refresh_state now cb
      in if from_u8 (cb_state cb') = HalfOpen then open_breaker now' cb'
         else let failures = saturating_add (consecutive_failures cb') 1;
                  cb'' = cb'\<lparr>consecutive_failures := consecutive_failures cb' + 1\<rparr>
              in if failure_threshold (cb_config cb) \<le> failures then open_breaker now' cb''
                 else cb'')"

section \<open>The abstract machine\<close>

text \<open>
  Closed with a count of failures, open since an instant, or half open with a count of admitted
  probes. The open state also counts the failures that arrive while the breaker is open, as the
  code does; they can postpone the recovery.
\<close>

datatype circuit = Closed_after nat | Open_since instant u32 | Probing nat

fun spec_refresh :: "CircuitBreakerConfig \<Rightarrow> instant \<Rightarrow> circuit \<Rightarrow> circuit" where
  "spec_refresh cfg now (Open_since t f) =
     (if now - t < recovery_timeout cfg then Open_since t f else Probing 0)"
| "spec_refresh cfg now c = c"

definition spec_allow :: "CircuitBreakerConfig \<Rightarrow> instant \<Rightarrow> circuit \<Rightarrow> bool \<times> circuit" where
  "spec_allow cfg now c =
     (case spec_refresh cfg now c of
        Closed_after n \<Rightarrow> (True, Closed_after n)
      | Open_since t f \<Rightarrow> (False, Open_since t f)
      | Probing k \<Rightarrow> if k < unat (half_open_max_probes cfg) then (True, Probing (Suc k))
                     else (False, Probing k))"

definition spec_success :: "instant \<Rightarrow> circuit \<Rightarrow> circuit" where
  "spec_success now c = Closed_after 0"

definition spec_failure :: "CircuitBreakerConfig \<Rightarrow> instant \<Rightarrow> instant \<Rightarrow> circuit \<Rightarrow> circuit" where
  "spec_failure cfg now now' c =
     (case spec_refresh cfg now c of
        Closed_after n \<Rightarrow> if unat (failure_threshold cfg) \<le> Suc n
                          then Open_since now' (word_of_nat (Suc n)) else Closed_after (Suc n)
      | Open_since t f \<Rightarrow> if failure_threshold cfg \<le> saturating_add f 1
                          then Open_since now' (f + 1) else Open_since t (f + 1)
      | Probing k \<Rightarrow> Open_since now' 0)"

section \<open>Sequences of calls\<close>

datatype gate_event = Allow instant | Success instant | Failure instant instant

fun run_gate ::
  "(instant \<Rightarrow> 's \<Rightarrow> bool \<times> 's) \<Rightarrow> (instant \<Rightarrow> 's \<Rightarrow> 's) \<Rightarrow> (instant \<Rightarrow> instant \<Rightarrow> 's \<Rightarrow> 's)
     \<Rightarrow> gate_event list \<Rightarrow> 's \<Rightarrow> bool list \<times> 's" where
  "run_gate allow succ fail [] s = ([], s)"
| "run_gate allow succ fail (Allow t # es) s =
     (let (b, s') = allow t s; (bs, s'') = run_gate allow succ fail es s' in (b # bs, s''))"
| "run_gate allow succ fail (Success t # es) s = run_gate allow succ fail es (succ t s)"
| "run_gate allow succ fail (Failure t t' # es) s = run_gate allow succ fail es (fail t t' s)"

abbreviation run_breaker :: "gate_event list \<Rightarrow> CircuitBreaker \<Rightarrow> bool list \<times> CircuitBreaker" where
  "run_breaker \<equiv> run_gate allow_request record_success record_failure"

abbreviation run_circuit ::
  "CircuitBreakerConfig \<Rightarrow> gate_event list \<Rightarrow> circuit \<Rightarrow> bool list \<times> circuit" where
  "run_circuit cfg \<equiv> run_gate (spec_allow cfg) spec_success (spec_failure cfg)"

fun opening_clocks :: "(instant \<Rightarrow> bool) \<Rightarrow> gate_event list \<Rightarrow> bool" where
  "opening_clocks P [] = True"
| "opening_clocks P (Failure t t' # es) = (P t' \<and> opening_clocks P es)"
| "opening_clocks P (e # es) = opening_clocks P es"

text \<open>
  The contract of a gate that implements the abstract machine: a view of its states, an invariant,
  the configuration and the clock readings it can represent, and a simulation per operation.
\<close>

locale call_gate =
  fixes allow :: "instant \<Rightarrow> 's \<Rightarrow> bool \<times> 's"
    and succ :: "instant \<Rightarrow> 's \<Rightarrow> 's"
    and fail :: "instant \<Rightarrow> instant \<Rightarrow> 's \<Rightarrow> 's"
    and inv :: "'s \<Rightarrow> bool"
    and view :: "'s \<Rightarrow> circuit"
    and config :: "'s \<Rightarrow> CircuitBreakerConfig"
    and clock_ok :: "'s \<Rightarrow> instant \<Rightarrow> bool"
  assumes allow_sim: "inv s \<Longrightarrow> allow t s = (b, s') \<Longrightarrow>
      spec_allow (config s) t (view s) = (b, view s') \<and> inv s' \<and>
      config s' = config s \<and> clock_ok s' = clock_ok s"
    and succ_sim: "inv s \<Longrightarrow>
      view (succ t s) = spec_success t (view s) \<and> inv (succ t s) \<and>
      config (succ t s) = config s \<and> clock_ok (succ t s) = clock_ok s"
    and fail_sim: "inv s \<Longrightarrow> clock_ok s t' \<Longrightarrow>
      view (fail t t' s) = spec_failure (config s) t t' (view s) \<and> inv (fail t t' s) \<and>
      config (fail t t' s) = config s \<and> clock_ok (fail t t' s) = clock_ok s"
begin

lemma run_simulates:
  "inv s \<Longrightarrow> opening_clocks (clock_ok s) es \<Longrightarrow> run_gate allow succ fail es s = (bs, s') \<Longrightarrow>
   run_gate (spec_allow (config s)) spec_success (spec_failure (config s)) es (view s)
     = (bs, view s') \<and> inv s' \<and> config s' = config s"
proof (induction es arbitrary: s bs)
  case (Cons e es)
  show ?case
  proof (cases e)
    case (Allow t)
    obtain b s1 where a: "allow t s = (b, s1)" by fastforce
    note sim = allow_sim [OF Cons.prems(1) a]
    obtain bs' where r: "run_gate allow succ fail es s1 = (bs', s')" and bs: "bs = b # bs'"
      using Cons.prems(3) a Allow by (auto split: prod.splits)
    have "opening_clocks (clock_ok s1) es"
      using Cons.prems(2) sim Allow by simp
    from Cons.IH [OF _ this r] sim Allow bs show ?thesis by simp
  next
    case (Success t)
    note sim = succ_sim [OF Cons.prems(1), of t]
    have "opening_clocks (clock_ok (succ t s)) es"
      using Cons.prems(2) sim Success by simp
    from Cons.IH [OF _ this] sim Success Cons.prems(3) show ?thesis by simp
  next
    case (Failure t t')
    then have "clock_ok s t'"
      using Cons.prems(2) by simp
    note sim = fail_sim [OF Cons.prems(1) this, of t]
    have "opening_clocks (clock_ok (fail t t' s)) es"
      using Cons.prems(2) sim Failure by simp
    from Cons.IH [OF _ this] sim Failure Cons.prems(3) show ?thesis by simp
  qed
qed simp

end

section \<open>The breaker implements the machine\<close>

definition cb_view :: "CircuitBreaker \<Rightarrow> circuit" where
  "cb_view cb =
     (case from_u8 (cb_state cb) of
        Closed \<Rightarrow> Closed_after (unat (consecutive_failures cb))
      | Open \<Rightarrow> Open_since (created_at cb + unat (opened_at_nanos cb)) (consecutive_failures cb)
      | HalfOpen \<Rightarrow> Probing (unat (half_open_probes cb)))"

definition cb_inv :: "CircuitBreaker \<Rightarrow> bool" where
  "cb_inv cb =
     (case from_u8 (cb_state cb) of
        Closed \<Rightarrow> unat (consecutive_failures cb) < max 1 (unat (failure_threshold (cb_config cb)))
      | Open \<Rightarrow> opened_at_nanos cb \<noteq> 0
      | HalfOpen \<Rightarrow> consecutive_failures cb = 0 \<and>
                    half_open_probes cb \<le> half_open_max_probes (cb_config cb))"

text \<open>The clock has moved since the breaker was made, and by less than \<open>2 ^ 64\<close> nanoseconds.\<close>

definition cb_clock_ok :: "CircuitBreaker \<Rightarrow> instant \<Rightarrow> bool" where
  "cb_clock_ok cb now \<longleftrightarrow> created_at cb < now \<and> now - created_at cb < 2 ^ 64"

lemma from_u8_codes [simp]:
  "from_u8 CLOSED_U8 = Closed" "from_u8 OPEN_U8 = Open" "from_u8 HALF_OPEN_U8 = HalfOpen"
  by (simp_all add: from_u8_def CLOSED_U8_def OPEN_U8_def HALF_OPEN_U8_def)

lemma refresh_state_fields [simp]:
  "cb_config (refresh_state now cb) = cb_config cb"
  "created_at (refresh_state now cb) = created_at cb"
  by (simp_all add: refresh_state_def Let_def)

lemma open_breaker_fields [simp]:
  "cb_config (open_breaker now cb) = cb_config cb"
  "created_at (open_breaker now cb) = created_at cb"
  "cb_state (open_breaker now cb) = OPEN_U8"
  "consecutive_failures (open_breaker now cb) = consecutive_failures cb"
  by (simp_all add: open_breaker_def)

lemma cb_clock_ok_cong: "created_at cb' = created_at cb \<Longrightarrow> cb_clock_ok cb' = cb_clock_ok cb"
  by (simp add: cb_clock_ok_def fun_eq_iff)

lemma refresh_state_refines:
  assumes "cb_inv cb"
  shows "cb_view (refresh_state now cb) = spec_refresh (cb_config cb) now (cb_view cb)"
    and "cb_inv (refresh_state now cb)"
  using assms
  by (auto simp: refresh_state_def cb_view_def cb_inv_def recovery_due_def elapsed_since_def
      from_nanos_def Let_def split: CircuitBreakerState.splits)

lemma open_breaker_refines:
  assumes "cb_clock_ok cb now"
  shows "cb_view (open_breaker now cb) = Open_since now (consecutive_failures cb)"
    and "cb_inv (open_breaker now cb)"
proof -
  have "unat (elapsed_nanos cb now) = now - created_at cb"
    using assms unat_word_of_nat [of "now - created_at cb", where 'a = 64]
    unfolding elapsed_nanos_def elapsed_since_def cb_clock_ok_def by simp
  moreover from this have "elapsed_nanos cb now \<noteq> 0"
    using assms by (auto simp: cb_clock_ok_def)
  ultimately show "cb_view (open_breaker now cb) = Open_since now (consecutive_failures cb)"
    and "cb_inv (open_breaker now cb)"
    using assms by (simp_all add: cb_view_def cb_inv_def open_breaker_def cb_clock_ok_def)
qed

lemma acquire_refines:
  assumes "cb_inv cb" and "from_u8 (cb_state cb) = HalfOpen"
    and "acquire_half_open_probe cb = (b, cb')"
  shows "b = (half_open_probes cb < half_open_max_probes (cb_config cb)) \<and>
    cb_view cb' = Probing (if b then Suc (unat (half_open_probes cb)) else unat (half_open_probes cb))
    \<and> cb_inv cb' \<and> cb_config cb' = cb_config cb \<and> created_at cb' = created_at cb"
proof -
  have "half_open_probes cb < half_open_max_probes (cb_config cb) \<Longrightarrow>
      unat (saturating_add (half_open_probes cb) 1) = Suc (unat (half_open_probes cb))"
    using unat_less_range [of "half_open_max_probes (cb_config cb)"]
    by (simp add: unat_saturating_add word_less_nat_alt)
  with assms show ?thesis
    by (auto simp: acquire_half_open_probe_def cb_view_def cb_inv_def Let_def word_le_nat_alt
        word_less_nat_alt split: if_splits)
qed

lemma allow_request_refines:
  assumes "cb_inv cb" and "allow_request now cb = (b, cb')"
  shows "spec_allow (cb_config cb) now (cb_view cb) = (b, cb_view cb') \<and> cb_inv cb' \<and>
    cb_config cb' = cb_config cb \<and> cb_clock_ok cb' = cb_clock_ok cb"
proof -
  let ?r = "refresh_state now cb"
  note r = refresh_state_refines [OF assms(1), of now]
  have spec: "spec_allow (cb_config cb) now (cb_view cb) =
     (case cb_view ?r of
        Closed_after n \<Rightarrow> (True, Closed_after n)
      | Open_since t f \<Rightarrow> (False, Open_since t f)
      | Probing k \<Rightarrow> if k < unat (half_open_max_probes (cb_config cb))
                     then (True, Probing (Suc k)) else (False, Probing k))"
    by (simp add: spec_allow_def r(1))
  show ?thesis
  proof (cases "from_u8 (cb_state ?r)")
    case HalfOpen
    then have "acquire_half_open_probe ?r = (b, cb')"
      using assms(2) by (simp add: allow_request_def Let_def)
    from acquire_refines [OF r(2) HalfOpen this] show ?thesis
      unfolding spec by (auto simp: cb_view_def [of ?r] HalfOpen word_less_nat_alt
          intro: cb_clock_ok_cong)
  qed (use r(2) assms(2) in \<open>auto simp: allow_request_def Let_def spec
        cb_view_def [of ?r] intro: cb_clock_ok_cong\<close>)
qed

lemma record_success_refines:
  assumes "cb_inv cb"
  shows "cb_view (record_success now cb) = spec_success now (cb_view cb) \<and>
    cb_inv (record_success now cb) \<and> cb_config (record_success now cb) = cb_config cb \<and>
    cb_clock_ok (record_success now cb) = cb_clock_ok cb"
  by (auto simp: record_success_def spec_success_def Let_def cb_view_def cb_inv_def
      intro: cb_clock_ok_cong)

lemma count_failure_refines:
  assumes inv: "cb_inv cb" and closed: "from_u8 (cb_state cb) = Closed"
  shows "unat (saturating_add (consecutive_failures cb) 1) = Suc (unat (consecutive_failures cb))"
    and "consecutive_failures cb + 1 = word_of_nat (Suc (unat (consecutive_failures cb)))"
    and "unat (failure_threshold (cb_config cb)) > Suc (unat (consecutive_failures cb)) \<Longrightarrow>
         unat (consecutive_failures cb + 1) = Suc (unat (consecutive_failures cb))"
proof -
  let ?n = "consecutive_failures cb"
  have n: "unat ?n < max 1 (unat (failure_threshold (cb_config cb)))"
    using inv closed by (simp add: cb_inv_def)
  have small: "Suc (unat ?n) < 2 ^ 32"
    using n unat_less_range [of "failure_threshold (cb_config cb)"] by simp
  then show "unat (saturating_add ?n 1) = Suc (unat ?n)"
    by (simp add: unat_saturating_add)
  show eq: "?n + 1 = word_of_nat (Suc (unat ?n))"
    by simp
  show "unat (?n + 1) = Suc (unat ?n)"
    unfolding eq using small by (intro unat_word_of_nat) simp
qed

lemma record_failure_refines:
  assumes inv: "cb_inv cb" and ok: "cb_clock_ok cb now'"
  shows "cb_view (record_failure now now' cb) =
           spec_failure (cb_config cb) now now' (cb_view cb) \<and>
    cb_inv (record_failure now now' cb) \<and> cb_config (record_failure now now' cb) = cb_config cb \<and>
    cb_clock_ok (record_failure now now' cb) = cb_clock_ok cb"
proof -
  let ?r = "refresh_state now cb"
  let ?c = "?r\<lparr>consecutive_failures := consecutive_failures ?r + 1\<rparr>"
  note r = refresh_state_refines [OF inv, of now]
  have "cb_clock_ok ?r now'" "cb_clock_ok ?c now'"
    using ok by (simp_all add: cb_clock_ok_def)
  note opens = this [THEN open_breaker_refines(1)] this [THEN open_breaker_refines(2)]
  have same: "cb_config (record_failure now now' cb) = cb_config cb"
    "cb_clock_ok (record_failure now now' cb) = cb_clock_ok cb"
    by (auto simp: record_failure_def Let_def intro: cb_clock_ok_cong)
  have spec: "spec_failure (cb_config cb) now now' (cb_view cb) =
     (case cb_view ?r of
        Closed_after n \<Rightarrow> if unat (failure_threshold (cb_config cb)) \<le> Suc n
                          then Open_since now' (word_of_nat (Suc n)) else Closed_after (Suc n)
      | Open_since t f \<Rightarrow> if failure_threshold (cb_config cb) \<le> saturating_add f 1
                          then Open_since now' (f + 1) else Open_since t (f + 1)
      | Probing k \<Rightarrow> Open_since now' 0)"
    by (simp add: spec_failure_def r(1))
  show ?thesis
  proof (cases "from_u8 (cb_state ?r)")
    case Closed
    note count = count_failure_refines [OF r(2) Closed]
    have v: "cb_view ?r = Closed_after (unat (consecutive_failures ?r))"
      using Closed by (simp add: cb_view_def)
    show ?thesis
    proof (cases "unat (failure_threshold (cb_config cb)) \<le> Suc (unat (consecutive_failures ?r))")
      case True
      then have "record_failure now now' cb = open_breaker now' ?c"
        using Closed count(1) by (simp add: record_failure_def Let_def word_le_nat_alt)
      then show ?thesis
        using True opens count(2) same by (simp add: spec v)
    next
      case False
      then have "record_failure now now' cb = ?c"
        using Closed count(1) by (simp add: record_failure_def Let_def word_le_nat_alt)
      then show ?thesis
        using False count(3) same Closed by (simp add: spec v) (simp add: cb_view_def cb_inv_def)
    qed
  next
    case Open
    then show ?thesis
      using opens same r(2) by (auto simp: spec cb_view_def [of ?r] record_failure_def Let_def
          cb_view_def [of ?c] cb_inv_def [of ?c] cb_inv_def [of ?r])
  next
    case HalfOpen
    then show ?thesis
      using opens same r(2) by (simp add: spec cb_view_def [of ?r] record_failure_def Let_def
          cb_inv_def [of ?r])
  qed
qed

interpretation breaker: call_gate allow_request record_success record_failure
  cb_inv cb_view cb_config cb_clock_ok
  by unfold_locales (fact allow_request_refines record_success_refines record_failure_refines)+

section \<open>Runs of the abstract machine\<close>

fun is_failure :: "gate_event \<Rightarrow> bool" where
  "is_failure (Failure t t') = True"
| "is_failure e = False"

fun is_success :: "gate_event \<Rightarrow> bool" where
  "is_success (Success t) = True"
| "is_success e = False"

fun is_allow :: "gate_event \<Rightarrow> bool" where
  "is_allow (Allow t) = True"
| "is_allow e = False"

lemma spec_allow_simps [simp]:
  "spec_allow cfg now (Closed_after n) = (True, Closed_after n)"
  "spec_allow cfg now (Probing k) =
     (if k < unat (half_open_max_probes cfg) then (True, Probing (Suc k)) else (False, Probing k))"
  "spec_allow cfg now (Open_since t f) =
     (if now - t < recovery_timeout cfg then (False, Open_since t f)
      else spec_allow cfg now (Probing 0))"
  by (simp_all add: spec_allow_def)

lemma run_gate_append:
  "run_gate allow succ fail (es @ fs) s =
     (let (bs, s') = run_gate allow succ fail es s; (cs, s'') = run_gate allow succ fail fs s'
      in (bs @ cs, s''))"
  by (induction allow succ fail es s rule: run_gate.induct) (auto split: prod.splits)

lemma opening_clocks_append [simp]:
  "opening_clocks P (es @ fs) \<longleftrightarrow> opening_clocks P es \<and> opening_clocks P fs"
  by (induction P es rule: opening_clocks.induct) auto

lemma opening_clocks_allows [simp]: "opening_clocks P (map Allow ts)"
  by (induction ts) auto

lemma run_circuit_closed:
  "list_all (\<lambda>e. \<not> is_success e) es \<Longrightarrow>
   n + length (filter is_failure es) < max 1 (unat (failure_threshold cfg)) \<Longrightarrow>
   run_circuit cfg es (Closed_after n) =
     (replicate (length (filter is_allow es)) True, Closed_after (n + length (filter is_failure es)))"
proof (induction es arbitrary: n)
  case (Cons e es)
  then show ?case
    by (cases e) (auto simp: spec_failure_def)
qed simp

lemma run_circuit_probing:
  "length (filter (\<lambda>b. b) (fst (run_circuit cfg (map Allow ts) (Probing k))))
     \<le> unat (half_open_max_probes cfg) - k"
proof (induction ts arbitrary: k)
  case (Cons t ts)
  show ?case
    using Cons.IH [of "Suc k"] Cons.IH [of k] by (auto split: prod.splits)
qed simp

lemma run_circuit_open:
  "length (filter (\<lambda>b. b) (fst (run_circuit cfg (map Allow ts) (Open_since t0 f))))
     \<le> unat (half_open_max_probes cfg)"
proof (induction ts)
  case (Cons t ts)
  have "length (filter (\<lambda>b. b) (fst (run_circuit cfg (Allow t # map Allow ts) (Probing 0))))
     \<le> unat (half_open_max_probes cfg)"
    using run_circuit_probing [of cfg "t # ts" 0] by simp
  with Cons.IH show ?case
    by (auto split: prod.splits if_splits)
qed simp

abbreviation ticks_after :: "instant \<Rightarrow> gate_event list \<Rightarrow> bool" where
  "ticks_after t0 \<equiv> opening_clocks (\<lambda>now. t0 < now \<and> now - t0 < 2 ^ 64)"

lemma new_breaker [simp]:
  "cb_inv (circuit_breaker_new cfg t0)" "cb_config (circuit_breaker_new cfg t0) = cfg"
  "cb_view (circuit_breaker_new cfg t0) = Closed_after 0"
  "cb_clock_ok (circuit_breaker_new cfg t0) = (\<lambda>now. t0 < now \<and> now - t0 < 2 ^ 64)"
  by (auto simp: circuit_breaker_new_def cb_inv_def cb_view_def cb_clock_ok_def fun_eq_iff)

lemma run_from_new:
  assumes "ticks_after t0 es" and "run_breaker es (circuit_breaker_new cfg t0) = (bs, cb)"
  shows "run_circuit cfg es (Closed_after 0) = (bs, cb_view cb)" and "cb_inv cb"
    and "cb_config cb = cfg"
  using breaker.run_simulates [OF _ _ assms(2)] assms(1) by simp_all

lemma fst_run_from_new:
  "ticks_after t0 es \<Longrightarrow> fst (run_breaker es (circuit_breaker_new cfg t0)) =
     fst (run_circuit cfg es (Closed_after 0))"
  using run_from_new(1) by (cases "run_breaker es (circuit_breaker_new cfg t0)") fastforce

lemma tripped_circuit:
  assumes "list_all (\<lambda>e. \<not> is_success e) es"
    and "Suc (length (filter is_failure es)) = max 1 (unat (failure_threshold cfg))"
  shows "run_circuit cfg (es @ Failure now now' # fs) (Closed_after 0) =
     (let (bs, c) = run_circuit cfg fs
            (Open_since now' (word_of_nat (Suc (length (filter is_failure es)))))
      in (replicate (length (filter is_allow es)) True @ bs, c))"
  using assms run_circuit_closed [OF assms(1), of 0 cfg]
  by (simp add: run_gate_append spec_failure_def split: prod.splits)

section \<open>Properties of call sequences\<close>

text \<open>The configuration of the unit test, for the examples.\<close>

definition trial_config :: CircuitBreakerConfig where
  "trial_config =
     \<lparr>failure_threshold = 2, recovery_timeout = from_millis 1, half_open_max_probes = 1\<rparr>"

text \<open>C7. Refinement: over any sequence of calls on a fresh breaker, the breaker of the code answers
  every \<open>allow_request\<close> as the three-state machine does and ends in the state the machine ends
  in, provided the clock readings at which it opens lie strictly after its creation and within
  \<open>2 ^ 64\<close> nanoseconds of it.\<close>
theorem breaker_refines_machine:
  "ticks_after t0 es \<Longrightarrow>
   map_prod id cb_view (run_breaker es (circuit_breaker_new cfg t0)) =
     run_circuit cfg es (Closed_after 0)"
  using run_from_new(1) by (cases "run_breaker es (circuit_breaker_new cfg t0)") fastforce

theorem breaker_refines_machine_witness:
  "map_prod id cb_view (run_breaker [Failure 10 11, Failure 12 13, Allow 14]
      (circuit_breaker_new trial_config 0)) = ([False], Open_since 13 2)"
  using breaker_refines_machine [of 0 "[Failure 10 11, Failure 12 13, Allow 14]" trial_config]
  by (simp add: spec_failure_def trial_config_def from_millis_def)

text \<open>Trip and recovery: with no success recorded, requests are admitted up to the failure that
  reaches the threshold (a threshold of zero acts as one); from that instant requests are
  refused for the recovery timeout, then a probe is admitted, and after its success requests are
  admitted again.\<close>
theorem trips_and_recovers:
  assumes "list_all (\<lambda>e. \<not> is_success e) es"
    and "Suc (length (filter is_failure es)) = max 1 (unat (failure_threshold cfg))"
    and "ticks_after t0 (es @ [Failure now now'])"
    and "t < now' + recovery_timeout cfg" and "0 < recovery_timeout cfg"
    and "now' + recovery_timeout cfg \<le> u" and "0 < half_open_max_probes cfg"
  shows "fst (run_breaker (es @ [Failure now now', Allow t, Allow u, Success v, Allow w])
              (circuit_breaker_new cfg t0)) =
     replicate (length (filter is_allow es)) True @ [False, True, True]"
  using assms(3-)
  by (simp add: fst_run_from_new tripped_circuit [OF assms(1,2)] spec_success_def
      unat_gt_0 word_gt_0 less_diff_conv2)

text \<open>A failure recorded while probing opens the breaker again for a full recovery timeout.\<close>
theorem failed_probe_reopens:
  assumes "list_all (\<lambda>e. \<not> is_success e) es"
    and "Suc (length (filter is_failure es)) = max 1 (unat (failure_threshold cfg))"
    and "ticks_after t0 (es @ [Failure now now', Failure v v'])"
    and "now' + recovery_timeout cfg \<le> u" and "now' + recovery_timeout cfg \<le> v"
    and "0 < half_open_max_probes cfg"
    and "w < v' + recovery_timeout cfg" and "0 < recovery_timeout cfg"
  shows "fst (run_breaker (es @ [Failure now now', Allow u, Failure v v', Allow w])
              (circuit_breaker_new cfg t0)) =
     replicate (length (filter is_allow es)) True @ [True, False]"
  using assms(3-)
  by (simp add: fst_run_from_new tripped_circuit [OF assms(1,2)] spec_failure_def
      unat_gt_0 word_gt_0 less_diff_conv2)

theorem failed_probe_reopens_witness:
  "fst (run_breaker [Failure 10 11, Allow 12, Failure 13 14, Allow 2000000,
        Failure 2000001 2000002, Allow 3000001] (circuit_breaker_new trial_config 0)) =
     [True, True, False]"
  using failed_probe_reopens [of "[Failure 10 11, Allow 12]" trial_config 0 13 14 2000001
      2000002 2000000 3000001]
  by (simp add: trial_config_def from_millis_def)

text \<open>Probe limit: after any history that leaves the breaker open or half open, any number of
  requests that comes before the next recorded outcome contains at most
  \<open>half_open_max_probes\<close> admitted ones.\<close>
theorem probes_limited:
  assumes "ticks_after t0 es" and "run_breaker es (circuit_breaker_new cfg t0) = (bs, cb)"
    and "from_u8 (cb_state cb) \<noteq> Closed"
  shows "length (filter (\<lambda>b. b) (fst (run_breaker (map Allow ts) cb))) \<le> unat (half_open_max_probes cfg)"
proof -
  note run = run_from_new [OF assms(1,2)]
  obtain as cb' where a: "run_breaker (map Allow ts) cb = (as, cb')" by fastforce
  have "run_circuit cfg (map Allow ts) (cb_view cb) = (as, cb_view cb')"
    using breaker.run_simulates [OF run(2) _ a] run(3) by simp
  moreover have "length (filter (\<lambda>b. b) (fst (run_circuit cfg (map Allow ts) (cb_view cb))))
      \<le> unat (half_open_max_probes cfg)"
    using assms(3) run_circuit_open [of cfg ts]
      le_trans [OF run_circuit_probing [of cfg ts] diff_le_self]
    by (auto simp: cb_view_def split: CircuitBreakerState.splits)
  ultimately show ?thesis by (simp add: a)
qed

lemma failures_at_creation:
  assumes "n < 2 ^ 32"
  shows "run_breaker (replicate n (Failure t0 t0)) (circuit_breaker_new cfg t0) =
    ([], (circuit_breaker_new cfg t0)
      \<lparr>cb_state := (if 0 < n \<and> failure_threshold cfg \<le> word_of_nat n then OPEN_U8 else CLOSED_U8),
       consecutive_failures := word_of_nat n\<rparr>)"
  using assms
proof (induction n)
  case 0
  show ?case by (simp add: circuit_breaker_new_def)
next
  case (Suc n)
  have n: "unat (word_of_nat n :: u32) = n" and "unat (word_of_nat (Suc n) :: u32) = Suc n"
    using Suc.prems by (auto intro!: unat_word_of_nat simp del: of_nat_Suc)
  have next_n: "saturating_add (word_of_nat n :: u32) 1 = word_of_nat (Suc n)"
    using Suc.prems by (intro saturating_add_of_nat) simp
  have grows: "failure_threshold cfg \<le> word_of_nat n \<Longrightarrow> failure_threshold cfg \<le> word_of_nat (Suc n)"
    using n \<open>unat (word_of_nat (Suc n) :: u32) = Suc n\<close> by (simp add: word_le_nat_alt)
  have "replicate (Suc n) (Failure t0 t0) = replicate n (Failure t0 t0) @ [Failure t0 t0]"
    by (simp add: replicate_append_same)
  then show ?case
    using Suc next_n grows
    by (auto simp: run_gate_append record_failure_def refresh_state_def circuit_breaker_new_def
        open_breaker_def elapsed_nanos_def elapsed_since_def Let_def simp del: replicate.simps)
qed

lemma stuck_refuses:
  "cb_state cb = OPEN_U8 \<Longrightarrow> opened_at_nanos cb = 0 \<Longrightarrow>
     run_breaker (map Allow ts) cb = (replicate (length ts) False, cb)"
  by (induction ts) (auto simp: allow_request_def refresh_state_def Let_def split: prod.splits)

text \<open>C40. The instant zero: if the failures that reach the threshold are recorded before the clock has
  advanced from the breaker's creation, it opens and stores zero, which the refresh takes for
  "never opened". However many requests are then asked for, and however late, each is refused and
  the breaker stays open with zero stored. Only another recorded outcome ends this: after a
  success the next request is admitted, and a further failure stores its own time.\<close>
theorem opened_at_creation_stuck:
  assumes "0 < n" and "n < 2 ^ 32" and "failure_threshold cfg \<le> word_of_nat n"
  shows "case run_breaker (replicate n (Failure t0 t0) @ map Allow ts) (circuit_breaker_new cfg t0) of
    (answers, cb) \<Rightarrow>
      answers = replicate (length ts) False \<and> from_u8 (cb_state cb) = Open \<and> opened_at_nanos cb = 0 \<and>
      fst (run_breaker [Success t, Allow u] cb) = [True] \<and>
      opened_at_nanos (snd (run_breaker [Failure t t'] cb)) = elapsed_nanos cb t'"
proof -
  have "failure_threshold cfg \<le> saturating_add (word_of_nat n) 1"
    using assms(3) unat_less_range [of "failure_threshold cfg"]
    by (auto simp: word_le_nat_alt unat_saturating_add)
  moreover let ?cb = "(circuit_breaker_new cfg t0)\<lparr>cb_state := OPEN_U8,
    consecutive_failures := word_of_nat n\<rparr>"
  have "run_breaker (replicate n (Failure t0 t0) @ map Allow ts) (circuit_breaker_new cfg t0) =
      (replicate (length ts) False, ?cb)"
    using assms failures_at_creation [OF assms(2)] stuck_refuses [of ?cb ts]
    by (simp add: run_gate_append) (simp add: circuit_breaker_new_def)
  ultimately show ?thesis
    by (simp add: circuit_breaker_new_def record_success_def record_failure_def allow_request_def
        refresh_state_def open_breaker_def elapsed_nanos_def Let_def)
qed

theorem opened_at_creation_stuck_witness:
  "fst (run_breaker (replicate 2 (Failure 7 7) @ map Allow [8, 10 ^ 18])
     (circuit_breaker_new trial_config 7)) = [False, False]"
  using opened_at_creation_stuck [of 2 trial_config, where t0 = 7 and ts = "[8, 10 ^ 18]"]
  by (auto simp: trial_config_def case_prod_beta)

end
