(* ===== verification/Circuit_Breaker_Threads.thy ===== *)
theory Circuit_Breaker_Threads
  imports Circuit_Breaker
begin

text \<open>
  The lock-free execution of \<open>circuit_breaker.rs\<close>: threads share one breaker, and each load, store,
  swap, fetch-and-add and compare-exchange on an atomic, and each reading of the clock, is one
  step. The executions are the interleavings of such steps (sequential consistency; reorderings
  that the acquire and release orderings would further allow are not modelled). A program counter
  names the next atomic action and carries the local variables.
\<close>

section \<open>Steps of one thread\<close>

datatype call = CallState | CallAllow | CallSuccess | CallFailure

text \<open>What a method returns: nothing, whether the request may proceed, or the state it loaded.\<close>

datatype answer = Done | Allowed bool | Observed CircuitBreakerState

datatype pc =
    Idle
  | Load_state call
  | Load_opened call u8
  | Check_elapsed call u8 u64
  | Cas_half_open call u8
  | Reset_probes call
  | Reset_failures call
  | Refreshed call
  | Load_probes
  | Cas_probes u32
  | Success_failures
  | Success_probes
  | Success_opened
  | Add_failure
  | Open_swap
  | Open_clock
  | Open_store u64
  | Open_probes
  | Returned answer

text \<open>\<open>refresh_state\<close>, which every call runs first.\<close>

fun refresh_step :: "instant \<Rightarrow> pc \<Rightarrow> CircuitBreaker \<Rightarrow> pc \<times> CircuitBreaker" where
  "refresh_step now (Load_state c) cb =
     (if from_u8 (cb_state cb) \<noteq> Open then (Refreshed c, cb)
      else (Load_opened c (cb_state cb), cb))"
| "refresh_step now (Load_opened c observed) cb =
     (if opened_at_nanos cb = 0 then (Refreshed c, cb)
      else (Check_elapsed c observed (opened_at_nanos cb), cb))"
| "refresh_step now (Check_elapsed c observed opened_nanos) cb =
     (if \<not> recovery_due cb opened_nanos now then (Refreshed c, cb)
      else (Cas_half_open c observed, cb))"
| "refresh_step now (Cas_half_open c observed) cb =
     (if cb_state cb = observed then (Reset_probes c, cb\<lparr>cb_state := HALF_OPEN_U8\<rparr>)
      else (Refreshed c, cb))"
| "refresh_step now (Reset_probes c) cb = (Reset_failures c, cb\<lparr>half_open_probes := 0\<rparr>)"
| "refresh_step now (Reset_failures c) cb = (Refreshed c, cb\<lparr>consecutive_failures := 0\<rparr>)"
| "refresh_step now pc cb = (pc, cb)"

text \<open>The part of each method after \<open>refresh_state\<close>, up to its next atomic action.\<close>

definition state_step :: "CircuitBreaker \<Rightarrow> pc \<times> CircuitBreaker" where
  "state_step cb = (Returned (Observed (from_u8 (cb_state cb))), cb)"

definition allow_step :: "CircuitBreaker \<Rightarrow> pc \<times> CircuitBreaker" where
  "allow_step cb =
     (case from_u8 (cb_state cb) of
        Closed \<Rightarrow> (Returned (Allowed True), cb)
      | Open \<Rightarrow> (Returned (Allowed False), cb)
      | HalfOpen \<Rightarrow> (Load_probes, cb))"

definition success_step :: "CircuitBreaker \<Rightarrow> pc \<times> CircuitBreaker" where
  "success_step cb = (Success_failures, cb\<lparr>cb_state := CLOSED_U8\<rparr>)"

definition failure_step :: "CircuitBreaker \<Rightarrow> pc \<times> CircuitBreaker" where
  "failure_step cb =
     (if from_u8 (cb_state cb) = HalfOpen then (Open_swap, cb) else (Add_failure, cb))"

fun body_step :: "call \<Rightarrow> CircuitBreaker \<Rightarrow> pc \<times> CircuitBreaker" where
  "body_step CallState cb = state_step cb"
| "body_step CallAllow cb = allow_step cb"
| "body_step CallSuccess cb = success_step cb"
| "body_step CallFailure cb = failure_step cb"

declare state_step_def [simp] allow_step_def [simp] success_step_def [simp] failure_step_def [simp]

text \<open>\<open>acquire_half_open_probe\<close>: a lost race goes back to the load.\<close>

fun acquire_step :: "pc \<Rightarrow> CircuitBreaker \<Rightarrow> pc \<times> CircuitBreaker" where
  "acquire_step Load_probes cb =
     (if half_open_max_probes (cb_config cb) \<le> half_open_probes cb then (Returned (Allowed False), cb)
      else (Cas_probes (half_open_probes cb), cb))"
| "acquire_step (Cas_probes observed) cb =
     (if half_open_probes cb = observed
      then (Returned (Allowed True), cb\<lparr>half_open_probes := saturating_add observed 1\<rparr>)
      else (Load_probes, cb))"
| "acquire_step pc cb = (pc, cb)"

text \<open>The stores of \<open>record_success\<close>, the counter of \<open>record_failure\<close> and \<open>open\<close>.\<close>

fun record_step :: "instant \<Rightarrow> pc \<Rightarrow> CircuitBreaker \<Rightarrow> pc \<times> CircuitBreaker" where
  "record_step now Success_failures cb = (Success_probes, cb\<lparr>consecutive_failures := 0\<rparr>)"
| "record_step now Success_probes cb = (Success_opened, cb\<lparr>half_open_probes := 0\<rparr>)"
| "record_step now Success_opened cb = (Returned Done, cb\<lparr>opened_at_nanos := 0\<rparr>)"
| "record_step now Add_failure cb =
     (if failure_threshold (cb_config cb) \<le> saturating_add (consecutive_failures cb) 1
      then (Open_swap, cb\<lparr>consecutive_failures := consecutive_failures cb + 1\<rparr>)
      else (Returned Done, cb\<lparr>consecutive_failures := consecutive_failures cb + 1\<rparr>))"
| "record_step now Open_swap cb = (Open_clock, cb\<lparr>cb_state := OPEN_U8\<rparr>)"
| "record_step now Open_clock cb = (Open_store (elapsed_nanos cb now), cb)"
| "record_step now (Open_store nanos) cb = (Open_probes, cb\<lparr>opened_at_nanos := nanos\<rparr>)"
| "record_step now Open_probes cb = (Returned Done, cb\<lparr>half_open_probes := 0\<rparr>)"
| "record_step now pc cb = (pc, cb)"

fun thread_step :: "instant \<Rightarrow> pc \<Rightarrow> CircuitBreaker \<Rightarrow> pc \<times> CircuitBreaker" where
  "thread_step now (Refreshed c) cb = body_step c cb"
| "thread_step now Load_probes cb = acquire_step Load_probes cb"
| "thread_step now (Cas_probes observed) cb = acquire_step (Cas_probes observed) cb"
| "thread_step now Success_failures cb = record_step now Success_failures cb"
| "thread_step now Success_probes cb = record_step now Success_probes cb"
| "thread_step now Success_opened cb = record_step now Success_opened cb"
| "thread_step now Add_failure cb = record_step now Add_failure cb"
| "thread_step now Open_swap cb = record_step now Open_swap cb"
| "thread_step now Open_clock cb = record_step now Open_clock cb"
| "thread_step now (Open_store nanos) cb = record_step now (Open_store nanos) cb"
| "thread_step now Open_probes cb = record_step now Open_probes cb"
| "thread_step now pc cb = refresh_step now pc cb"

fun running :: "pc \<Rightarrow> bool" where
  "running Idle = False"
| "running (Returned r) = False"
| "running pc = True"

section \<open>A call without competitors\<close>

fun run_alone :: "nat \<Rightarrow> instant \<Rightarrow> pc \<Rightarrow> CircuitBreaker \<Rightarrow> pc \<times> CircuitBreaker" where
  "run_alone 0 now pc cb = (pc, cb)"
| "run_alone (Suc n) now pc cb =
     (if running pc then (let (pc', cb') = thread_step now pc cb in run_alone n now pc' cb')
      else (pc, cb))"

lemma run_alone_add:
  "run_alone (m + n) now pc cb = (let (pc', cb') = run_alone m now pc cb in run_alone n now pc' cb')"
proof (induction m arbitrary: pc cb)
  case (Suc m)
  have "\<not> running pc \<Longrightarrow> run_alone n now pc cb = (pc, cb)"
    by (cases n) simp_all
  with Suc show ?case by (auto split: prod.splits)
qed simp

lemma run_alone_finished: "\<not> running pc \<Longrightarrow> run_alone n now pc cb = (pc, cb)"
  by (cases n) simp_all

lemma run_alone_more:
  assumes "run_alone m now pc cb = (pc', cb')" and "\<not> running pc'" and "m \<le> n"
  shows "run_alone n now pc cb = (pc', cb')"
  using run_alone_add [of m "n - m" now pc cb] assms by (simp add: run_alone_finished)

lemma refresh_alone:
  "\<exists>n \<le> 6. run_alone n now (Load_state c) cb = (Refreshed c, refresh_state now cb)"
proof -
  consider "from_u8 (cb_state cb) \<noteq> Open"
    | "from_u8 (cb_state cb) = Open" "opened_at_nanos cb = 0"
    | "from_u8 (cb_state cb) = Open" "opened_at_nanos cb \<noteq> 0"
      "\<not> recovery_due cb (opened_at_nanos cb) now"
    | "from_u8 (cb_state cb) = Open" "opened_at_nanos cb \<noteq> 0"
      "recovery_due cb (opened_at_nanos cb) now"
    by blast
  then show ?thesis
  proof cases
    case 1 then show ?thesis
      by (intro exI [of _ "Suc 0"]) (simp add: refresh_state_def Let_def)
  next
    case 2 then show ?thesis
      by (intro exI [of _ "Suc (Suc 0)"]) (simp add: refresh_state_def Let_def)
  next
    case 3 then show ?thesis
      by (intro exI [of _ "Suc (Suc (Suc 0))"]) (simp add: refresh_state_def Let_def)
  next
    case 4 then show ?thesis
      by (intro exI [of _ "Suc (Suc (Suc (Suc (Suc (Suc 0)))))"])
        (simp add: refresh_state_def Let_def)
  qed
qed

lemma call_alone:
  assumes "run_alone 6 now (Refreshed c) (refresh_state now cb) = (pc', cb')" and "\<not> running pc'"
  shows "run_alone 12 now (Load_state c) cb = (pc', cb')"
proof -
  obtain n where n: "n \<le> 6"
    "run_alone n now (Load_state c) cb = (Refreshed c, refresh_state now cb)"
    using refresh_alone by blast
  then have "run_alone (n + 6) now (Load_state c) cb = (pc', cb')"
    using assms(1) by (simp add: run_alone_add)
  then show ?thesis by (rule run_alone_more) (use assms(2) n(1) in simp_all)
qed

section \<open>Interleavings\<close>

text \<open>
  Two ghost counters accompany the shared breaker: \<open>slots\<close> counts the probes admitted since the
  probe counter was last reset to zero, \<open>trials\<close> those admitted since the breaker last became
  half open.
\<close>

record system =
  shared :: CircuitBreaker
  threads :: "nat \<Rightarrow> pc"
  clock :: instant
  slots :: nat
  trials :: nat

definition system_new :: "CircuitBreakerConfig \<Rightarrow> instant \<Rightarrow> system" where
  "system_new cfg now =
     \<lparr>shared = circuit_breaker_new cfg now, threads = (\<lambda>_. Idle), clock = now, slots = 0,
      trials = 0\<rparr>"

fun takes_slot :: "pc \<Rightarrow> CircuitBreaker \<Rightarrow> bool" where
  "takes_slot (Cas_probes observed) cb = (half_open_probes cb = observed)"
| "takes_slot pc cb = False"

fun resets_slots :: "pc \<Rightarrow> bool" where
  "resets_slots (Reset_probes c) = True"
| "resets_slots Success_probes = True"
| "resets_slots Open_probes = True"
| "resets_slots pc = False"

fun starts_trial :: "pc \<Rightarrow> CircuitBreaker \<Rightarrow> bool" where
  "starts_trial (Cas_half_open c observed) cb = (cb_state cb = observed)"
| "starts_trial pc cb = False"

definition step_thread :: "nat \<Rightarrow> system \<Rightarrow> system" where
  "step_thread i s =
     (let pc = threads s i; cb = shared s; (pc', cb') = thread_step (clock s) pc cb
      in s\<lparr>shared := cb', threads := (threads s)(i := pc'),
           slots := (if resets_slots pc then 0 else if takes_slot pc cb then Suc (slots s)
                     else slots s),
           trials := (if starts_trial pc cb then 0 else if takes_slot pc cb then Suc (trials s)
                      else trials s)\<rparr>)"

datatype action = Begin nat call | Step nat | Tick nat

text \<open>A thread begins a call when it has none running, makes a step of it, or time passes.\<close>

inductive sys_step :: "system \<Rightarrow> action \<Rightarrow> system \<Rightarrow> bool" where
  begin_call: "\<not> running (threads s i) \<Longrightarrow>
    sys_step s (Begin i c) (s\<lparr>threads := (threads s)(i := Load_state c)\<rparr>)"
| do_step: "running (threads s i) \<Longrightarrow> sys_step s (Step i) (step_thread i s)"
| pass_time: "sys_step s (Tick d) (s\<lparr>clock := clock s + d\<rparr>)"

inductive_cases sys_stepE: "sys_step s a s'"

inductive reachable :: "CircuitBreakerConfig \<Rightarrow> instant \<Rightarrow> system \<Rightarrow> bool" for cfg t0 where
  start: "reachable cfg t0 (system_new cfg t0)"
| step: "reachable cfg t0 s \<Longrightarrow> sys_step s a s' \<Longrightarrow> reachable cfg t0 s'"

text \<open>Executable schedules.\<close>

fun enabled :: "action \<Rightarrow> system \<Rightarrow> bool" where
  "enabled (Begin i c) s = (\<not> running (threads s i))"
| "enabled (Step i) s = running (threads s i)"
| "enabled (Tick d) s = True"

fun act :: "action \<Rightarrow> system \<Rightarrow> system" where
  "act (Begin i c) s = s\<lparr>threads := (threads s)(i := Load_state c)\<rparr>"
| "act (Step i) s = step_thread i s"
| "act (Tick d) s = s\<lparr>clock := clock s + d\<rparr>"

fun run_schedule :: "action list \<Rightarrow> system \<Rightarrow> system option" where
  "run_schedule [] s = Some s"
| "run_schedule (a # as) s = (if enabled a s then run_schedule as (act a s) else None)"

lemma enabled_step: "enabled a s \<Longrightarrow> sys_step s a (act a s)"
  by (cases a) (auto intro: sys_step.intros)

lemma run_schedule_reachable:
  "reachable cfg t0 s \<Longrightarrow> run_schedule as s = Some s' \<Longrightarrow> reachable cfg t0 s'"
proof (induction as arbitrary: s)
  case (Cons a as)
  then show ?case
    using reachable.step [OF Cons.prems(1) enabled_step [of a s]] by (auto split: if_splits)
qed simp

section \<open>The invariant of all interleavings\<close>

definition valid_code :: "u8 \<Rightarrow> bool" where
  "valid_code v \<longleftrightarrow> v = CLOSED_U8 \<or> v = OPEN_U8 \<or> v = HALF_OPEN_U8"

definition sys_inv :: "CircuitBreakerConfig \<Rightarrow> system \<Rightarrow> bool" where
  "sys_inv cfg s \<longleftrightarrow>
     cb_config (shared s) = cfg \<and> valid_code (cb_state (shared s)) \<and>
     half_open_probes (shared s) \<le> half_open_max_probes cfg \<and>
     slots s = unat (half_open_probes (shared s)) \<and>
     (\<forall>i observed. threads s i = Cas_probes observed \<longrightarrow> observed < half_open_max_probes cfg)"

lemma unat_next_slot: "(o' :: u32) < m \<Longrightarrow> unat (saturating_add o' 1) = Suc (unat o')"
  using unat_less_range [of m] by (simp add: unat_saturating_add word_less_nat_alt)

lemma thread_step_inv:
  assumes step: "thread_step now pc cb = (pc', cb')"
    and cfg: "cb_config cb = cfg" and code: "valid_code (cb_state cb)"
    and probes: "half_open_probes cb \<le> half_open_max_probes cfg"
    and local: "\<And>observed. pc = Cas_probes observed \<Longrightarrow> observed < half_open_max_probes cfg"
  shows "cb_config cb' = cfg \<and> valid_code (cb_state cb') \<and>
    half_open_probes cb' \<le> half_open_max_probes cfg \<and>
    (\<forall>observed. pc' = Cas_probes observed \<longrightarrow> observed < half_open_max_probes cfg) \<and>
    unat (half_open_probes cb') =
      (if resets_slots pc then 0 else if takes_slot pc cb then Suc (unat (half_open_probes cb))
       else unat (half_open_probes cb))"
proof (cases pc)
  case (Refreshed c)
  with assms show ?thesis
    by (cases c) (auto simp: valid_code_def split: CircuitBreakerState.splits if_splits)
next
  case (Cas_probes observed)
  with local have less: "observed < half_open_max_probes cfg" by simp
  from Cas_probes assms(1-4) unat_next_slot [OF less] less show ?thesis
    by (auto simp: word_le_nat_alt word_less_nat_alt split: if_splits)
next
  case Load_probes
  with assms show ?thesis by (auto simp: not_le split: if_splits)
qed (use assms in \<open>auto simp: valid_code_def split: if_splits\<close>)

lemma sys_step_inv:
  assumes "sys_step s a s'" and "sys_inv cfg s"
  shows "sys_inv cfg s'"
  using assms(1)
proof cases
  case (do_step i)
  obtain pc' cb' where t: "thread_step (clock s) (threads s i) (shared s) = (pc', cb')" by fastforce
  have "cb_config cb' = cfg \<and> valid_code (cb_state cb') \<and>
    half_open_probes cb' \<le> half_open_max_probes cfg \<and>
    (\<forall>observed. pc' = Cas_probes observed \<longrightarrow> observed < half_open_max_probes cfg) \<and>
    unat (half_open_probes cb') =
      (if resets_slots (threads s i) then 0
       else if takes_slot (threads s i) (shared s) then Suc (unat (half_open_probes (shared s)))
       else unat (half_open_probes (shared s)))"
    by (rule thread_step_inv [OF t]) (use assms(2) in \<open>auto simp: sys_inv_def\<close>)
  then show ?thesis
    using assms(2) do_step t by (auto simp: sys_inv_def step_thread_def Let_def)
qed (use assms(2) in \<open>auto simp: sys_inv_def\<close>)

lemma reachable_inv: "reachable cfg t0 s \<Longrightarrow> sys_inv cfg s"
proof (induction rule: reachable.induct)
  case start
  show ?case by (simp add: sys_inv_def system_new_def circuit_breaker_new_def valid_code_def)
qed (rule sys_step_inv)

section \<open>Properties\<close>

text \<open>C22. A call that no other thread interferes with ends within twelve atomic steps, with the answer
  (the admission of \<open>allow_request\<close>, the state that \<open>state\<close> reports, nothing for the recording
  methods) and the breaker that the sequential method computes from the same clock reading.\<close>
theorem uncontended_calls:
  "run_alone 12 now (Load_state CallAllow) cb =
     (Returned (Allowed (fst (allow_request now cb))), snd (allow_request now cb)) \<and>
   run_alone 12 now (Load_state CallSuccess) cb = (Returned Done, record_success now cb) \<and>
   run_alone 12 now (Load_state CallFailure) cb = (Returned Done, record_failure now now cb) \<and>
   run_alone 12 now (Load_state CallState) cb =
     (Returned (Observed (fst (state now cb))), snd (state now cb))"
proof (intro conjI)
  let ?r = "refresh_state now cb"
  show "run_alone 12 now (Load_state CallAllow) cb =
     (Returned (Allowed (fst (allow_request now cb))), snd (allow_request now cb))"
    by (rule call_alone) (auto simp: numeral_eq_Suc allow_request_def Let_def
        acquire_half_open_probe_def split: CircuitBreakerState.splits)
  show "run_alone 12 now (Load_state CallSuccess) cb = (Returned Done, record_success now cb)"
    by (rule call_alone) (simp_all add: numeral_eq_Suc record_success_def Let_def)
  show "run_alone 12 now (Load_state CallFailure) cb = (Returned Done, record_failure now now cb)"
    by (rule call_alone) (simp_all add: numeral_eq_Suc record_failure_def Let_def
        open_breaker_def elapsed_nanos_def)
  show "run_alone 12 now (Load_state CallState) cb =
     (Returned (Observed (fst (state now cb))), snd (state now cb))"
    by (rule call_alone) (simp_all add: numeral_eq_Suc state_def Let_def)
qed



definition single_probe :: CircuitBreakerConfig where
  "single_probe = \<lparr>failure_threshold = 1, recovery_timeout = 100, half_open_max_probes = 1\<rparr>"

text \<open>Thread 0 opens the breaker one nanosecond after its creation, and the timeout passes.\<close>

definition opening_run :: "action list" where
  "opening_run =
     [Tick 1, Begin 0 CallFailure, Step 0, Step 0, Step 0, Step 0, Step 0, Step 0, Step 0,
      Tick 100]"

lemma run_schedule_append:
  "run_schedule (as @ bs) s = Option.bind (run_schedule as s) (run_schedule bs)"
  by (induction as arbitrary: s) simp_all

definition breaker_with :: "u8 \<Rightarrow> u32 \<Rightarrow> u32 \<Rightarrow> u64 \<Rightarrow> CircuitBreaker" where
  "breaker_with code failures probes nanos =
     \<lparr>cb_config = single_probe, cb_state = code, consecutive_failures = failures,
      half_open_probes = probes, opened_at_nanos = nanos, created_at = 0\<rparr>"

definition opened :: system where
  "opened = \<lparr>shared = breaker_with OPEN_U8 1 0 1, threads = (\<lambda>_. Idle)(0 := Returned Done),
             clock = 101, slots = 0, trials = 0\<rparr>"

lemma breaker_with_simps [simp]:
  "cb_config (breaker_with c f p n) = single_probe" "cb_state (breaker_with c f p n) = c"
  "consecutive_failures (breaker_with c f p n) = f" "half_open_probes (breaker_with c f p n) = p"
  "opened_at_nanos (breaker_with c f p n) = n" "created_at (breaker_with c f p n) = 0"
  "cb_state_update g (breaker_with c f p n) = breaker_with (g c) f p n"
  "consecutive_failures_update h (breaker_with c f p n) = breaker_with c (h f) p n"
  "half_open_probes_update h (breaker_with c f p n) = breaker_with c f (h p) n"
  "opened_at_nanos_update k (breaker_with c f p n) = breaker_with c f p (k n)"
  by (simp_all add: breaker_with_def)

lemma opened_system: "run_schedule opening_run (system_new single_probe 0) = Some opened"
proof -
  have "circuit_breaker_new single_probe 0 = breaker_with CLOSED_U8 0 0 0"
    by (simp add: circuit_breaker_new_def breaker_with_def)
  then show ?thesis
    by (simp add: opening_run_def opened_def system_new_def step_thread_def elapsed_since_def
        elapsed_nanos_def saturating_add_def single_probe_def)
qed

lemma schedule_after_opening:
  "run_schedule as opened = Some s \<Longrightarrow> reachable single_probe 0 s"
  using run_schedule_reachable [OF reachable.start, where as = "opening_run @ as"]
  by (simp add: run_schedule_append opened_system)

text \<open>Thread 1 makes the breaker half open and pauses before its reset of the counter; thread 2
  takes the probe slot; thread 1 resets the counter and takes a slot too.\<close>

definition racing_probes :: "action list" where
  "racing_probes =
     [Begin 1 CallAllow, Step 1, Step 1, Step 1, Step 1,
      Begin 2 CallAllow, Step 2, Step 2, Step 2, Step 2,
      Step 1, Step 1, Step 1, Step 1, Step 1]"

lemma racing_probes_result:
  "run_schedule racing_probes opened =
     Some \<lparr>shared = breaker_with HALF_OPEN_U8 0 1 1, threads = (\<lambda>_. Idle)(0 := Returned Done,
             1 := Returned (Allowed True), 2 := Returned (Allowed True)), clock = 101, slots = 1, trials = 2\<rparr>"
  by (simp add: opened_def racing_probes_def step_thread_def recovery_due_def elapsed_since_def
      from_nanos_def elapsed_nanos_def saturating_add_def single_probe_def fun_upd_twist)


text \<open>Thread 1 is admitted as the probe; it reports a failure and pauses in \<open>open\<close> between publishing the
  open state and storing the new opening time; thread 2, which has made no call so far, asks.\<close>

definition probe_admitted :: "action list" where
  "probe_admitted =
     [Begin 1 CallAllow, Step 1, Step 1, Step 1, Step 1, Step 1, Step 1, Step 1, Step 1, Step 1]"

definition probe_fails :: "action list" where
  "probe_fails = [Begin 1 CallFailure, Step 1, Step 1, Step 1]"

definition other_asks :: "action list" where
  "other_asks =
     [Begin 2 CallAllow, Step 2, Step 2, Step 2, Step 2, Step 2, Step 2, Step 2, Step 2, Step 2,
      Step 1, Step 1, Step 1]"

definition paused :: "CircuitBreaker \<Rightarrow> pc \<Rightarrow> pc \<Rightarrow> nat \<Rightarrow> system" where
  "paused cb pc1 pc2 n =
     \<lparr>shared = cb, threads = (\<lambda>_. Idle)(0 := Returned Done, 1 := pc1, 2 := pc2), clock = 101,
      slots = unat (half_open_probes cb), trials = n\<rparr>"

lemmas schedule_simps = paused_def opened_def step_thread_def recovery_due_def elapsed_since_def
  from_nanos_def elapsed_nanos_def saturating_add_def single_probe_def fun_upd_twist

lemma racing_reopen_result:
  "run_schedule probe_admitted opened =
     Some (paused (breaker_with HALF_OPEN_U8 0 1 1) (Returned (Allowed True)) Idle 1)"
  "run_schedule probe_fails
     (paused (breaker_with HALF_OPEN_U8 0 1 1) (Returned (Allowed True)) Idle 1) =
     Some (paused (breaker_with OPEN_U8 0 1 1) Open_clock Idle 1)"
  "run_schedule other_asks (paused (breaker_with OPEN_U8 0 1 1) Open_clock Idle 1) =
     Some (paused (breaker_with HALF_OPEN_U8 0 0 101) (Returned Done) (Returned (Allowed True)) 1)"
  by (simp_all add: probe_admitted_def probe_fails_def other_asks_def schedule_simps)
    (simp add: fun_eq_iff)

text \<open>C21. The recovery timeout does not hold under concurrency. From a state in which thread 1 holds the
  only probe of a half-open breaker and thread 2 has made no call, thread 1 reports the probe's
  failure up to the step that publishes the open state; thread 2 then begins a request, is
  admitted, and thread 1 finishes, all at one clock reading and with a positive recovery timeout.
  For \<open>open\<close> publishes the open state before it stores the new opening time, and \<open>refresh_state\<close>
  reads the old one. Afterwards the stored opening time is that clock reading, yet the breaker is
  half open.\<close>
theorem recovery_timeout_broken_by_race:
  "\<exists>s0 s1 s2. reachable single_probe 0 s0 \<and> 0 < recovery_timeout single_probe \<and>
     threads s0 1 = Returned (Allowed True) \<and> trials s0 = 1 \<and> threads s0 2 = Idle \<and>
     from_u8 (cb_state (shared s0)) = HalfOpen \<and>
     run_schedule [Begin 1 CallFailure, Step 1, Step 1, Step 1] s0 = Some s1 \<and>
     from_u8 (cb_state (shared s1)) = Open \<and> threads s1 2 = Idle \<and>
     run_schedule
       [Begin 2 CallAllow, Step 2, Step 2, Step 2, Step 2, Step 2, Step 2, Step 2, Step 2, Step 2,
        Step 1, Step 1, Step 1] s1 = Some s2 \<and>
     threads s2 2 = Returned (Allowed True) \<and> threads s2 1 = Returned Done \<and>
     clock s2 = clock s0 \<and> unat (opened_at_nanos (shared s2)) = clock s2 \<and>
     from_u8 (cb_state (shared s2)) = HalfOpen"
  using schedule_after_opening [OF racing_reopen_result(1)] racing_reopen_result(2,3)
  unfolding probe_fails_def other_asks_def
  by (intro exI [of _ "paused (breaker_with HALF_OPEN_U8 0 1 1) (Returned (Allowed True)) Idle 1"]
      exI [of _ "paused (breaker_with OPEN_U8 0 1 1) Open_clock Idle 1"]
      exI [of _ "paused (breaker_with HALF_OPEN_U8 0 0 101) (Returned Done)
        (Returned (Allowed True)) 1"] conjI)
    (assumption | simp add: paused_def single_probe_def)+

end
