(* ===== verification/Server_Lifecycle.thy ===== *)
theory Server_Lifecycle
  imports Server_Security Discovery_Lifecycle Tls_Api
begin

text \<open>
  \<open>lib.rs\<close> of crate \<open>sdkwork-rpc-server\<close>: serving with graceful shutdown, with and without the
  discovery lifecycle, and the TLS settings of the listener. The futures that the code awaits
  (the bound listener, tonic's serve future, the shutdown signal) are given by when and how they
  complete; the run of a function is the list of its effects with their times, and its result,
  which is \<open>None\<close> if the function awaits a future that never completes.
\<close>

section \<open>Errors\<close>

datatype ServeError =
    ServeTransport string
  | DiscoveryDeregister string
  | Signal string

fun serve_error_display :: "ServeError \<Rightarrow> string" where
  "serve_error_display (ServeTransport m) = ''rpc server transport error: '' @ m"
| "serve_error_display (DiscoveryDeregister m) = ''rpc server discovery deregister error: '' @ m"
| "serve_error_display (Signal m) = ''rpc server signal handler error: '' @ m"

definition wait_for_ctrl_c :: "string + unit \<Rightarrow> ServeError + unit" where
  "wait_for_ctrl_c ctrl_c = map_err Signal ctrl_c"

section \<open>The environment of a server\<close>

text \<open>
  When a future completes, with its value; \<open>None\<close> if it never does. \<open>serve_alone\<close> is the serve
  future while no shutdown was requested, \<open>serve_after t\<close> the same future when shutdown is
  requested at time \<open>t\<close>. \<open>select_prefers_serve\<close> is the random choice of \<open>tokio::select!\<close> between
  two branches that are ready at once. \<open>deregister_latency\<close> is how long the deregister call takes.
\<close>

type_synonym 'a completion = "(instant \<times> 'a) option"

record server_env =
  tcp_bind :: "string \<Rightarrow> instant \<times> (string + unit)"
  serve_alone :: "(string + unit) completion"
  serve_after :: "instant \<Rightarrow> (string + unit) completion"
  shutdown_signal :: "unit completion"
  select_prefers_serve :: bool
  deregister_latency :: "duration option"

datatype server_event =
    RenewSpawned
  | Listening
  | ShutdownRequested
  | Drained
  | DrainExceeded duration
  | DeregisterCalled
  | RenewAborted

type_synonym server_trace = "(instant \<times> server_event) list"
type_synonym 'a run = "server_trace \<times> (ServeError + 'a) option"

section \<open>Awaiting\<close>

text \<open>Awaiting a future from time \<open>t\<close> on gives its value when it is ready, at \<open>t\<close> if it already is.\<close>

definition await_from :: "instant \<Rightarrow> 'a completion \<Rightarrow> 'a completion" where
  "await_from t f = map_option (\<lambda>(c, v). (max t c, v)) f"

text \<open>The two branches of \<open>select!\<close>: the serve future ended (or neither future ever completes), or
  the signal came first, at the given time.\<close>

definition served_until :: "server_env \<Rightarrow> instant \<Rightarrow> (string + unit) completion + instant" where
  "served_until E b =
     (case (await_from b (serve_alone E), await_from b (shutdown_signal E)) of
        (alone, None) \<Rightarrow> Inl alone
      | (None, Some (t, _)) \<Rightarrow> Inr t
      | (Some (e, r), Some (t, _)) \<Rightarrow>
          if e < t \<or> (e = t \<and> select_prefers_serve E) then Inl (Some (e, r)) else Inr t)"

text \<open>\<open>tokio::time::timeout\<close> polls the future before the timer: at the deadline the value wins.\<close>

definition timeout_from :: "instant \<Rightarrow> duration \<Rightarrow> 'a completion \<Rightarrow> instant \<times> 'a option" where
  "timeout_from t limit f =
     (case await_from t f of
        Some (c, v) \<Rightarrow> if c \<le> t + limit then (c, Some v) else (t + limit, None)
      | None \<Rightarrow> (t + limit, None))"

section \<open>Serving without discovery\<close>

definition serve_with_graceful_shutdown :: "server_env \<Rightarrow> string \<Rightarrow> unit run" where
  "serve_with_graceful_shutdown E bind_addr =
     (case tcp_bind E bind_addr of
        (_, Err msg) \<Rightarrow> ([], Some (Err (ServeTransport msg)))
      | (b, Ok _) \<Rightarrow>
          (case served_until E b of
             Inl res \<Rightarrow>
               ([(b, Listening)], map_option (\<lambda>(_, r). map_err ServeTransport r) res)
           | Inr t \<Rightarrow>
               ([(b, Listening), (t, ShutdownRequested)],
                map_option (\<lambda>(_, r). map_err ServeTransport r) (serve_after E t))))"

section \<open>Serving with the discovery lifecycle\<close>

text \<open>The code after the \<open>select!\<close>: deregister, then abort the renewal task.\<close>

definition leave_discovery ::
  "('ep, 'ch, 'tls, 'md, 'mv) externals \<Rightarrow> ('ch, 'md) registry \<Rightarrow> server_env
     \<Rightarrow> 'ch DiscoveryInstanceHandle \<Rightarrow> instant \<Rightarrow> unit run" where
  "leave_discovery X R E h t =
     (case deregister_latency E of
        None \<Rightarrow> ([(t, DeregisterCalled)], None)
      | Some d \<Rightarrow>
          (case deregister X R h of
             Err error \<Rightarrow>
               ([(t, DeregisterCalled), (t + d, RenewAborted)],
                Some (Err (DiscoveryDeregister (registration_error_display error))))
           | Ok _ \<Rightarrow> ([(t, DeregisterCalled), (t + d, RenewAborted)], Some (Ok ()))))"

definition prepend :: "server_trace \<Rightarrow> 'a run \<Rightarrow> 'a run" where
  "prepend tr r = (tr @ fst r, snd r)"

text \<open>The branch of the shutdown signal: request shutdown, drain, and go on unless serving failed.\<close>

definition drain_then ::
  "server_env \<Rightarrow> duration option \<Rightarrow> instant \<Rightarrow> (instant \<Rightarrow> unit run) \<Rightarrow> unit run" where
  "drain_then E drain_timeout t rest =
     prepend [(t, ShutdownRequested)]
       (case drain_timeout of
          Some limit \<Rightarrow>
            (case timeout_from t limit (serve_after E t) of
               (c, Some (Ok _)) \<Rightarrow> prepend [(c, Drained)] (rest c)
             | (c, Some (Err msg)) \<Rightarrow> ([], Some (Err (ServeTransport msg)))
             | (c, None) \<Rightarrow> prepend [(c, DrainExceeded limit)] (rest c))
        | None \<Rightarrow>
            (case await_from t (serve_after E t) of
               None \<Rightarrow> ([], None)
             | Some (c, Ok _) \<Rightarrow> prepend [(c, Drained)] (rest c)
             | Some (c, Err msg) \<Rightarrow> ([], Some (Err (ServeTransport msg)))))"

definition serve_with_discovery_lifecycle_and_renew_task ::
  "('ep, 'ch, 'tls, 'md, 'mv) externals \<Rightarrow> ('ch, 'md) registry \<Rightarrow> server_env \<Rightarrow> string
     \<Rightarrow> 'ch DiscoveryInstanceHandle \<Rightarrow> duration option \<Rightarrow> unit run" where
  "serve_with_discovery_lifecycle_and_renew_task X R E bind_addr h drain_timeout =
     (case tcp_bind E bind_addr of
        (_, Err msg) \<Rightarrow> ([], Some (Err (ServeTransport msg)))
      | (b, Ok _) \<Rightarrow>
          prepend [(b, Listening)]
            (case served_until E b of
               Inl None \<Rightarrow> ([], None)
             | Inl (Some (_, Err msg)) \<Rightarrow> ([], Some (Err (ServeTransport msg)))
             | Inl (Some (e, Ok _)) \<Rightarrow> leave_discovery X R E h e
             | Inr t \<Rightarrow> drain_then E drain_timeout t (leave_discovery X R E h)))"

text \<open>The renewal task is spawned at \<open>start\<close>, before the listener is bound.\<close>

definition serve_with_discovery_lifecycle ::
  "('ep, 'ch, 'tls, 'md, 'mv) externals \<Rightarrow> ('ch, 'md) registry \<Rightarrow> server_env \<Rightarrow> instant \<Rightarrow> string
     \<Rightarrow> 'ch DiscoveryInstanceHandle \<Rightarrow> duration option \<Rightarrow> unit run" where
  "serve_with_discovery_lifecycle X R E start bind_addr h drain_timeout =
     prepend [(start, RenewSpawned)]
       (serve_with_discovery_lifecycle_and_renew_task X R E bind_addr h drain_timeout)"

section \<open>TLS settings of the listener\<close>

record RpcServerTlsConfig =
  st_server_cert_path :: string
  st_server_key_path :: string
  st_client_ca_certificate_path :: "string option"
  st_client_auth_optional :: bool

definition server_tls_validate :: "file_system \<Rightarrow> RpcServerTlsConfig \<Rightarrow> ServeError + unit" where
  "server_tls_validate fs c =
     reject_if (\<not> path_exists fs (st_server_cert_path c))
       (ServeTransport (''tls server_cert_path does not exist: '' @ st_server_cert_path c))
     (reject_if (\<not> path_exists fs (st_server_key_path c))
       (ServeTransport (''tls server_key_path does not exist: '' @ st_server_key_path c))
     (case st_client_ca_certificate_path c of
        Some path \<Rightarrow>
          reject_if (\<not> path_exists fs path)
            (ServeTransport (''tls client_ca_certificate_path does not exist: '' @ path))
          (Ok ())
      | None \<Rightarrow> Ok ()))"

definition validate_mtls :: "file_system \<Rightarrow> RpcServerTlsConfig \<Rightarrow> ServeError + unit" where
  "validate_mtls fs c =
     reject_if (st_client_ca_certificate_path c = None)
       (ServeTransport ''strict mTLS requires client_ca_certificate_path'')
     (reject_if (st_client_auth_optional c)
       (ServeTransport ''strict mTLS requires client_auth_optional=false'')
     (server_tls_validate fs c))"

definition validate_mtls_listener ::
  "RpcInternalServiceSecurity \<Rightarrow> file_system \<Rightarrow> RpcServerTlsConfig \<Rightarrow> ServeError + unit" where
  "validate_mtls_listener s fs tls_config = validate_mtls fs tls_config"

definition apply_server_tls ::
  "file_system \<Rightarrow> ('id, 'pem) tonic_pem \<Rightarrow> ('id, 'pem, 'stls, 'srv) tonic_server_tls \<Rightarrow> 'srv
     \<Rightarrow> RpcServerTlsConfig \<Rightarrow> ServeError + 'srv" where
  "apply_server_tls fs P T builder config =
     and_then (server_tls_validate fs config) (\<lambda>_.
     and_then (read_file fs ServeTransport ''server cert'' (st_server_cert_path config)) (\<lambda>server_cert.
     and_then (read_file fs ServeTransport ''server key'' (st_server_key_path config)) (\<lambda>server_key.
     let tls = stls_identity T (identity_from_pem P server_cert server_key) (stls_new T)
     in and_then (case st_client_ca_certificate_path config of
            None \<Rightarrow> Ok tls
          | Some client_ca_path \<Rightarrow>
              and_then (read_file fs ServeTransport ''client ca'' client_ca_path) (\<lambda>ca_pem.
              Ok (stls_client_auth_optional T (st_client_auth_optional config)
                   (stls_client_ca_root T (certificate_from_pem P ca_pem) tls)))) (\<lambda>tls.
        map_err ServeTransport (srv_tls_config T tls builder)))))"

definition apply_server_tls_no_tls :: "'srv \<Rightarrow> RpcServerTlsConfig \<Rightarrow> ServeError + 'srv" where
  "apply_server_tls_no_tls builder config =
     Err (ServeTransport (''tls config supplied but the `tls` cargo feature is not enabled; '' @
       ''enable `sdkwork-rpc-server/tls` for production TLS/mTLS''))"

section \<open>Stages of a run\<close>

fun stage_of :: "server_event \<Rightarrow> string option" where
  "stage_of ShutdownRequested = Some STAGE_DRAIN_RPC_SERVERS"
| "stage_of DeregisterCalled = Some STAGE_DEREGISTER_DISCOVERY_INSTANCE"
| "stage_of RenewAborted = Some STAGE_STOP_DISCOVERY_RENEW_LOOP"
| "stage_of _ = None"

definition stages :: "server_trace \<Rightarrow> string list" where
  "stages tr = concat (map (\<lambda>(t, e). case stage_of e of None \<Rightarrow> [] | Some s \<Rightarrow> [s]) tr)"

definition signalled :: "server_env \<Rightarrow> string \<Rightarrow> bool" where
  "signalled E bind_addr =
     (case tcp_bind E bind_addr of
        (b, Ok _) \<Rightarrow> (case served_until E b of Inr _ \<Rightarrow> True | Inl _ \<Rightarrow> False)
      | _ \<Rightarrow> False)"

lemma stages_simps [simp]:
  "stages [] = []"
  "stages ((t, e) # tr) = (case stage_of e of None \<Rightarrow> stages tr | Some s \<Rightarrow> s # stages tr)"
  "stages (tr @ tr') = stages tr @ stages tr'"
  by (simp_all add: stages_def split: option.split)

lemma await_from_ge: "await_from t f = Some (c, v) \<Longrightarrow> t \<le> c"
  by (auto simp: await_from_def)

lemma timeout_from_bounds: "timeout_from t limit f = (c, v) \<Longrightarrow> t \<le> c \<and> c \<le> t + limit"
  by (auto simp: timeout_from_def dest: await_from_ge split: option.splits if_splits)

lemma served_until_ge:
  "served_until E b = Inr t \<Longrightarrow> b \<le> t" "served_until E b = Inl (Some (e, r)) \<Longrightarrow> b \<le> e"
  by (auto simp: served_until_def await_from_def split: option.splits if_splits)

text \<open>What follows the last request: nothing after an error of the server, else the two stages.\<close>

definition closing_stages :: "(ServeError + unit) option \<Rightarrow> string list \<Rightarrow> bool" where
  "closing_stages outcome ss =
     (case outcome of
        Some (Err (ServeTransport _)) \<Rightarrow> ss = []
      | Some (Err (Signal _)) \<Rightarrow> False
      | Some _ \<Rightarrow> ss = tl SHUTDOWN_STAGES
      | None \<Rightarrow> ss \<in> {[], [STAGE_DEREGISTER_DISCOVERY_INSTANCE]})"

text \<open>A run from time \<open>t\<close> on: its closing stages and its times.\<close>

definition closes :: "instant \<Rightarrow> string list \<Rightarrow> unit run \<Rightarrow> bool" where
  "closes t ss r \<longleftrightarrow>
     (\<exists>rest. stages (fst r) = ss @ rest \<and> closing_stages (snd r) rest) \<and> sorted (t # map fst (fst r))"

lemma closes_error: "closes t [] ([], Some (Err (ServeTransport m)))" "closes t [] ([], None)"
  by (simp_all add: closes_def closing_stages_def)

lemma closes_leave: "closes t [] (leave_discovery X R E h t)"
  by (auto simp: closes_def leave_discovery_def closing_stages_def SHUTDOWN_STAGES_def
      split: option.splits sum.splits)

lemma closes_prepend:
  assumes "t \<le> c" and "closes c ss r"
  shows "closes t (stages [(c, e)] @ ss) (prepend [(c, e)] r)"
  using assms by (auto simp: closes_def prepend_def split: option.splits)

lemma closes_drain:
  assumes "\<And>c. closes c [] (rest c)"
  shows "closes t [STAGE_DRAIN_RPC_SERVERS] (drain_then E drain_timeout t rest)"
proof -
  have go_on: "closes t [] (prepend [(c, e)] (rest c))"
    if "t \<le> c" and "stage_of e = None" for c e
    using closes_prepend [OF that(1) assms [of c], of e] that(2) by simp
  have "closes t []
      (case drain_timeout of
         Some limit \<Rightarrow>
           (case timeout_from t limit (serve_after E t) of
              (c, Some (Ok _)) \<Rightarrow> prepend [(c, Drained)] (rest c)
            | (c, Some (Err msg)) \<Rightarrow> ([], Some (Err (ServeTransport msg)))
            | (c, None) \<Rightarrow> prepend [(c, DrainExceeded limit)] (rest c))
       | None \<Rightarrow>
           (case await_from t (serve_after E t) of
              None \<Rightarrow> ([], None)
            | Some (c, Ok _) \<Rightarrow> prepend [(c, Drained)] (rest c)
            | Some (c, Err msg) \<Rightarrow> ([], Some (Err (ServeTransport msg)))))"
    by (auto simp: closes_error intro!: go_on dest: timeout_from_bounds await_from_ge
        split: option.splits sum.splits prod.splits)
  then show ?thesis
    using closes_prepend [of t t "[]" _ ShutdownRequested] by (simp add: drain_then_def)
qed

text \<open>C12. Shutdown order. A run of the server with discovery goes through the stages in the order of
  \<open>SHUTDOWN_STAGES\<close>: the drain stage first, exactly if the shutdown signal came before the server
  ended by itself; then deregistration and only after it the end of the renewal task. A run that
  returns success or a deregistration error has gone through both of these; a run that returns a
  transport error (bind, serve or drain failed) has gone through neither, so the instance stays
  registered and its renewal task running. Times do not decrease along the run.\<close>
theorem shutdown_in_order:
  "case serve_with_discovery_lifecycle X R E start bind_addr h drain_timeout of
     (trace, outcome) \<Rightarrow>
       (\<exists>rest. stages trace =
            (if signalled E bind_addr then [hd SHUTDOWN_STAGES] else []) @ rest \<and>
          (case outcome of
             Some (Err (ServeTransport _)) \<Rightarrow> rest = []
           | Some (Err (Signal _)) \<Rightarrow> False
           | Some _ \<Rightarrow> rest = tl SHUTDOWN_STAGES
           | None \<Rightarrow> rest \<in> {[], [STAGE_DEREGISTER_DISCOVERY_INSTANCE]})) \<and>
       sorted (map fst (tl trace))"
  (is "case ?run of (trace, outcome) \<Rightarrow> ?P trace outcome")
proof -
  obtain b r where bind: "tcp_bind E bind_addr = (b, r)" by (cases "tcp_bind E bind_addr")
  have "closes b (if signalled E bind_addr then [STAGE_DRAIN_RPC_SERVERS] else [])
      (serve_with_discovery_lifecycle_and_renew_task X R E bind_addr h drain_timeout)"
  proof (cases r)
    case (Inl msg)
    then show ?thesis
      by (simp add: serve_with_discovery_lifecycle_and_renew_task_def signalled_def bind closes_error)
  next
    case (Inr u)
    let ?body = "case served_until E b of
         Inl None \<Rightarrow> ([], None)
       | Inl (Some (_, Err msg)) \<Rightarrow> ([], Some (Err (ServeTransport msg)))
       | Inl (Some (e, Ok _)) \<Rightarrow> leave_discovery X R E h e
       | Inr t \<Rightarrow> drain_then E drain_timeout t (leave_discovery X R E h)"
    have later: "closes t ss run \<Longrightarrow> b \<le> t \<Longrightarrow> closes b ss run" for t ss run
      by (auto simp: closes_def)
    have "closes b (if signalled E bind_addr then [STAGE_DRAIN_RPC_SERVERS] else []) ?body"
      using served_until_ge [of E b]
      by (auto simp: signalled_def bind Inr closes_error
          intro: later [OF closes_leave] later [OF closes_drain [OF closes_leave]]
          split: sum.splits option.splits)
    from closes_prepend [OF order_refl this, of Listening] show ?thesis
      by (simp add: serve_with_discovery_lifecycle_and_renew_task_def bind Inr)
  qed
  then show ?thesis
    by (auto simp: serve_with_discovery_lifecycle_def prepend_def closes_def closing_stages_def
        SHUTDOWN_STAGES_def split: prod.splits)
qed

section \<open>The drain timeout\<close>

lemma leave_discovery_bounded:
  assumes "deregister_latency E = Some d" and "c \<le> m"
  shows "snd (leave_discovery X R E h c) \<noteq> None"
    and "list_all (\<lambda>(t, e). t \<le> m + d) (fst (leave_discovery X R E h c))"
    and "(c, DeregisterCalled) \<in> set (fst (leave_discovery X R E h c))"
  using assms by (auto simp: leave_discovery_def split: sum.splits)

lemma served_until_signal:
  assumes "shutdown_signal E = Some (t, ())" and "b \<le> t"
    and "case serve_alone E of None \<Rightarrow> True | Some (e, r) \<Rightarrow> t < e"
  shows "served_until E b = Inr t"
  using assms by (auto simp: served_until_def await_from_def split: option.splits)


definition stuck_server :: server_env where
  "stuck_server =
     \<lparr>tcp_bind = (\<lambda>_. (5, Ok ())), serve_alone = None, serve_after = (\<lambda>_. None),
      shutdown_signal = Some (100, ()), select_prefers_serve = False,
      deregister_latency = Some 3\<rparr>"


section \<open>Strict mTLS\<close>

lemma server_tls_validate_Ok_iff:
  "server_tls_validate fs c = Ok u \<longleftrightarrow>
     path_exists fs (st_server_cert_path c) \<and> path_exists fs (st_server_key_path c) \<and>
     (case st_client_ca_certificate_path c of None \<Rightarrow> True | Some path \<Rightarrow> path_exists fs path)"
  by (auto simp: server_tls_validate_def result_simps split: option.splits)

text \<open>C32. A listener that passes the check of the internal-service security and to which the TLS
  settings were applied demands client certificates: the builder got the client CA of the
  configuration and \<open>client_auth_optional(false)\<close>, beside the server's own certificate and key, all
  read from files that exist.\<close>
theorem strict_listener_demands_client_certificate:
  assumes "validate_mtls_listener s fs c = Ok ()" and "apply_server_tls fs P T builder c = Ok server"
  shows "\<exists>ca_path ca cert key.
    st_client_ca_certificate_path c = Some ca_path \<and> path_exists fs ca_path \<and>
    fs_read fs ca_path = Ok ca \<and> fs_read fs (st_server_cert_path c) = Ok cert \<and>
    fs_read fs (st_server_key_path c) = Ok key \<and>
    srv_tls_config T
      (stls_client_auth_optional T False
        (stls_client_ca_root T (certificate_from_pem P ca)
          (stls_identity T (identity_from_pem P cert key) (stls_new T)))) builder = Ok server"
proof -
  have "\<not> st_client_auth_optional c" and "st_client_ca_certificate_path c \<noteq> None"
    and "server_tls_validate fs c = Ok ()"
    using assms(1) by (simp_all add: validate_mtls_listener_def validate_mtls_def result_simps)
  with assms(2) show ?thesis
    by (auto simp: apply_server_tls_def result_simps Let_def server_tls_validate_Ok_iff)
qed

definition sample_files :: file_system where
  "sample_files = files_of [(''tls.crt'', ''CRT''), (''tls.key'', ''KEY''), (''ca.crt'', ''CA'')]"

definition sample_server_tls :: RpcServerTlsConfig where
  "sample_server_tls =
     \<lparr>st_server_cert_path = ''tls.crt'', st_server_key_path = ''tls.key'',
      st_client_ca_certificate_path = Some ''ca.crt'', st_client_auth_optional = False\<rparr>"

theorem strict_listener_demands_client_certificate_witness:
  "apply_server_tls sample_files reference_pem reference_server_tls [] sample_server_tls =
     Ok [TlsIdentity ''CRT'' ''KEY'', TlsCaRoot ''CA'', TlsAuthOptional False]"
proof -
  have "validate_mtls_listener (security_new P None) sample_files sample_server_tls = Ok ()" for P
    by (simp add: validate_mtls_listener_def validate_mtls_def server_tls_validate_def
        sample_files_def files_of_def sample_server_tls_def)
  moreover have "is_ok (apply_server_tls sample_files reference_pem reference_server_tls []
      sample_server_tls)"
    by (simp add: apply_server_tls_def server_tls_validate_def sample_files_def files_of_def
        sample_server_tls_def reference_server_tls_def read_file_def)
  then obtain server where
    "apply_server_tls sample_files reference_pem reference_server_tls [] sample_server_tls = Ok server"
    by (auto simp: is_ok_iff)
  ultimately show ?thesis
    using strict_listener_demands_client_certificate [of "security_new undefined None" sample_files
        sample_server_tls reference_pem reference_server_tls "[]" server]
    by (simp add: sample_files_def files_of_def sample_server_tls_def reference_pem_def
        reference_server_tls_def)
qed

end
