(* ===== verification/Rust_F64.thy ===== *)
theory Rust_F64
  imports RPC_Prelude Complex_Main "HOL-Library.Log_Nat"
begin

text \<open>
  The binary64 arithmetic that the retry budget uses: addition, subtraction, multiplication,
  division, comparison and \<open>f64::min\<close>, each rounded to nearest with ties to even at 53 bits, with
  gradual underflow at \<open>2 ^ -1074\<close> and overflow to an infinity at \<open>2 ^ 1024\<close>. The sign of a zero is
  not kept, which no operation used here can tell. The locale \<open>rounded\<close> is what the budget relies
  on; it is interpreted on \<open>round64\<close>.
\<close>

datatype f64 = Fin rat | PosInf | NegInf | NaN

section \<open>Rounding\<close>

definition round_half_even :: "rat \<Rightarrow> int" where
  "round_half_even y =
     (let f = \<lfloor>y\<rfloor>; d = y - of_int f
      in if d < 1 / 2 then f else if 1 / 2 < d then f + 1 else if even f then f else f + 1)"

text \<open>The \<open>e\<close> with \<open>2 ^ e \<le> |x| < 2 ^ (e + 1)\<close>.\<close>

definition exponent :: "rat \<Rightarrow> int" where
  "exponent x =
     (let (a, b) = quotient_of \<bar>x\<bar>; e = bitlen a - bitlen b
      in if power_int 2 e \<le> \<bar>x\<bar> then e else e - 1)"

definition f64_limit :: rat where
  "f64_limit = 2 ^ 1024"

definition round64 :: "rat \<Rightarrow> f64" where
  "round64 x =
     (if x = 0 then Fin 0
      else let q = power_int 2 (max (exponent x - 52) (- 1074));
               y = of_int (round_half_even (x / q)) * q
           in if f64_limit \<le> y then PosInf else if y \<le> - f64_limit then NegInf else Fin y)"

section \<open>Operations\<close>

fun f64_add :: "f64 \<Rightarrow> f64 \<Rightarrow> f64" where
  "f64_add NaN _ = NaN"
| "f64_add _ NaN = NaN"
| "f64_add (Fin a) (Fin b) = round64 (a + b)"
| "f64_add PosInf NegInf = NaN"
| "f64_add NegInf PosInf = NaN"
| "f64_add PosInf _ = PosInf"
| "f64_add NegInf _ = NegInf"
| "f64_add _ PosInf = PosInf"
| "f64_add _ NegInf = NegInf"

fun f64_neg :: "f64 \<Rightarrow> f64" where
  "f64_neg (Fin a) = Fin (- a)"
| "f64_neg PosInf = NegInf"
| "f64_neg NegInf = PosInf"
| "f64_neg NaN = NaN"

definition f64_sub :: "f64 \<Rightarrow> f64 \<Rightarrow> f64" where
  "f64_sub a b = f64_add a (f64_neg b)"

definition signed_inf :: "rat \<Rightarrow> f64" where
  "signed_inf a = (if a = 0 then NaN else if 0 < a then PosInf else NegInf)"

fun f64_mul :: "f64 \<Rightarrow> f64 \<Rightarrow> f64" where
  "f64_mul NaN _ = NaN"
| "f64_mul _ NaN = NaN"
| "f64_mul (Fin a) (Fin b) = round64 (a * b)"
| "f64_mul (Fin a) PosInf = signed_inf a"
| "f64_mul (Fin a) NegInf = signed_inf (- a)"
| "f64_mul PosInf (Fin b) = signed_inf b"
| "f64_mul NegInf (Fin b) = signed_inf (- b)"
| "f64_mul PosInf PosInf = PosInf"
| "f64_mul NegInf NegInf = PosInf"
| "f64_mul _ _ = NegInf"

fun f64_le :: "f64 \<Rightarrow> f64 \<Rightarrow> bool" where
  "f64_le NaN _ = False"
| "f64_le _ NaN = False"
| "f64_le NegInf _ = True"
| "f64_le _ PosInf = True"
| "f64_le (Fin a) (Fin b) = (a \<le> b)"
| "f64_le _ _ = False"

definition f64_less :: "f64 \<Rightarrow> f64 \<Rightarrow> bool" where
  "f64_less a b \<longleftrightarrow> f64_le a b \<and> \<not> f64_le b a"

text \<open>The arithmetic and the comparisons as class operations, so that definitions read like the code.
  Neither is an ordered field: NaN is not equal to itself in Rust and no law of the classes with
  laws holds for all values.\<close>

instantiation f64 :: "{plus, minus, times, ord}"
begin

definition plus_f64 :: "f64 \<Rightarrow> f64 \<Rightarrow> f64" where "plus_f64 = f64_add"

definition minus_f64 :: "f64 \<Rightarrow> f64 \<Rightarrow> f64" where "minus_f64 = f64_sub"

definition times_f64 :: "f64 \<Rightarrow> f64 \<Rightarrow> f64" where "times_f64 = f64_mul"

definition less_eq_f64 :: "f64 \<Rightarrow> f64 \<Rightarrow> bool" where "less_eq_f64 = f64_le"

definition less_f64 :: "f64 \<Rightarrow> f64 \<Rightarrow> bool" where "less_f64 = f64_less"

instance ..

end

lemmas f64_class_defs [simp] =
  plus_f64_def minus_f64_def times_f64_def less_eq_f64_def less_f64_def

text \<open>\<open>f64::min\<close> gives the other argument if one is NaN.\<close>

definition f64_min :: "f64 \<Rightarrow> f64 \<Rightarrow> f64" where
  "f64_min a b = (if a = NaN then b else if b = NaN then a else if f64_le a b then a else b)"

definition f64_of_u32 :: "u32 \<Rightarrow> f64" where
  "f64_of_u32 n = round64 (of_nat (unat n))"

text \<open>\<open>Duration::as_secs_f64\<close>: whole seconds plus nanoseconds over a billion.\<close>

definition as_secs_f64 :: "duration \<Rightarrow> f64" where
  "as_secs_f64 d =
     f64_add (round64 (of_nat (as_secs d))) (round64 (of_nat (d mod 10 ^ 9) / 10 ^ 9))"

section \<open>Facts about rounding\<close>

lemma round_half_even_of_int [simp]: "round_half_even (of_int n) = n"
  by (simp add: round_half_even_def)

lemma round_half_even_bounds:
  "of_int n \<le> y \<Longrightarrow> n \<le> round_half_even y" "y \<le> of_int n \<Longrightarrow> round_half_even y \<le> n"
proof -
  assume "of_int n \<le> y"
  then have "n \<le> \<lfloor>y\<rfloor>" by (simp add: le_floor_iff)
  then show "n \<le> round_half_even y" by (auto simp: round_half_even_def Let_def)
next
  assume le: "y \<le> of_int n"
  then have "\<lfloor>y\<rfloor> \<le> n" by (simp add: floor_le_iff)
  moreover have "\<lfloor>y\<rfloor> = n \<Longrightarrow> y = of_int n" using le by linarith
  ultimately show "round_half_even y \<le> n"
    by (cases "\<lfloor>y\<rfloor> = n") (auto simp: round_half_even_def Let_def)
qed

lemma f64_limit_pos: "0 < f64_limit"
  unfolding f64_limit_def by (rule zero_less_power) simp

lemma f64_limit_big: "2 ^ 53 < f64_limit"
  unfolding f64_limit_def by (rule power_strict_increasing) simp_all

lemma power_int_2_pos: "0 < power_int (2::rat) e"
  by (simp add: power_int_def)

lemma exponent_le:
  assumes "0 < x"
  shows "power_int 2 (exponent x) \<le> x"
proof -
  obtain a b where q: "quotient_of x = (a, b)" by (cases "quotient_of x")
  have b: "0 < b" and x: "x = of_int a / of_int b"
    using quotient_of_denom_pos [OF q] quotient_of_div [OF q] by simp_all
  then have a: "0 < a" using assms by (simp add: zero_less_divide_iff)
  have bits: "1 \<le> bitlen a" "1 \<le> bitlen b"
    using a b bitlen_nonneg [of a] bitlen_nonneg [of b] bitlen_eq_zero_iff [of a]
      bitlen_eq_zero_iff [of b] by linarith+
  have "power_int 2 (bitlen a - bitlen b - 1) \<le> x"
  proof -
    have "(2::rat) ^ nat (bitlen a - 1) \<le> of_int a"
      using bitlen_bounds [OF a] by (metis of_int_le_iff of_int_numeral of_int_power)
    moreover have "of_int b \<le> (2::rat) ^ nat (bitlen b)"
      using bitlen_bounds [OF b] by (metis less_imp_le of_int_le_iff of_int_numeral of_int_power)
    ultimately have "(2::rat) ^ nat (bitlen a - 1) / 2 ^ nat (bitlen b) \<le> x"
      unfolding x using b a by (intro frac_le) simp_all
    moreover have "power_int (2::rat) (bitlen a - bitlen b - 1) =
        2 ^ nat (bitlen a - 1) / 2 ^ nat (bitlen b)"
    proof -
      have "power_int (2::rat) (bitlen a - bitlen b - 1) =
          power_int 2 ((bitlen a - 1) - bitlen b)" by (simp add: algebra_simps)
      also have "\<dots> = power_int 2 (bitlen a - 1) / power_int 2 (bitlen b)"
        by (rule power_int_diff) simp
      finally show ?thesis using bits by (simp add: power_int_def)
    qed
    ultimately show ?thesis by simp
  qed
  then show ?thesis using assms by (simp add: exponent_def q Let_def)
qed

lemma quantum_fraction:
  assumes "0 < x" and "x < 2 ^ 53"
  obtains k where "power_int 2 (max (exponent x - 52) (- 1074)) = (1 / 2 ^ k :: rat)"
proof -
  have "exponent x < 53"
  proof (rule ccontr)
    assume "\<not> exponent x < 53"
    then have "power_int (2::rat) 53 \<le> power_int 2 (exponent x)"
      by (intro power_int_increasing) simp_all
    with exponent_le [OF assms(1)] assms(2) show False by simp
  qed
  then have "max (exponent x - 52) (- 1074) \<le> 0" by simp
  then have "power_int (2::rat) (max (exponent x - 52) (- 1074)) =
      1 / 2 ^ nat (- max (exponent x - 52) (- 1074))"
    by (simp add: power_int_def power_one_over inverse_eq_divide)
  then show thesis by (rule that)
qed

lemma round64_le_int:
  assumes "0 \<le> x" and "x \<le> of_int n" and "n < 2 ^ 53"
  shows "\<exists>y. round64 x = Fin y \<and> 0 \<le> y \<and> y \<le> of_int n"
proof (cases "x = 0")
  case False
  with assms(1) have pos: "0 < x" by simp
  have n53: "(of_int n :: rat) < 2 ^ 53"
    using assms(3) by (metis of_int_less_iff of_int_numeral of_int_power)
  obtain k where k: "power_int 2 (max (exponent x - 52) (- 1074)) = (1 / 2 ^ k :: rat)"
    using quantum_fraction [OF pos] assms(2) n53 by (metis le_less_trans)
  have "round_half_even (x * 2 ^ k) \<le> n * 2 ^ k" and "0 \<le> round_half_even (x * 2 ^ k)"
    using assms(1,2) by (auto intro!: round_half_even_bounds mult_right_mono)
  then have y: "0 \<le> of_int (round_half_even (x * 2 ^ k)) / (2 ^ k :: rat)"
    and le: "of_int (round_half_even (x * 2 ^ k)) / (2 ^ k :: rat) \<le> of_int n"
    by (simp_all add: divide_le_eq)
      (metis (mono_tags, lifting) of_int_le_iff of_int_mult of_int_numeral of_int_power)
  have "of_int (round_half_even (x * 2 ^ k)) / 2 ^ k < f64_limit"
    using le n53 f64_limit_big by linarith
  moreover have "- f64_limit < of_int (round_half_even (x * 2 ^ k)) / (2 ^ k :: rat)"
    using y f64_limit_pos by linarith
  ultimately show ?thesis
    using y le False by (simp add: round64_def k Let_def)
qed (use assms in \<open>simp add: round64_def\<close>)

lemma round64_of_int:
  assumes "0 \<le> n" and "n < 2 ^ 53"
  shows "round64 (of_int n) = Fin (of_int n)"
proof (cases "n = 0")
  case False
  have n53: "(of_int n :: rat) < 2 ^ 53"
    using assms(2) by (metis of_int_less_iff of_int_numeral of_int_power)
  obtain k where k: "power_int 2 (max (exponent (of_int n) - 52) (- 1074)) = (1 / 2 ^ k :: rat)"
    using quantum_fraction [of "of_int n"] assms(1) False n53 by auto
  have "round_half_even (of_int n * 2 ^ k) = n * 2 ^ k"
    using round_half_even_of_int [of "n * 2 ^ k"] by simp
  moreover have "\<not> f64_limit \<le> of_int n"
    using n53 f64_limit_big by linarith
  moreover have "(0::rat) \<le> of_int n" using assms(1) by simp
  then have "\<not> of_int n \<le> - f64_limit"
    using f64_limit_pos by linarith
  ultimately show ?thesis
    using False by (simp add: round64_def k Let_def)
qed (simp add: round64_def)

lemma round64_nonneg:
  assumes "0 \<le> x"
  shows "round64 x = PosInf \<or> (\<exists>y. round64 x = Fin y \<and> 0 \<le> y)"
proof -
  have "0 \<le> round_half_even (x / q)" if "0 < q" for q
    using assms that round_half_even_bounds(1) [of 0] by simp
  then have "0 \<le> (of_int (round_half_even (x / power_int 2 e)) * power_int 2 e :: rat)" for e
    using power_int_2_pos by (simp add: less_imp_le)
  moreover have "\<not> z \<le> - f64_limit" if "0 \<le> z" for z
    using that f64_limit_pos by linarith
  ultimately show ?thesis by (simp add: round64_def Let_def)
qed

section \<open>The rounding error\<close>

text \<open>The relative error of a normal and the absolute error of a subnormal result.\<close>

definition eps64 :: rat where "eps64 = 1 / 2 ^ 53"
definition tiny64 :: rat where "tiny64 = 1 / 2 ^ 1075"

lemma error_units_pos: "0 < eps64" "0 < tiny64"
  unfolding eps64_def tiny64_def by (intro divide_pos_pos zero_less_power; simp)+

text \<open>\<open>below64 a r\<close>: the number is at most \<open>r\<close>; positive infinity stands for what exceeds the range.\<close>

fun below64 :: "f64 \<Rightarrow> rat \<Rightarrow> bool" where
  "below64 (Fin y) r = (y \<le> r)"
| "below64 PosInf r = (f64_limit \<le> r)"
| "below64 NegInf r = True"
| "below64 NaN r = False"

lemma round_half_even_error: "of_int (round_half_even y) \<le> y + 1 / 2"
proof -
  have "of_int \<lfloor>y\<rfloor> \<le> y + 1 / 2" using of_int_floor_le [of y] by linarith
  moreover have "of_int (\<lfloor>y\<rfloor> + 1) \<le> y + 1 / 2" if "1 / 2 \<le> y - of_int \<lfloor>y\<rfloor>"
    using that by simp
  ultimately show ?thesis
    unfolding round_half_even_def Let_def by (auto simp: not_less)
qed

lemma power_int_2_le:
  assumes "0 < x"
  shows "power_int 2 (max (exponent x - 52) (- 1074)) / 2 \<le> x * eps64 + tiny64"
proof (cases "- 1074 \<le> exponent x - 52")
  case True
  have "power_int (2::rat) (exponent x - 52) = power_int 2 (exponent x) / 2 ^ 52"
    by (simp add: power_int_diff)
  also have "\<dots> \<le> x / 2 ^ 52"
    using exponent_le [OF assms] by (intro divide_right_mono) simp_all
  finally have "power_int 2 (exponent x - 52) / 2 \<le> x * eps64"
    by (simp add: eps64_def)
  moreover have "max (exponent x - 52) (- 1074) = exponent x - 52" using True by linarith
  ultimately show ?thesis using error_units_pos(2) by simp
next
  case False
  have "power_int (2::rat) (- 1074) / 2 = tiny64"
  proof -
    have "power_int (2::rat) (- 1074) = inverse (2 ^ 1074)"
      unfolding power_int_minus by simp
    moreover have "(2::rat) ^ 1075 = 2 * 2 ^ 1074"
      using power_Suc [of "2::rat" 1074] by (simp only: numeral_eq_Suc) simp
    ultimately show ?thesis
      unfolding tiny64_def by (simp only: divide_inverse inverse_mult_distrib) simp
  qed
  moreover have "max (exponent x - 52) (- 1074) = - 1074" using False by linarith
  moreover have "0 < x * eps64" using assms error_units_pos(1) by (rule mult_pos_pos)
  ultimately show ?thesis by simp
qed

lemma round64_below:
  assumes "0 \<le> x"
  shows "below64 (round64 x) (x + x * eps64 + tiny64)"
proof (cases "x = 0")
  case False
  with assms have pos: "0 < x" by simp
  define q :: rat where "q = power_int 2 (max (exponent x - 52) (- 1074))"
  have q: "0 < q" unfolding q_def by (rule power_int_2_pos)
  define y where "y = of_int (round_half_even (x / q)) * q"
  have "y \<le> (x / q + 1 / 2) * q"
    unfolding y_def using q round_half_even_error [of "x / q"] by (intro mult_right_mono) simp_all
  also have "\<dots> = x + q / 2" using q by (simp add: field_simps)
  also have "\<dots> \<le> x + x * eps64 + tiny64"
    using power_int_2_le [OF pos] unfolding q_def by linarith
  finally have "y \<le> x + x * eps64 + tiny64" .
  moreover have "round64 x = (if f64_limit \<le> y then PosInf else if y \<le> - f64_limit then NegInf else Fin y)"
    using False by (simp add: round64_def Let_def y_def q_def)
  ultimately show ?thesis by auto
qed (use error_units_pos in \<open>simp add: round64_def less_imp_le\<close>)

lemma as_secs_f64_zero: "as_secs_f64 0 = Fin 0"
  by (simp add: as_secs_f64_def as_secs_def round64_def)

section \<open>The contract\<close>

locale rounded =
  fixes rnd :: "rat \<Rightarrow> f64"
  assumes rnd_of_int: "0 \<le> n \<Longrightarrow> n < 2 ^ 53 \<Longrightarrow> rnd (of_int n) = Fin (of_int n)"
    and rnd_le_int: "0 \<le> x \<Longrightarrow> x \<le> of_int n \<Longrightarrow> n < 2 ^ 53 \<Longrightarrow>
      \<exists>y. rnd x = Fin y \<and> 0 \<le> y \<and> y \<le> of_int n"
    and rnd_nonneg: "0 \<le> x \<Longrightarrow> rnd x = PosInf \<or> (\<exists>y. rnd x = Fin y \<and> 0 \<le> y)"
    and rnd_below: "0 \<le> x \<Longrightarrow> below64 (rnd x) (x + x * eps64 + tiny64)"
begin

lemma rnd_of_nat: "n < 2 ^ 53 \<Longrightarrow> rnd (of_nat n) = Fin (of_nat n)"
  using rnd_of_int [of "int n"] by simp

lemma rnd_of_u32: "rnd (of_nat (unat (c :: u32))) = Fin (of_nat (unat c))"
  using unat_less_range [of c] by (intro rnd_of_nat) simp

lemma rnd_le_u32:
  assumes "0 \<le> x" and "x \<le> of_nat (unat (c :: u32))"
  obtains y where "rnd x = Fin y" and "0 \<le> y" and "y \<le> of_nat (unat c)"
proof -
  have "unat c < 2 ^ 53" using unat_less_range [of c] by simp
  then have "int (unat c) < 2 ^ 53" by (metis of_nat_less_iff of_nat_numeral of_nat_power)
  with rnd_le_int [of x "int (unat c)"] assms that show thesis
    unfolding of_int_of_nat_eq by blast
qed

end

interpretation binary64: rounded round64
  by unfold_locales (fact round64_of_int, fact round64_le_int, fact round64_nonneg, fact round64_below)

end
