(* ===== verification/Retry_Budget.thy ===== *)
theory Retry_Budget
  imports Rust_F64
begin

text \<open>
  \<open>retry_budget.rs\<close> of crate \<open>sdkwork-rpc-client\<close>: the process-wide registry of retry token
  buckets, one per service name. The mutex makes each call one step on the map of buckets; the
  readings of the monotonic clock in a call are arguments. Token counts are binary64 numbers.
\<close>

section \<open>Buckets\<close>

record RetryBudgetConfig =
  capacity :: u32
  refill_per_second :: f64

definition budget_config_default :: RetryBudgetConfig where
  "budget_config_default = \<lparr>capacity = 100, refill_per_second = Fin 10\<rparr>"

record TokenBucket =
  tokens :: f64
  last_refill :: instant

definition bucket_new :: "u32 \<Rightarrow> instant \<Rightarrow> TokenBucket" where
  "bucket_new filled_to now = \<lparr>tokens = f64_of_u32 filled_to, last_refill = now\<rparr>"

definition refill :: "RetryBudgetConfig \<Rightarrow> instant \<Rightarrow> TokenBucket \<Rightarrow> TokenBucket" where
  "refill config now b =
     (let elapsed = as_secs_f64 (elapsed_since (last_refill b) now)
      in if Fin 0 < elapsed
         then let added = elapsed * refill_per_second config
              in b\<lparr>tokens := f64_min (tokens b + added) (f64_of_u32 (capacity config)),
                   last_refill := now\<rparr>
         else b)"

definition try_consume :: "TokenBucket \<Rightarrow> bool \<times> TokenBucket" where
  "try_consume b =
     (if Fin 1 \<le> tokens b then (True, b\<lparr>tokens := tokens b - Fin 1\<rparr>)
      else (False, b))"

section \<open>The registry\<close>

record RetryBudgetRegistry =
  buckets :: "string \<rightharpoonup> TokenBucket"
  budget_config :: RetryBudgetConfig

definition registry_new :: "RetryBudgetConfig \<Rightarrow> RetryBudgetRegistry" where
  "registry_new config = \<lparr>buckets = Map.empty, budget_config = config\<rparr>"

definition registry_default :: RetryBudgetRegistry where
  "registry_default = registry_new budget_config_default"

text \<open>\<open>entry(..).or_insert_with(..)\<close>; \<open>created\<close> is the clock reading of a bucket made now.\<close>

definition bucket_for :: "RetryBudgetRegistry \<Rightarrow> instant \<Rightarrow> string \<Rightarrow> TokenBucket" where
  "bucket_for r created service_name =
     (case buckets r service_name of
        Some b \<Rightarrow> b
      | None \<Rightarrow> bucket_new (capacity (budget_config r)) created)"

definition try_acquire ::
  "RetryBudgetRegistry \<Rightarrow> instant \<Rightarrow> instant \<Rightarrow> string \<Rightarrow> bool \<times> RetryBudgetRegistry" where
  "try_acquire r created now service_name =
     (let b = refill (budget_config r) now (bucket_for r created service_name);
          (granted, b') = try_consume b
      in (granted, r\<lparr>buckets := (buckets r)(service_name \<mapsto> b')\<rparr>))"

definition available_tokens ::
  "RetryBudgetRegistry \<Rightarrow> instant \<Rightarrow> instant \<Rightarrow> string \<Rightarrow> f64 \<times> RetryBudgetRegistry" where
  "available_tokens r created now service_name =
     (let b = refill (budget_config r) now (bucket_for r created service_name)
      in (tokens b, r\<lparr>buckets := (buckets r)(service_name \<mapsto> b)\<rparr>))"

text \<open>
  Calls from any number of threads, in the order in which they take the mutex: the service, the
  two clock readings and whether the call acquires or only reads.
\<close>

datatype budget_call = Acquire string instant instant | Read string instant instant

fun call_service :: "budget_call \<Rightarrow> string" where
  "call_service (Acquire s _ _) = s"
| "call_service (Read s _ _) = s"

fun budget_step :: "RetryBudgetRegistry \<Rightarrow> budget_call \<Rightarrow> bool option \<times> RetryBudgetRegistry" where
  "budget_step r (Acquire s created now) =
     (let (granted, r') = try_acquire r created now s in (Some granted, r'))"
| "budget_step r (Read s created now) =
     (let (n, r') = available_tokens r created now s in (None, r'))"

fun budget_run :: "RetryBudgetRegistry \<Rightarrow> budget_call list \<Rightarrow> (string \<times> bool option) list \<times> RetryBudgetRegistry" where
  "budget_run r [] = ([], r)"
| "budget_run r (c # cs) =
     (let (g, r') = budget_step r c; (gs, r'') = budget_run r' cs
      in ((call_service c, g) # gs, r''))"

text \<open>The answers to the acquiring calls for one service, in order.\<close>

definition answers_for :: "string \<Rightarrow> (string \<times> bool option) list \<Rightarrow> bool list" where
  "answers_for s gs = concat (map (\<lambda>(s', g). if s' = s then case_option [] (\<lambda>b. [b]) g else []) gs)"

section \<open>Bounds\<close>

definition bucket_ok :: "u32 \<Rightarrow> TokenBucket \<Rightarrow> bool" where
  "bucket_ok cap b \<longleftrightarrow>
     (case tokens b of Fin t \<Rightarrow> 0 \<le> t \<and> t \<le> of_nat (unat cap) | _ \<Rightarrow> False)"

lemma bucket_ok_iff:
  "bucket_ok cap b \<longleftrightarrow> (\<exists>t. tokens b = Fin t \<and> 0 \<le> t \<and> t \<le> of_nat (unat cap))"
  by (auto simp: bucket_ok_def simp del: of_nat_unat split: f64.splits)

text \<open>A rate that is not negative; the code does not check it.\<close>

definition refill_ok :: "RetryBudgetConfig \<Rightarrow> bool" where
  "refill_ok config =
     (case refill_per_second config of Fin r \<Rightarrow> 0 \<le> r | NegInf \<Rightarrow> False | _ \<Rightarrow> True)"

lemma f64_of_u32 [simp]: "f64_of_u32 c = Fin (of_nat (unat c))"
  by (simp add: f64_of_u32_def binary64.rnd_of_u32 del: of_nat_unat)

lemma bucket_new_ok: "bucket_ok cap (bucket_new cap now)"
  by (simp add: bucket_ok_def bucket_new_def del: of_nat_unat)

definition f64_negative :: "f64 \<Rightarrow> bool" where
  "f64_negative a = (case a of Fin t \<Rightarrow> t < 0 | NegInf \<Rightarrow> True | _ \<Rightarrow> False)"

lemma f64_negative_simps [simp]:
  "f64_negative (Fin t) \<longleftrightarrow> t < 0" "\<not> f64_negative PosInf" "f64_negative NegInf" "\<not> f64_negative NaN"
  by (simp_all add: f64_negative_def)

lemma round64_not_negative: "0 \<le> x \<Longrightarrow> \<not> f64_negative (round64 x)"
  using binary64.rnd_nonneg [of x] by (auto simp: f64_negative_def)

lemma f64_add_not_negative:
  "\<not> f64_negative a \<Longrightarrow> \<not> f64_negative b \<Longrightarrow> \<not> f64_negative (f64_add a b)"
  by (cases a; cases b) (simp_all add: round64_not_negative not_less)

lemma f64_mul_not_negative:
  "\<not> f64_negative a \<Longrightarrow> \<not> f64_negative b \<Longrightarrow> \<not> f64_negative (f64_mul a b)"
  by (cases a; cases b) (simp_all add: round64_not_negative signed_inf_def not_less)

lemma as_secs_f64_not_negative: "\<not> f64_negative (as_secs_f64 d)"
  unfolding as_secs_f64_def by (intro f64_add_not_negative round64_not_negative) simp_all

lemma refill_keeps_ok:
  assumes "bucket_ok (capacity config) b" and "refill_ok config"
  shows "bucket_ok (capacity config) (refill config now b)"
proof -
  let ?sum = "f64_add (tokens b) (f64_mul (as_secs_f64 (elapsed_since (last_refill b) now))
      (refill_per_second config))"
  have "\<not> f64_negative (refill_per_second config)"
    using assms(2) by (auto simp: refill_ok_def f64_negative_def split: f64.splits)
  moreover have "\<not> f64_negative (tokens b)"
    using assms(1) by (auto simp: bucket_ok_def f64_negative_def split: f64.splits)
  ultimately have "\<not> f64_negative ?sum"
    by (intro f64_add_not_negative f64_mul_not_negative as_secs_f64_not_negative)
  then have "bucket_ok (capacity config)
      (b\<lparr>tokens := f64_min ?sum (f64_of_u32 (capacity config)), last_refill := now\<rparr>)"
    by (cases ?sum) (auto simp: bucket_ok_def f64_min_def f64_negative_def simp del: of_nat_unat)
  then show ?thesis using assms(1) by (simp add: refill_def Let_def)
qed

lemma try_consume_keeps_ok:
  assumes "bucket_ok cap b"
  shows "bucket_ok cap (snd (try_consume b))"
proof -
  obtain t where t: "tokens b = Fin t" "0 \<le> t" "t \<le> of_nat (unat cap)"
    using assms by (auto simp: bucket_ok_def split: f64.splits)
  show ?thesis
  proof (cases "1 \<le> t")
    case True
    then obtain y where "round64 (t - 1) = Fin y" "0 \<le> y" "y \<le> of_nat (unat cap)"
      using binary64.rnd_le_u32 [of "t - 1" cap] t by (auto simp del: of_nat_unat)
    with True t show ?thesis
      by (simp add: try_consume_def bucket_ok_def f64_sub_def del: of_nat_unat)
  qed (use t assms in \<open>simp add: try_consume_def\<close>)
qed

definition registry_ok :: "RetryBudgetRegistry \<Rightarrow> bool" where
  "registry_ok r \<longleftrightarrow>
     (\<forall>s b. buckets r s = Some b \<longrightarrow> bucket_ok (capacity (budget_config r)) b)"

lemma bucket_for_ok: "registry_ok r \<Longrightarrow> bucket_ok (capacity (budget_config r)) (bucket_for r t s)"
  by (auto simp: registry_ok_def bucket_for_def bucket_new_ok split: option.splits)

lemma budget_step_ok:
  assumes "registry_ok r" and "refill_ok (budget_config r)"
  shows "registry_ok (snd (budget_step r c)) \<and> budget_config (snd (budget_step r c)) = budget_config r"
proof (cases c)
  case (Acquire s created now)
  let ?b = "refill (budget_config r) now (bucket_for r created s)"
  have "bucket_ok (capacity (budget_config r)) (snd (try_consume ?b))"
    by (intro try_consume_keeps_ok refill_keeps_ok bucket_for_ok assms)
  with Acquire assms(1) show ?thesis
    by (auto simp: try_acquire_def registry_ok_def Let_def split: prod.splits)
next
  case (Read s created now)
  have "bucket_ok (capacity (budget_config r))
      (refill (budget_config r) now (bucket_for r created s))"
    by (intro refill_keeps_ok bucket_for_ok assms)
  with Read assms(1) show ?thesis
    by (auto simp: available_tokens_def registry_ok_def Let_def)
qed

lemma budget_run_ok:
  "registry_ok r \<Longrightarrow> refill_ok (budget_config r) \<Longrightarrow>
     registry_ok (snd (budget_run r cs)) \<and> budget_config (snd (budget_run r cs)) = budget_config r"
proof (induction cs arbitrary: r)
  case (Cons c cs)
  obtain g r' where step: "budget_step r c = (g, r')" by (cases "budget_step r c")
  then have "registry_ok r'" and "budget_config r' = budget_config r"
    using budget_step_ok [OF Cons.prems, of c] by simp_all
  with Cons.IH [of r'] Cons.prems(2) show ?case
    by (auto simp: step split: prod.splits)
qed simp

section \<open>Without refill\<close>

text \<open>Clock readings stay below \<open>2 ^ 52\<close> seconds, which is more than a hundred million years.\<close>

fun reading_ok :: "budget_call \<Rightarrow> bool" where
  "reading_ok (Acquire s created now) = (as_secs now < 2 ^ 52)"
| "reading_ok (Read s created now) = (as_secs now < 2 ^ 52)"

lemma as_secs_mono: "d \<le> d' \<Longrightarrow> as_secs d \<le> as_secs d'"
  unfolding as_secs_def by (rule div_le_mono)

lemma as_secs_f64_finite:
  assumes "as_secs d < 2 ^ 52"
  shows "\<exists>t. as_secs_f64 d = Fin t"
proof -
  have secs: "round64 (of_nat (as_secs d)) = Fin (of_nat (as_secs d))"
    using assms by (intro binary64.rnd_of_nat) simp
  have "of_nat (d mod 10 ^ 9) / 10 ^ 9 \<le> (of_int 1 :: rat)"
  proof -
    have "d mod 10 ^ 9 \<le> 10 ^ 9" by simp
    then have "of_nat (d mod 10 ^ 9) \<le> (10 ^ 9 :: rat)"
      by (metis of_nat_le_iff of_nat_numeral of_nat_power)
    then show ?thesis by simp
  qed
  then obtain y where y: "round64 (of_nat (d mod 10 ^ 9) / 10 ^ 9) = Fin y" "0 \<le> y" "y \<le> 1"
    using binary64.rnd_le_int [of "of_nat (d mod 10 ^ 9) / 10 ^ 9" 1] by auto
  have "of_nat (as_secs d) + y \<le> (of_int (int (as_secs d) + 1) :: rat)" using y(3) by simp
  moreover have "int (as_secs d) + 1 < 2 ^ 53" using assms by simp
  ultimately have "\<exists>z. round64 (of_nat (as_secs d) + y) = Fin z"
    using binary64.rnd_le_int [of "of_nat (as_secs d) + y" "int (as_secs d) + 1"] y(2) by auto
  then show ?thesis unfolding as_secs_f64_def secs y(1) by simp
qed

text \<open>What is left for a service: the full capacity until its bucket is made.\<close>

definition tokens_left :: "RetryBudgetRegistry \<Rightarrow> string \<Rightarrow> nat \<Rightarrow> bool" where
  "tokens_left r s n \<longleftrightarrow> n \<le> unat (capacity (budget_config r)) \<and>
     (case buckets r s of
        None \<Rightarrow> n = unat (capacity (budget_config r))
      | Some b \<Rightarrow> tokens b = Fin (of_nat n))"

lemma bucket_for_left: "tokens_left r s n \<Longrightarrow> tokens (bucket_for r t s) = Fin (of_nat n)"
  by (auto simp: tokens_left_def bucket_for_def bucket_new_def simp del: of_nat_unat
      split: option.splits)

lemma refill_zero:
  assumes "refill_per_second config = Fin 0" and "as_secs now < 2 ^ 52"
    and "tokens b = Fin (of_nat n)" and "n \<le> unat (capacity config)"
  shows "tokens (refill config now b) = Fin (of_nat n)"
proof -
  have "as_secs (elapsed_since (last_refill b) now) < 2 ^ 52"
    using as_secs_mono [of "elapsed_since (last_refill b) now" now] assms(2)
    by (simp add: elapsed_since_def)
  then obtain e where e: "as_secs_f64 (elapsed_since (last_refill b) now) = Fin e"
    using as_secs_f64_finite by blast
  have "n < 2 ^ 53"
    using assms(4) unat_less_range [of "capacity config"] by simp
  then have "round64 (of_nat n) = Fin (of_nat n)" by (rule binary64.rnd_of_nat)
  moreover have "round64 0 = Fin 0" by (simp add: round64_def)
  ultimately have "f64_add (tokens b) (f64_mul (Fin e) (Fin 0)) = Fin (of_nat n)"
    by (simp add: assms(3))
  moreover have "f64_min (Fin (of_nat n)) (f64_of_u32 (capacity config)) = Fin (of_nat n)"
    using assms(4) by (simp add: f64_min_def del: of_nat_unat)
  ultimately show ?thesis
    using assms(3) by (simp add: refill_def Let_def e assms(1))
qed

lemma try_consume_counts:
  assumes "tokens b = Fin (of_nat n)" and "n < 2 ^ 53"
  shows "fst (try_consume b) = (0 < n)" and "tokens (snd (try_consume b)) = Fin (of_nat (n - 1))"
proof -
  have "(1 \<le> (of_nat n :: rat)) = (0 < n)" by (cases n) simp_all
  moreover have "round64 (of_nat n + - 1) = Fin (of_nat (n - 1))" if "0 < n"
    using binary64.rnd_of_nat [of "n - 1"] that assms(2) by (simp add: of_nat_diff)
  ultimately show "fst (try_consume b) = (0 < n)"
    and "tokens (snd (try_consume b)) = Fin (of_nat (n - 1))"
    using assms(1) by (auto simp: try_consume_def f64_sub_def)
qed

lemma budget_step_zero:
  assumes "refill_per_second (budget_config r) = Fin 0" and "reading_ok c" and "tokens_left r s n"
  shows "budget_config (snd (budget_step r c)) = budget_config r"
    and "answers_for s [(call_service c, fst (budget_step r c))] =
      (case c of Acquire s' _ _ \<Rightarrow> if s' = s then [0 < n] else [] | Read _ _ _ \<Rightarrow> [])"
    and "tokens_left (snd (budget_step r c)) s
      (case c of Acquire s' _ _ \<Rightarrow> if s' = s then n - 1 else n | Read _ _ _ \<Rightarrow> n)"
proof -
  have n: "n \<le> unat (capacity (budget_config r))" using assms(3) by (simp add: tokens_left_def)
  then have n53: "n < 2 ^ 53" using unat_less_range [of "capacity (budget_config r)"] by simp
  have left: "tokens (refill (budget_config r) now (bucket_for r created s)) = Fin (of_nat n)"
    if "as_secs now < 2 ^ 52" for created now
    by (rule refill_zero [OF assms(1) that bucket_for_left [OF assms(3)] n])
  note consume = try_consume_counts [OF left n53]
  show "budget_config (snd (budget_step r c)) = budget_config r"
    by (cases c) (simp_all add: try_acquire_def available_tokens_def Let_def split: prod.split)
  show "answers_for s [(call_service c, fst (budget_step r c))] =
      (case c of Acquire s' _ _ \<Rightarrow> if s' = s then [0 < n] else [] | Read _ _ _ \<Rightarrow> [])"
    using assms(2) consume(1)
    by (cases c) (auto simp: answers_for_def try_acquire_def available_tokens_def Let_def
        case_prod_beta)
  show "tokens_left (snd (budget_step r c)) s
      (case c of Acquire s' _ _ \<Rightarrow> if s' = s then n - 1 else n | Read _ _ _ \<Rightarrow> n)"
    using assms(2,3) consume(2) left n
    by (cases c) (auto simp: tokens_left_def try_acquire_def available_tokens_def Let_def
        case_prod_beta split: option.splits)
qed

section \<open>Properties\<close>

fun acquires :: "string \<Rightarrow> budget_call \<Rightarrow> bool" where
  "acquires s (Acquire s' _ _) = (s' = s)"
| "acquires s (Read _ _ _) = False"

lemma answers_for_Cons: "answers_for s (g # gs) = answers_for s [g] @ answers_for s gs"
  by (simp add: answers_for_def)

lemma budget_run_zero:
  assumes "list_all reading_ok calls" and "refill_per_second (budget_config r) = Fin 0"
    and "tokens_left r s n"
  shows "answers_for s (fst (budget_run r calls)) =
    map (\<lambda>i. i < n) [0..<length (filter (acquires s) calls)]"
  using assms
proof (induction calls arbitrary: r n)
  case (Cons c cs)
  obtain g r' where step: "budget_step r c = (g, r')" by (cases "budget_step r c")
  have ok: "reading_ok c" "list_all reading_ok cs" using Cons.prems(1) by simp_all
  note one = budget_step_zero [OF Cons.prems(2) ok(1) Cons.prems(3), unfolded step fst_conv snd_conv]
  let ?n' = "case c of Acquire s' _ _ \<Rightarrow> if s' = s then n - 1 else n | Read _ _ _ \<Rightarrow> n"
  have "answers_for s (fst (budget_run r (c # cs))) =
      answers_for s [(call_service c, g)] @ answers_for s (fst (budget_run r' cs))"
    by (simp add: step case_prod_beta answers_for_Cons [of s _ "fst (budget_run r' cs)"])
  also have "answers_for s (fst (budget_run r' cs)) =
      map (\<lambda>i. i < ?n') [0..<length (filter (acquires s) cs)]"
    using Cons.prems(2) by (intro Cons.IH ok(2) one(3)) (simp add: one(1))
  also have "answers_for s [(call_service c, g)] @ \<dots> =
      map (\<lambda>i. i < n) [0..<length (filter (acquires s) (c # cs))]"
    unfolding one(2)
    by (cases c) (auto simp: upt_conv_Cons map_Suc_upt [symmetric] simp del: upt_Suc)
  finally show ?case .
qed (simp add: answers_for_def)



text \<open>Token counts: with a rate that is not negative, after any sequence of calls every bucket
  holds a finite number of tokens between zero and the capacity, however the additions,
  multiplications and subtractions were rounded.\<close>
theorem tokens_bounded:
  assumes "refill_ok config"
  shows "case buckets (snd (budget_run (registry_new config) calls)) s of
      None \<Rightarrow> True
    | Some b \<Rightarrow> \<exists>t. tokens b = Fin t \<and> 0 \<le> t \<and> t \<le> of_nat (unat (capacity config))"
proof -
  have "registry_ok (registry_new config)" by (simp add: registry_ok_def registry_new_def)
  from budget_run_ok [OF this, of calls] assms show ?thesis
    by (auto simp: registry_ok_def registry_new_def bucket_ok_iff simp del: of_nat_unat
        split: option.splits)
qed

text \<open>The token count read for a service decides the next acquisition at the same clock reading:
  it is granted exactly if the count is at least one.\<close>
theorem read_predicts_acquire:
  "case available_tokens r created now s of
     (count, r') \<Rightarrow> fst (try_acquire r' created' now s) = (Fin 1 \<le> count)"
proof -
  let ?b = "refill (budget_config r) now (bucket_for r created s)"
  have "refill (budget_config r) now ?b = ?b"
    using as_secs_f64_zero by (simp add: refill_def [of _ _ "bucket_for r created s"] Let_def)
      (simp add: refill_def f64_less_def elapsed_since_def)
  then show ?thesis
    by (simp add: available_tokens_def try_acquire_def bucket_for_def [of "_\<lparr>buckets := _\<rparr>"]
        try_consume_def Let_def)
qed

end
