(* ===== verification/Retry_Rate.thy ===== *)
theory Retry_Rate
  imports Retry_Budget
begin

text \<open>
  What the retry budget is for: over any time the retries granted for a service stay within the
  capacity and what the rate adds in that time. The computed token counts differ from the exact
  ones by rounding; the bound below accounts for the error of every operation.
\<close>

section \<open>Upper bounds through the operations\<close>

definition secs :: "duration \<Rightarrow> rat" where
  "secs d = of_nat d / 10 ^ 9"

lemma secs_nonneg: "0 \<le> secs d"
  by (simp add: secs_def)

lemma secs_split: "of_nat (as_secs d) + of_nat (d mod 10 ^ 9) / 10 ^ 9 = secs d"
proof -
  have split: "of_nat d = of_nat (d div q) * (of_nat q :: rat) + of_nat (d mod q)" for q
    by (simp only: of_nat_mult [symmetric] of_nat_add [symmetric] div_mult_mod_eq)
  have "of_nat d = of_nat (as_secs d) * (10 ^ 9 :: rat) + of_nat (d mod 10 ^ 9)"
    using split [of "10 ^ 9"] unfolding as_secs_def of_nat_power of_nat_numeral .
  then show ?thesis unfolding secs_def by (simp only: add_divide_distrib) simp
qed

lemma eps64_small: "eps64 \<le> 1 / 16"
  by (simp add: eps64_def)

lemma eps64_square: "c * (eps64 * eps64) \<le> eps64" if "c \<le> 16"
proof -
  have "c * eps64 \<le> 16 * (1 / 16)"
    using that eps64_small error_units_pos(1)
    by (intro order_trans [OF mult_right_mono mult_left_mono]) simp_all
  then have "c * eps64 * eps64 \<le> 1 * eps64"
    using error_units_pos(1) by (intro mult_right_mono) simp_all
  then show ?thesis by (simp add: mult.assoc)
qed

lemma below64_mono: "below64 a r \<Longrightarrow> r \<le> r' \<Longrightarrow> below64 a r'"
  by (cases a) auto

lemma f64_add_below:
  assumes "\<not> f64_negative a" and "\<not> f64_negative b" and "below64 a r" and "below64 b s"
  shows "below64 (f64_add a b) ((r + s) + (r + s) * eps64 + tiny64)"
proof -
  have grow: "x \<le> (r + s) + (r + s) * eps64 + tiny64" if "0 \<le> r + s" and "x \<le> r + s" for x
  proof -
    have "0 \<le> (r + s) * eps64" using that(1) error_units_pos(1) by (intro mult_nonneg_nonneg) simp_all
    with that error_units_pos(2) show ?thesis by linarith
  qed
  show ?thesis
  proof (cases a)
    case [simp]: (Fin x)
    show ?thesis
    proof (cases b)
      case [simp]: (Fin y)
      have "0 \<le> x + y" and le: "x + y \<le> r + s" using assms by simp_all
      moreover have "(x + y) * eps64 \<le> (r + s) * eps64"
        using le error_units_pos(1) by (intro mult_right_mono) simp_all
      ultimately show ?thesis
        using round64_below [of "x + y"] by (auto elim!: below64_mono)
    qed (use assms f64_limit_pos grow in auto)
  next
    case [simp]: PosInf
    show ?thesis using assms f64_limit_pos grow by (cases b) auto
  qed (use assms in auto)
qed

section \<open>The time that has passed\<close>

lemma tiny64_le_secs:
  assumes "0 < d"
  shows "tiny64 \<le> secs d * eps64"
proof -
  have "tiny64 \<le> 1 / 2 ^ 83"
    unfolding tiny64_def by (intro divide_left_mono power_increasing mult_pos_pos zero_less_power) simp_all
  also have "(1 / 2 ^ 83 :: rat) = 1 / 2 ^ 30 * eps64" by (simp add: eps64_def)
  also have "\<dots> \<le> secs d * eps64"
  proof (intro mult_right_mono)
    have "1 / 2 ^ 30 \<le> (1 / 10 ^ 9 :: rat)" by simp
    also have "\<dots> \<le> secs d" using assms unfolding secs_def by (intro divide_right_mono) simp_all
    finally show "1 / 2 ^ 30 \<le> secs d" .
  qed (use error_units_pos in simp)
  finally show ?thesis .
qed

lemma as_secs_f64_below: "below64 (as_secs_f64 d) (secs d + 6 * (secs d * eps64))"
proof (cases "d = 0")
  case True
  then show ?thesis by (simp add: as_secs_f64_def as_secs_def round64_def secs_def)
next
  case False
  let ?s = "of_nat (as_secs d) :: rat" and ?f = "of_nat (d mod 10 ^ 9) / 10 ^ 9 :: rat"
  let ?v = "secs d" and ?u = eps64
  have tiny: "tiny64 \<le> ?v * ?u" using False by (intro tiny64_le_secs) simp
  let ?w = "?v + ?v * ?u + 2 * tiny64"
  have sum: "(?s + ?s * ?u + tiny64) + (?f + ?f * ?u + tiny64) = ?w"
    unfolding secs_split [symmetric] by (simp add: algebra_simps)
  have "below64 (as_secs_f64 d) (?w + ?w * ?u + tiny64)"
    unfolding sum [symmetric] as_secs_f64_def
    by (intro f64_add_below round64_not_negative binary64.rnd_below) simp_all
  moreover have "?w + ?w * ?u + tiny64 \<le> ?v + 6 * (?v * ?u)"
  proof -
    have le: "?w \<le> ?v + 3 * (?v * ?u)" using tiny by linarith
    then have "?w * ?u \<le> (?v + 3 * (?v * ?u)) * ?u"
      using error_units_pos(1) by (intro mult_right_mono) simp_all
    also have "\<dots> = ?v * ?u + ?v * (3 * (?u * ?u))" by (simp add: algebra_simps)
    also have "\<dots> \<le> ?v * ?u + ?v * ?u"
      using eps64_square [of 3] secs_nonneg by (intro add_left_mono mult_left_mono) simp_all
    finally show ?thesis using le tiny by linarith
  qed
  ultimately show ?thesis by (rule below64_mono)
qed

section \<open>One refill, one grant\<close>

lemma added_below:
  assumes "0 \<le> \<rho>" and "as_secs d < 2 ^ 52"
  shows "below64 (f64_mul (as_secs_f64 d) (Fin \<rho>))
    (secs d * \<rho> + 8 * (secs d * \<rho> * eps64) + tiny64)"
proof -
  obtain e where e: "as_secs_f64 d = Fin e" using as_secs_f64_finite [OF assms(2)] by blast
  let ?w = "secs d * \<rho>" and ?u = eps64
  have nonneg: "0 \<le> e" using as_secs_f64_not_negative [of d] by (simp add: e)
  have "e \<le> secs d + 6 * (secs d * ?u)" using as_secs_f64_below [of d] by (simp add: e)
  then have "e * \<rho> \<le> (secs d + 6 * (secs d * ?u)) * \<rho>" using assms(1) by (rule mult_right_mono)
  also have "\<dots> = ?w + 6 * (?w * ?u)" by (simp add: algebra_simps)
  finally have x: "e * \<rho> \<le> ?w + 6 * (?w * ?u)" .
  then have "e * \<rho> * ?u \<le> (?w + 6 * (?w * ?u)) * ?u"
    using error_units_pos(1) by (intro mult_right_mono) simp_all
  also have "\<dots> = ?w * ?u + ?w * (6 * (?u * ?u))" by (simp add: algebra_simps)
  also have "\<dots> \<le> ?w * ?u + ?w * ?u"
    using eps64_square [of 6] secs_nonneg assms(1)
    by (intro add_left_mono mult_left_mono mult_nonneg_nonneg) simp_all
  finally have "e * \<rho> + e * \<rho> * ?u + tiny64 \<le> ?w + 8 * (?w * ?u) + tiny64"
    using x by linarith
  moreover have "below64 (round64 (e * \<rho>)) (e * \<rho> + e * \<rho> * ?u + tiny64)"
    using nonneg assms(1) by (intro binary64.rnd_below mult_nonneg_nonneg)
  ultimately show ?thesis unfolding e f64_mul.simps by (rule below64_mono [rotated])
qed

lemma capped_below:
  assumes "below64 a r" and "\<not> f64_negative a"
  shows "\<exists>t. f64_min a (Fin (of_nat (unat (cap :: u32)))) = Fin t \<and> 0 \<le> t \<and>
    t \<le> of_nat (unat cap) \<and> t \<le> r"
proof -
  have "unat cap < 2 ^ 53" using unat_less_range [of cap] by simp
  then have "of_nat (unat cap) < (2 ^ 53 :: rat)" by (metis of_nat_less_iff of_nat_numeral of_nat_power)
  then have "of_nat (unat cap) < f64_limit" using f64_limit_big by (rule less_trans)
  with assms show ?thesis
    by (cases a) (auto simp: f64_min_def not_less simp del: of_nat_unat)
qed

text \<open>
  \<open>holds cap b t\<close>: the bucket has \<open>t\<close> tokens, between none and the capacity. \<open>gain\<close> is what the
  rate adds in a number of seconds, and \<open>slack\<close> what the rounding of one call may add.
\<close>

definition holds :: "u32 \<Rightarrow> TokenBucket \<Rightarrow> rat \<Rightarrow> bool" where
  "holds cap b t \<longleftrightarrow> tokens b = Fin t \<and> 0 \<le> t \<and> t \<le> of_nat (unat cap)"

definition gain :: "rat \<Rightarrow> rat \<Rightarrow> rat" where
  "gain \<rho> v = v * \<rho> * (1 + 10 * eps64)"

definition slack :: "u32 \<Rightarrow> rat" where
  "slack cap = 2 * of_nat (unat cap) * eps64 + 4 * tiny64"

lemma gain_add: "gain \<rho> (v + w) = gain \<rho> v + gain \<rho> w"
  by (simp add: gain_def algebra_simps)

lemma gain_nonneg: "0 \<le> \<rho> \<Longrightarrow> 0 \<le> v \<Longrightarrow> 0 \<le> gain \<rho> v"
  using error_units_pos(1) unfolding gain_def by (intro mult_nonneg_nonneg) simp_all

lemma slack_nonneg: "0 \<le> slack cap"
  using error_units_pos unfolding slack_def
  by (intro add_nonneg_nonneg mult_nonneg_nonneg) (simp_all del: of_nat_unat)

lemma secs_diff: "d \<le> d' \<Longrightarrow> secs (d' - d) = secs d' - secs d"
  unfolding secs_def by (simp add: of_nat_diff diff_divide_distrib)

lemma secs_mono: "d \<le> d' \<Longrightarrow> secs d \<le> secs d'"
  unfolding secs_def by (intro divide_right_mono) simp_all

lemma refill_sum_below:
  assumes "0 \<le> t" and "t \<le> c" and "0 \<le> w"
    and "A = w + 8 * (w * eps64) + tiny64"
  shows "(t + A) + (t + A) * eps64 + tiny64 \<le> t + w * (1 + 10 * eps64) + c * eps64 + 3 * tiny64"
proof -
  have "(t + A) * eps64 = t * eps64 + w * eps64 + w * (8 * (eps64 * eps64)) + tiny64 * eps64"
    unfolding assms(4) by (simp add: algebra_simps)
  moreover have "t * eps64 \<le> c * eps64" using assms(2) error_units_pos(1) by simp
  moreover have "w * (8 * (eps64 * eps64)) \<le> w * eps64"
    using eps64_square [of 8] assms(3) by (intro mult_left_mono) simp_all
  moreover have "tiny64 * eps64 \<le> tiny64 * 1"
    using eps64_small error_units_pos(2) by (intro mult_left_mono) simp_all
  moreover have "w * (1 + 10 * eps64) = w + 10 * (w * eps64)" by (simp add: algebra_simps)
  ultimately show ?thesis unfolding assms(4) by linarith
qed

lemma refill_gain:
  assumes "refill_per_second config = Fin \<rho>" and "0 \<le> \<rho>" and "as_secs now < 2 ^ 52"
    and "holds (capacity config) b t"
  obtains t' where "holds (capacity config) (refill config now b) t'"
    and "t' \<le> t + gain \<rho> (secs (last_refill (refill config now b)) - secs (last_refill b))
      + of_nat (unat (capacity config)) * eps64 + 3 * tiny64"
    and "last_refill (refill config now b) \<in> {last_refill b, now}"
proof (cases "f64_less (Fin 0) (as_secs_f64 (elapsed_since (last_refill b) now))")
  case False
  then have same: "refill config now b = b" by (simp add: refill_def Let_def)
  have "0 \<le> of_nat (unat (capacity config)) * eps64 + 3 * tiny64"
    using error_units_pos
    by (intro add_nonneg_nonneg mult_nonneg_nonneg) (simp_all del: of_nat_unat)
  then show thesis using that [of t] assms(4) unfolding same by (simp add: gain_def)
next
  case True
  let ?d = "elapsed_since (last_refill b) now" and ?c = "of_nat (unat (capacity config)) :: rat"
  let ?w = "secs ?d * \<rho>"
  let ?A = "?w + 8 * (?w * eps64) + tiny64"
  let ?sum = "f64_add (tokens b) (f64_mul (as_secs_f64 ?d) (Fin \<rho>))"
  have t: "tokens b = Fin t" "0 \<le> t" "t \<le> ?c" using assms(4) by (simp_all add: holds_def)
  have later: "last_refill b \<le> now"
    using True as_secs_f64_zero by (intro leI notI) (simp add: elapsed_since_def f64_less_def)
  have "as_secs ?d < 2 ^ 52"
    using as_secs_mono [of ?d now] assms(3) by (simp add: elapsed_since_def)
  note added = added_below [OF assms(2) this]
  have pos: "\<not> f64_negative (f64_mul (as_secs_f64 ?d) (Fin \<rho>))"
    using assms(2) by (intro f64_mul_not_negative as_secs_f64_not_negative) simp
  have "below64 ?sum ((t + ?A) + (t + ?A) * eps64 + tiny64)"
    using t(1,2) pos added by (intro f64_add_below) simp_all
  moreover have w: "0 \<le> ?w" using secs_nonneg assms(2) by (rule mult_nonneg_nonneg)
  ultimately have "below64 ?sum (t + ?w * (1 + 10 * eps64) + ?c * eps64 + 3 * tiny64)"
    using below64_mono refill_sum_below [OF t(2,3) w refl] by blast
  moreover have "\<not> f64_negative ?sum" using t(1,2) pos by (intro f64_add_not_negative) simp_all
  ultimately obtain t' where t': "f64_min ?sum (Fin ?c) = Fin t'" "0 \<le> t'" "t' \<le> ?c"
      "t' \<le> t + ?w * (1 + 10 * eps64) + ?c * eps64 + 3 * tiny64"
    using capped_below by blast
  have new: "refill config now b = b\<lparr>tokens := Fin t', last_refill := now\<rparr>"
    using True by (simp add: refill_def Let_def assms(1) t'(1) del: of_nat_unat)
  have "?w * (1 + 10 * eps64) = gain \<rho> (secs now - secs (last_refill b))"
    using secs_diff [OF later] by (simp add: gain_def elapsed_since_def)
  with t' show thesis using that [of t'] unfolding new by (simp add: holds_def del: of_nat_unat)
qed

lemma try_consume_gain:
  assumes "holds cap b t"
  obtains t' where "holds cap (snd (try_consume b)) t'"
    and "last_refill (snd (try_consume b)) = last_refill b"
    and "of_bool (fst (try_consume b)) + t' \<le> t + of_nat (unat cap) * eps64 + tiny64"
proof (cases "1 \<le> t")
  case True
  let ?c = "of_nat (unat cap) :: rat"
  have t: "tokens b = Fin t" "0 \<le> t" "t \<le> ?c" using assms by (simp_all add: holds_def)
  obtain y where y: "round64 (t - 1) = Fin y" "0 \<le> y" "y \<le> ?c"
    using binary64.rnd_le_u32 [of "t - 1" cap] True t(3) by auto
  have "y \<le> (t - 1) + (t - 1) * eps64 + tiny64"
    using binary64.rnd_below [of "t - 1"] True by (simp add: y(1))
  moreover have "(t - 1) * eps64 \<le> ?c * eps64"
    using t(3) error_units_pos(1) by (intro mult_right_mono) simp_all
  ultimately have "1 + y \<le> t + ?c * eps64 + tiny64" by linarith
  with True t(1) y show thesis
    using that [of y] by (simp add: try_consume_def holds_def f64_sub_def del: of_nat_unat)
next
  case False
  have "0 \<le> of_nat (unat cap) * eps64 + tiny64"
    using error_units_pos
    by (intro add_nonneg_nonneg mult_nonneg_nonneg) (simp_all del: of_nat_unat)
  with False assms show thesis
    using that [of t] by (simp add: try_consume_def holds_def del: of_nat_unat)
qed

section \<open>The account of a service\<close>

text \<open>
  \<open>account config \<rho> t0 t1 g n b\<close>: after \<open>n\<close> calls with \<open>g\<close> grants, the grants and the tokens left
  are covered by the capacity, the gain up to the last refill and the slack of the calls.
\<close>

definition account ::
  "RetryBudgetConfig \<Rightarrow> rat \<Rightarrow> instant \<Rightarrow> instant \<Rightarrow> nat \<Rightarrow> nat \<Rightarrow> TokenBucket \<Rightarrow> bool" where
  "account config \<rho> t0 t1 g n b \<longleftrightarrow>
     t0 \<le> last_refill b \<and> last_refill b \<le> t1 \<and>
     (\<exists>t. holds (capacity config) b t \<and>
        of_nat g + t \<le> of_nat (unat (capacity config)) +
          gain \<rho> (secs (last_refill b) - secs t0) + of_nat n * slack (capacity config))"

definition accounts :: "RetryBudgetRegistry \<Rightarrow> string \<Rightarrow> rat \<Rightarrow> instant \<Rightarrow> instant \<Rightarrow> nat \<Rightarrow> nat \<Rightarrow> bool" where
  "accounts r s \<rho> t0 t1 g n =
     (case buckets r s of
        None \<Rightarrow> g = 0
      | Some b \<Rightarrow> account (budget_config r) \<rho> t0 t1 g n b)"

lemma account_new:
  assumes "0 \<le> \<rho>" and "t0 \<le> created" and "created \<le> t1"
  shows "account config \<rho> t0 t1 0 n (bucket_new (capacity config) created)"
proof -
  have "0 \<le> gain \<rho> (secs created - secs t0) + of_nat n * slack (capacity config)"
    using assms secs_mono [OF assms(2)]
    by (intro add_nonneg_nonneg mult_nonneg_nonneg gain_nonneg slack_nonneg) simp_all
  with assms show ?thesis
    by (simp add: account_def holds_def bucket_new_def add.assoc del: of_nat_unat)
qed

lemma bucket_for_account:
  "accounts r s \<rho> t0 t1 g n \<Longrightarrow> 0 \<le> \<rho> \<Longrightarrow> t0 \<le> created \<Longrightarrow> created \<le> t1 \<Longrightarrow>
     account (budget_config r) \<rho> t0 t1 g n (bucket_for r created s)"
  by (auto simp: accounts_def bucket_for_def account_new split: option.splits)

lemma account_refill:
  assumes "account config \<rho> t0 t1 g n b" and "refill_per_second config = Fin \<rho>" and "0 \<le> \<rho>"
    and "t0 \<le> now" and "now \<le> t1" and "as_secs t1 < 2 ^ 52"
  shows "account config \<rho> t0 t1 g (Suc n) (refill config now b)"
    and "account config \<rho> t0 t1 (g + of_bool (fst (try_consume (refill config now b)))) (Suc n)
      (snd (try_consume (refill config now b)))"
proof -
  let ?c = "of_nat (unat (capacity config)) :: rat" and ?b = "refill config now b"
  obtain t where t: "holds (capacity config) b t" and
      sum: "of_nat g + t \<le> ?c + gain \<rho> (secs (last_refill b) - secs t0) + of_nat n * slack (capacity config)"
    using assms(1) by (auto simp: account_def)
  have now: "as_secs now < 2 ^ 52" using as_secs_mono [OF assms(5)] assms(6) by simp
  obtain t' where t': "holds (capacity config) ?b t'"
      "t' \<le> t + gain \<rho> (secs (last_refill ?b) - secs (last_refill b)) + ?c * eps64 + 3 * tiny64"
      "last_refill ?b \<in> {last_refill b, now}"
    using refill_gain [OF assms(2,3) now t] .
  obtain t'' where t'': "holds (capacity config) (snd (try_consume ?b)) t''"
      "last_refill (snd (try_consume ?b)) = last_refill ?b"
      "of_bool (fst (try_consume ?b)) + t'' \<le> t' + ?c * eps64 + tiny64"
    using try_consume_gain [OF t'(1)] .
  have range: "t0 \<le> last_refill ?b \<and> last_refill ?b \<le> t1"
    using t'(3) assms(1,4,5) by (auto simp: account_def)
  have gain: "gain \<rho> (secs (last_refill b) - secs t0) +
      gain \<rho> (secs (last_refill ?b) - secs (last_refill b)) = gain \<rho> (secs (last_refill ?b) - secs t0)"
    unfolding gain_add [symmetric] by simp
  have slack: "of_nat (Suc n) * slack (capacity config) =
      of_nat n * slack (capacity config) + 2 * (?c * eps64) + 4 * tiny64"
    by (simp add: slack_def algebra_simps del: of_nat_unat)
  have unit: "0 \<le> ?c * eps64"
    using error_units_pos by (intro mult_nonneg_nonneg) (simp_all del: of_nat_unat)
  have "of_nat g + t' \<le> ?c + gain \<rho> (secs (last_refill ?b) - secs t0) +
      of_nat (Suc n) * slack (capacity config)"
    using sum t'(2) gain slack unit error_units_pos(2) by linarith
  with t'(1) range show "account config \<rho> t0 t1 g (Suc n) ?b" unfolding account_def by blast
  have "of_nat (g + of_bool (fst (try_consume ?b))) + t'' \<le> ?c +
      gain \<rho> (secs (last_refill ?b) - secs t0) + of_nat (Suc n) * slack (capacity config)"
    using sum t'(2) t''(3) gain slack unfolding of_nat_add of_nat_of_bool by linarith
  with t''(1) range show "account config \<rho> t0 t1 (g + of_bool (fst (try_consume ?b))) (Suc n)
      (snd (try_consume ?b))"
    unfolding account_def t''(2) by blast
qed

text \<open>The clock readings of a call lie between two instants.\<close>

fun read_within :: "instant \<Rightarrow> instant \<Rightarrow> budget_call \<Rightarrow> bool" where
  "read_within t0 t1 (Acquire s created now) = (t0 \<le> created \<and> created \<le> t1 \<and> t0 \<le> now \<and> now \<le> t1)"
| "read_within t0 t1 (Read s created now) = (t0 \<le> created \<and> created \<le> t1 \<and> t0 \<le> now \<and> now \<le> t1)"

definition grants :: "string \<Rightarrow> (string \<times> bool option) list \<Rightarrow> nat" where
  "grants s gs = length (filter id (answers_for s gs))"

lemma grants_Cons: "grants s (g # gs) = grants s [g] + grants s gs"
  by (simp add: grants_def answers_for_Cons [of s g gs])

lemma budget_step_config: "budget_config (snd (budget_step r c)) = budget_config r"
  by (cases c) (simp_all add: try_acquire_def available_tokens_def Let_def split: prod.split)

lemma budget_step_accounts:
  assumes "accounts r s \<rho> t0 t1 g n" and "refill_per_second (budget_config r) = Fin \<rho>" and "0 \<le> \<rho>"
    and "read_within t0 t1 c" and "as_secs t1 < 2 ^ 52"
  shows "accounts (snd (budget_step r c)) s \<rho> t0 t1
    (g + grants s [(call_service c, fst (budget_step r c))])
    (n + of_bool (call_service c = s))"
proof (cases "call_service c = s")
  case False
  then show ?thesis
    using assms(1) by (cases c) (auto simp: accounts_def grants_def answers_for_def try_acquire_def
        available_tokens_def Let_def split: prod.split option.split)
next
  case True
  show ?thesis
  proof (cases c)
    case (Acquire s' created now)
    then have "account (budget_config r) \<rho> t0 t1 g n (bucket_for r created s)"
      using assms(4) by (intro bucket_for_account [OF assms(1,3)]) simp_all
    from account_refill(2) [OF this assms(2,3) _ _ assms(5), of now] Acquire assms(4) True
    show ?thesis
      by (auto simp: accounts_def grants_def answers_for_def try_acquire_def Let_def case_prod_beta)
  next
    case (Read s' created now)
    then have "account (budget_config r) \<rho> t0 t1 g n (bucket_for r created s)"
      using assms(4) by (intro bucket_for_account [OF assms(1,3)]) simp_all
    from account_refill(1) [OF this assms(2,3) _ _ assms(5), of now] Read assms(4) True
    show ?thesis
      by (simp add: accounts_def grants_def answers_for_def available_tokens_def Let_def)
  qed
qed

lemma budget_run_accounts:
  assumes "accounts r s \<rho> t0 t1 g n" and "refill_per_second (budget_config r) = Fin \<rho>" and "0 \<le> \<rho>"
    and "list_all (read_within t0 t1) calls" and "as_secs t1 < 2 ^ 52"
  shows "accounts (snd (budget_run r calls)) s \<rho> t0 t1 (g + grants s (fst (budget_run r calls)))
      (n + length (filter (\<lambda>c. call_service c = s) calls)) \<and>
    budget_config (snd (budget_run r calls)) = budget_config r"
  using assms(1,2,4)
proof (induction calls arbitrary: r g n)
  case Nil
  then show ?case by (simp add: grants_def answers_for_def)
next
  case (Cons c cs)
  obtain a r' where step: "budget_step r c = (a, r')" by (cases "budget_step r c")
  have config: "budget_config r' = budget_config r" using budget_step_config [of r c] by (simp add: step)
  have "accounts r' s \<rho> t0 t1 (g + grants s [(call_service c, a)]) (n + of_bool (call_service c = s))"
    using budget_step_accounts [OF Cons.prems(1,2) assms(3) _ assms(5), of c] Cons.prems(3)
    by (simp add: step)
  from Cons.IH [OF this] Cons.prems show ?case
    by (auto simp: step config case_prod_beta grants_Cons [of s _ "fst (budget_run r' cs)"] add.assoc)
qed

lemma accounts_grants:
  assumes "accounts r s \<rho> t0 t1 g n" and "0 \<le> \<rho>"
  shows "of_nat g \<le> of_nat (unat (capacity (budget_config r))) + gain \<rho> (secs (t1 - t0)) +
    of_nat n * slack (capacity (budget_config r))"
proof (cases "buckets r s")
  case None
  then show ?thesis
    using assms gain_nonneg [OF assms(2) secs_nonneg] slack_nonneg
    by (auto simp: accounts_def simp del: of_nat_unat intro!: add_nonneg_nonneg)
next
  case (Some b)
  let ?c = "capacity (budget_config r)"
  obtain t where t: "0 \<le> t" "t0 \<le> last_refill b" "last_refill b \<le> t1"
      "of_nat g + t \<le> of_nat (unat ?c) + gain \<rho> (secs (last_refill b) - secs t0) + of_nat n * slack ?c"
    using assms(1) Some by (auto simp: accounts_def account_def holds_def)
  have split: "secs (t1 - t0) = (secs (last_refill b) - secs t0) + (secs t1 - secs (last_refill b))"
    using t(2,3) by (simp add: secs_diff)
  have "gain \<rho> (secs (last_refill b) - secs t0) \<le> gain \<rho> (secs (t1 - t0))"
    unfolding split gain_add
    using gain_nonneg [OF assms(2), of "secs t1 - secs (last_refill b)"] secs_mono [OF t(3)] by simp
  with t(1,4) show ?thesis by linarith
qed

section \<open>Property\<close>

text \<open>C16. Rate of retries: with a finite rate that is not negative, over calls from any threads
  whose clock readings lie between two instants, in any order, the retries granted for a service
  are at most the capacity plus the rate times the time between the instants. The computed
  arithmetic exceeds that by a relative error of \<open>10 * eps64\<close> of the gain, and by
  \<open>2 * eps64\<close> of the capacity (and \<open>4 * tiny64\<close>) for each call, \<open>eps64\<close> being \<open>2 ^ -53\<close> and
  \<open>tiny64\<close> half the least subnormal number.\<close>
theorem grants_within_rate:
  assumes "refill_per_second config = Fin \<rho>" and "0 \<le> \<rho>"
    and "list_all (read_within t0 t1) calls" and "as_secs t1 < 2 ^ 52"
  shows "of_nat (grants s (fst (budget_run (registry_new config) calls))) \<le>
    of_nat (unat (capacity config)) + secs (t1 - t0) * \<rho> * (1 + 10 * eps64) +
    of_nat (length (filter (\<lambda>c. call_service c = s) calls)) *
      (2 * of_nat (unat (capacity config)) * eps64 + 4 * tiny64)"
proof -
  let ?r = "registry_new config" and ?n = "length (filter (\<lambda>c. call_service c = s) calls)"
  have "accounts ?r s \<rho> t0 t1 0 0" by (simp add: accounts_def registry_new_def)
  from budget_run_accounts [OF this _ assms(2-4)]
  have "accounts (snd (budget_run ?r calls)) s \<rho> t0 t1 (grants s (fst (budget_run ?r calls))) ?n"
    and "budget_config (snd (budget_run ?r calls)) = config"
    using assms(1) by (simp_all add: registry_new_def)
  from accounts_grants [OF this(1) assms(2)] this(2) show ?thesis
    by (simp add: gain_def slack_def del: of_nat_unat)
qed

theorem grants_within_rate_witness:
  "of_nat (grants ''svc'' (fst (budget_run registry_default
     [Acquire ''svc'' 5 7, Acquire ''other'' 8 9, Acquire ''svc'' 6 (2 * 10 ^ 9)]))) \<le>
   100 + secs (2 * 10 ^ 9) * 10 * (1 + 10 * eps64) + 2 * (200 * eps64 + 4 * tiny64)"
proof -
  have cap: "of_nat (unat (capacity budget_config_default)) = (100::rat)"
    by (simp add: budget_config_default_def)
  show ?thesis
    using grants_within_rate [of budget_config_default 10 0 "2 * 10 ^ 9"
        "[Acquire ''svc'' 5 7, Acquire ''other'' 8 9, Acquire ''svc'' 6 (2 * 10 ^ 9)]" "''svc''"]
    unfolding registry_default_def cap
    by (simp add: budget_config_default_def as_secs_def)
qed

end
