(* ===== verification/Lease_Survival.thy ===== *)
theory Lease_Survival
  imports Discovery_Lifecycle
begin

text \<open>
  What the renewal loop of \<open>lifecycle.rs\<close> is for: the lease that the registry granted does not run
  out while the instance serves. The registry's side of the lease is the abstract clock
  \<open>lease_kept\<close>; the loop is \<open>renew_turns\<close> of theory \<open>Discovery_Lifecycle\<close>.
\<close>

section \<open>The lease\<close>

text \<open>
  \<open>lease_kept ttl left events\<close>: \<open>left\<close> is the time until the lease runs out. Each event is a sleep, the
  latency of the renewal call after it and whether that call succeeded. The lease has to be alive
  when the call returns, at whatever moment of the call it reached the registry; a renewed lease
  counts from the moment the call was sent.
\<close>

fun lease_kept :: "duration \<Rightarrow> duration \<Rightarrow> (duration \<times> duration \<times> bool) list \<Rightarrow> bool" where
  "lease_kept ttl left [] = True"
| "lease_kept ttl left ((sleep, latency, ok) # events) =
     (sleep + latency < left \<and>
      lease_kept ttl (if ok then ttl - latency else left - (sleep + latency)) events)"

text \<open>The events of a run of the loop: its sleeps with the given latencies and the calls' outcomes.\<close>

definition renew_events ::
  "('ep, 'ch, 'tls, 'md, 'mv) externals \<Rightarrow> RenewLoopConfig \<Rightarrow> 'ch DiscoveryInstanceHandle
     \<Rightarrow> (rng \<times> ('ch, 'md) registry) list \<Rightarrow> duration list \<Rightarrow> u32 \<Rightarrow> (duration \<times> duration \<times> bool) list" where
  "renew_events X cfg h turns latencies failures =
     zip (map fst (renew_turns X cfg h turns failures))
       (zip latencies (map (\<lambda>(draw, R). is_ok (renew_once X R h)) turns))"

text \<open>At most \<open>f\<close> failures in a row, \<open>k\<close> of them before the list.\<close>

fun failures_within :: "nat \<Rightarrow> nat \<Rightarrow> bool list \<Rightarrow> bool" where
  "failures_within f k [] = True"
| "failures_within f k (ok # oks) =
     (if ok then failures_within f 0 oks else k < f \<and> failures_within f (Suc k) oks)"

section \<open>The time the loop takes\<close>

text \<open>The longest sleeps before the renewals after the last success, up to the one after \<open>k\<close> failures.\<close>

fun slept :: "RenewLoopConfig \<Rightarrow> duration \<Rightarrow> nat \<Rightarrow> duration" where
  "slept cfg interval 0 = interval"
| "slept cfg interval (Suc k) = slept cfg interval k +
     duration_window (word_of_nat (Suc k)) (rl_initial_backoff cfg) (rl_max_backoff cfg)"

definition slept_before :: "RenewLoopConfig \<Rightarrow> duration \<Rightarrow> nat \<Rightarrow> duration" where
  "slept_before cfg interval k = (case k of 0 \<Rightarrow> 0 | Suc j \<Rightarrow> slept cfg interval j)"

lemma slept_mono: "k \<le> f \<Longrightarrow> slept cfg interval k \<le> slept cfg interval f"
  by (rule lift_Suc_mono_le) simp_all

lemma renew_sleep_slept:
  assumes "draws_in_range draw" and "rl_initial_backoff cfg \<noteq> 0" and "rl_max_backoff cfg \<noteq> 0"
    and "k < 2 ^ 32"
  shows "slept_before cfg interval k + renew_sleep draw cfg interval (word_of_nat k) \<le>
    slept cfg interval k"
proof (cases k)
  case (Suc j)
  have "unat (word_of_nat k :: u32) = k" using assms(4) by (intro unat_word_of_nat) simp
  then have "(word_of_nat k :: u32) \<noteq> 0" using Suc by auto
  then show ?thesis
    using renew_backoff_window [OF assms(1-3), of "word_of_nat k"] Suc
    by (simp add: renew_sleep_def slept_before_def del: of_nat_Suc)
qed (simp add: slept_before_def renew_sleep_def)

lemma after_renewal_next:
  assumes "Suc k < 2 ^ 32"
  shows "fst (after_renewal cfg outcome (word_of_nat k)) =
    word_of_nat (if is_ok outcome then 0 else Suc k)"
proof -
  have "trailing_failures (replicate k False) = k"
    by (simp add: trailing_failures_def takeWhile_replicate)
  with after_renewal_count [of "replicate k False" cfg outcome] assms show ?thesis
    by (simp del: of_nat_Suc)
qed

lemma renew_events_Cons:
  assumes "Suc k < 2 ^ 32"
  shows "renew_events X cfg h ((draw, R) # turns) (l # ls) (word_of_nat k) =
    (renew_sleep draw cfg (ih_renew_interval h) (word_of_nat k), l, is_ok (renew_once X R h)) #
    renew_events X cfg h turns ls (word_of_nat (if is_ok (renew_once X R h) then 0 else Suc k))"
  using after_renewal_next [OF assms, of cfg "renew_once X R h"]
  by (simp add: renew_events_def case_prod_beta del: of_nat_Suc)

lemma lease_kept_run:
  assumes cfg: "rl_initial_backoff cfg \<noteq> 0" "rl_max_backoff cfg \<noteq> 0"
    and f: "Suc f < 2 ^ 32"
    and enough: "slept cfg (ih_renew_interval h) f + (f + 2) * latency < ttl"
  shows "list_all (\<lambda>(draw, R). draws_in_range draw) turns \<Longrightarrow> list_all (\<lambda>l. l \<le> latency) ls \<Longrightarrow>
    failures_within f k (map (\<lambda>(draw, R). is_ok (renew_once X R h)) turns) \<Longrightarrow> k \<le> f \<Longrightarrow>
    ttl \<le> left + slept_before cfg (ih_renew_interval h) k + (k + 1) * latency \<Longrightarrow>
    lease_kept ttl left (renew_events X cfg h turns ls (word_of_nat k))"
proof (induction turns arbitrary: ls k left)
  case Nil
  then show ?case by (simp add: renew_events_def)
next
  case (Cons turn turns)
  obtain draw R where turn: "turn = (draw, R)" by (cases turn)
  show ?case
  proof (cases ls)
    case Nil
    then show ?thesis by (simp add: renew_events_def)
  next
    case ls: (Cons l ls')
    let ?i = "ih_renew_interval h" and ?ok = "is_ok (renew_once X R h)"
    let ?s = "renew_sleep draw cfg ?i (word_of_nat k)"
    have k: "Suc k < 2 ^ 32" using Cons.prems(4) f by simp
    have l: "l \<le> latency" using Cons.prems(2) ls by simp
    have s: "slept_before cfg ?i k + ?s \<le> slept cfg ?i k"
      using Cons.prems(1) k turn by (intro renew_sleep_slept cfg) simp_all
    have "slept cfg ?i k \<le> slept cfg ?i f" using Cons.prems(4) by (rule slept_mono)
    moreover have "(k + 2) * latency \<le> (f + 2) * latency" using Cons.prems(4) by simp
    ultimately have "slept cfg ?i k + (k + 2) * latency < ttl" using enough by linarith
    with s l Cons.prems(5) have alive: "?s + l < left" by (simp add: algebra_simps)
    have "lease_kept ttl (if ?ok then ttl - l else left - (?s + l))
        (renew_events X cfg h turns ls' (word_of_nat (if ?ok then 0 else Suc k)))"
    proof (rule Cons.IH)
      show "ttl \<le> (if ?ok then ttl - l else left - (?s + l)) +
          slept_before cfg ?i (if ?ok then 0 else Suc k) + ((if ?ok then 0 else Suc k) + 1) * latency"
        using s l alive Cons.prems(5) by (auto simp: slept_before_def algebra_simps)
    qed (use Cons.prems ls turn in \<open>auto split: if_splits\<close>)
    with alive show ?thesis unfolding turn ls renew_events_Cons [OF k] by simp
  qed
qed

section \<open>Property\<close>

text \<open>C19. The lease outlives lost renewals: let at most \<open>f\<close> renewal calls in a row fail and no call take
  longer than \<open>latency\<close>. If the renewal interval, the windows of the \<open>f\<close> backoffs and \<open>f + 2\<close> latencies
  together are shorter than the lease, the lease never runs out, from a registration within that
  latency on and for any number of turns of the renewal loop.\<close>
theorem lease_survives:
  assumes "rl_initial_backoff cfg \<noteq> 0" and "rl_max_backoff cfg \<noteq> 0" and "Suc f < 2 ^ 32"
    and "list_all (\<lambda>(draw, R). draws_in_range draw) turns" and "list_all (\<lambda>l. l \<le> latency) latencies"
    and "failures_within f 0 (map (\<lambda>(draw, R). is_ok (renew_once X R h)) turns)"
    and "ih_renew_interval h + (\<Sum>k = 1..f. duration_window (word_of_nat k) (rl_initial_backoff cfg)
        (rl_max_backoff cfg)) + (f + 2) * latency < ttl"
    and "ttl - latency \<le> left"
  shows "lease_kept ttl left (renew_events X cfg h turns latencies 0)"
proof -
  have "slept cfg (ih_renew_interval h) f = ih_renew_interval h +
      (\<Sum>k = 1..f. duration_window (word_of_nat k) (rl_initial_backoff cfg) (rl_max_backoff cfg))" for f
    by (induction f) simp_all
  with lease_kept_run [OF assms(1-3), of h latency ttl turns latencies 0 X left] assms(4-8)
  show ?thesis by (simp add: slept_before_def)
qed

text \<open>With the default backoffs a lease of thirty seconds survives three lost renewals in a row, each
  call taking up to a second.\<close>

theorem lease_survives_witness:
  "lease_kept (from_secs 30) (from_secs 29)
     (renew_events reference_externals renew_loop_config_default trial_handle
        [(\<lambda>b. b, trial_registry False), (\<lambda>b. b, trial_registry False), (\<lambda>b. b, trial_registry False),
         (\<lambda>b. b, trial_registry True)] (replicate 4 (from_secs 1)) 0)"
proof -
  have sum: "(\<Sum>k = 1..3. g k) = g 1 + g 2 + g (3::nat)" for g :: "nat \<Rightarrow> nat"
    by (simp add: numeral_eq_Suc)
  have interval: "ih_renew_interval trial_handle = 10 * 10 ^ 9"
    by (simp add: trial_handle_def renew_interval_of_def from_secs_def max_def)
  show ?thesis
  proof (rule lease_survives [where f = 3 and latency = "from_secs 1"])
    show "failures_within 3 0 (map (\<lambda>(draw, R). is_ok (renew_once reference_externals R trial_handle))
        [(\<lambda>b. b, trial_registry False), (\<lambda>b. b, trial_registry False), (\<lambda>b. b, trial_registry False),
         (\<lambda>b. b, trial_registry True)])"
      by (simp add: renew_once_def trial_registry_def Let_def)
    show "ih_renew_interval trial_handle + (\<Sum>k = 1..3. duration_window (word_of_nat k)
        (rl_initial_backoff renew_loop_config_default) (rl_max_backoff renew_loop_config_default)) +
        (3 + 2) * from_secs 1 < from_secs 30"
      unfolding sum interval
      by (simp add: duration_window_eq renew_loop_config_default_def from_secs_def duration_max_def)
  qed (simp_all add: renew_loop_config_default_def from_secs_def draws_in_range_def list_all_iff)
qed

end
