(* ===== verification/Resilience_Tests.thy ===== *)
theory Resilience_Tests
  imports Resilience Circuit_Breaker
begin

text \<open>
  The unit tests of crate \<open>sdkwork-rpc-resilience\<close>, as statements about the model: each definition is
  the body of one test function, its assertions the conjuncts. The random generator is an argument;
  a test that samples it holds for every generator that draws in range. A sleep is a later clock
  reading. They tie the model to what the authors expect of the code. Left out are the test that
  samples 32 delays for two different ones, and the one that runs eight threads on a breaker.
\<close>

section \<open>lib.rs and backoff.rs\<close>

definition critical_write_profile_does_not_retry :: bool where
  "critical_write_profile_does_not_retry \<longleftrightarrow>
     (let policy = for_profile RpcCriticalWrite in \<not> allows_retry policy Unavailable 10)"

definition default_profile_retries_unavailable_within_budget :: bool where
  "default_profile_retries_unavailable_within_budget \<longleftrightarrow>
     (let policy = for_profile RpcDefault
      in allows_retry policy Unavailable 1 \<and> \<not> allows_retry policy InvalidArgument 1)"

definition should_retry_respects_budget_and_attempt_limits :: "rng \<Rightarrow> bool" where
  "should_retry_respects_budget_and_attempt_limits draw \<longleftrightarrow>
     (let policy = for_profile RpcDefault; budget = tracker_new 1;
          (first, budget) = should_retry draw policy Unavailable 1 budget;
          (second, budget) = should_retry draw policy Unavailable 2 budget
      in first \<and> \<not> second)"

definition should_retry_with_deadline_skips_when_remaining_is_insufficient :: "rng \<Rightarrow> bool" where
  "should_retry_with_deadline_skips_when_remaining_is_insufficient draw \<longleftrightarrow>
     (let policy = for_profile RpcDefault; budget = tracker_new 10;
          (retry, budget) =
            should_retry_with_deadline draw policy Unavailable 1 budget (from_millis 1)
      in \<not> retry \<and> remaining budget = 10)"

definition should_retry_with_deadline_proceeds_when_remaining_is_sufficient :: "rng \<Rightarrow> bool" where
  "should_retry_with_deadline_proceeds_when_remaining_is_sufficient draw \<longleftrightarrow>
     (let policy = for_profile RpcDefault; budget = tracker_new 10;
          (retry, budget) =
            should_retry_with_deadline draw policy Unavailable 1 budget (from_secs 10)
      in retry \<and> remaining budget = 9)"

definition backoff_grows_with_attempts_and_stays_bounded :: "rng \<Rightarrow> rng \<Rightarrow> rng \<Rightarrow> bool" where
  "backoff_grows_with_attempts_and_stays_bounded draw1 draw2 draw3 \<longleftrightarrow>
     (let policy = for_profile RpcDefault; first = retry_backoff_ms draw1 policy 1;
          later = retry_backoff_ms draw2 policy 4
      in later \<le> max_backoff_ms policy \<and> first \<le> max_backoff_ms policy \<and>
         retry_backoff_ms draw3 policy 0 = initial_backoff_ms policy)"

section \<open>idempotency.rs\<close>

definition blocks_retry_without_idempotency_key_when_required :: "rng \<Rightarrow> bool" where
  "blocks_retry_without_idempotency_key_when_required draw \<longleftrightarrow>
     (let policy = for_profile RpcIdempotentWrite; budget = tracker_new 10;
          admission = \<lparr>method_requires_idempotency = True, ra_has_idempotency_key = False\<rparr>
      in \<not> fst (should_retry_call draw policy Unavailable 1 budget admission))"

definition allows_retry_when_idempotency_key_is_present :: "rng \<Rightarrow> bool" where
  "allows_retry_when_idempotency_key_is_present draw \<longleftrightarrow>
     (let policy = for_profile RpcIdempotentWrite; budget = tracker_new 10;
          admission = \<lparr>method_requires_idempotency = True, ra_has_idempotency_key = True\<rparr>
      in fst (should_retry_call draw policy Unavailable 1 budget admission))"

definition should_retry_call_with_deadline_skips_when_remaining_is_insufficient :: "rng \<Rightarrow> bool" where
  "should_retry_call_with_deadline_skips_when_remaining_is_insufficient draw \<longleftrightarrow>
     (let policy = for_profile RpcDefault; budget = tracker_new 10;
          admission = \<lparr>method_requires_idempotency = False, ra_has_idempotency_key = False\<rparr>;
          (retry, budget) = should_retry_call_with_deadline draw policy Unavailable 1 budget admission
            (from_millis 1)
      in \<not> retry \<and> remaining budget = 10)"

definition should_retry_call_with_deadline_still_enforces_idempotency_admission :: "rng \<Rightarrow> bool" where
  "should_retry_call_with_deadline_still_enforces_idempotency_admission draw \<longleftrightarrow>
     (let policy = for_profile RpcIdempotentWrite; budget = tracker_new 10;
          admission = \<lparr>method_requires_idempotency = True, ra_has_idempotency_key = False\<rparr>;
          (retry, budget) = should_retry_call_with_deadline draw policy Unavailable 1 budget admission
            (from_secs 10)
      in \<not> retry \<and> remaining budget = 10)"

definition should_retry_call_with_deadline_proceeds_when_admission_and_deadline_ok :: "rng \<Rightarrow> bool" where
  "should_retry_call_with_deadline_proceeds_when_admission_and_deadline_ok draw \<longleftrightarrow>
     (let policy = for_profile RpcIdempotentWrite; budget = tracker_new 10;
          admission = \<lparr>method_requires_idempotency = True, ra_has_idempotency_key = True\<rparr>;
          (retry, budget) = should_retry_call_with_deadline draw policy Unavailable 1 budget admission
            (from_secs 10)
      in retry \<and> remaining budget = 9)"

section \<open>pushback.rs\<close>

text \<open>Metadata is the reference map, in which every text is a value.\<close>

definition status_with :: "Code \<Rightarrow> string option \<Rightarrow> (string \<rightharpoonup> string) status" where
  "status_with code pushback =
     (let metadata = md_new reference_metadata;
          metadata = (case pushback of
            Some value \<Rightarrow> md_insert reference_metadata metadata GRPC_RETRY_PUSHBACK_MS
                            (the (metadata_value reference_metadata value))
          | None \<Rightarrow> metadata)
      in \<lparr>status_code = code, status_message = ''test'', status_metadata = metadata\<rparr>)"

definition extract_pushback_parses_valid_ascii_ms :: bool where
  "extract_pushback_parses_valid_ascii_ms \<longleftrightarrow>
     extract_retry_pushback_ms reference_metadata (status_with ResourceExhausted (Some ''250'')) =
       Some 250"

definition extract_pushback_returns_none_when_trailer_absent :: bool where
  "extract_pushback_returns_none_when_trailer_absent \<longleftrightarrow>
     extract_retry_pushback_ms reference_metadata (status_with ResourceExhausted None) = None"

definition extract_pushback_returns_none_for_non_numeric :: bool where
  "extract_pushback_returns_none_for_non_numeric \<longleftrightarrow>
     extract_retry_pushback_ms reference_metadata (status_with ResourceExhausted (Some ''soon'')) =
       None"

definition effective_backoff_uses_pushback_clamped_to_max :: "rng \<Rightarrow> bool" where
  "effective_backoff_uses_pushback_clamped_to_max draw \<longleftrightarrow>
     (let policy = for_profile RpcReadOnly
      in effective_retry_backoff_ms draw policy 1 (Some 100) = 100 \<and>
         effective_retry_backoff_ms draw policy 1 (Some 10000) = max_backoff_ms policy)"

definition effective_backoff_falls_back_to_jitter_when_pushback_absent :: "rng \<Rightarrow> bool" where
  "effective_backoff_falls_back_to_jitter_when_pushback_absent draw \<longleftrightarrow>
     (let policy = for_profile RpcDefault
      in effective_retry_backoff_ms draw policy 0 None = initial_backoff_ms policy)"

text \<open>The tests that decide share this call: profile, status, attempt and remaining deadline.\<close>

abbreviation pushback_call ::
  "rng \<Rightarrow> ResilienceProfile \<Rightarrow> Code \<Rightarrow> string option \<Rightarrow> u32 \<Rightarrow> bool \<Rightarrow> duration
     \<Rightarrow> RetryDecision \<times> RetryBudgetTracker" where
  "pushback_call draw profile code pushback attempt requires_idempotency rest \<equiv>
     should_retry_call_with_pushback draw reference_metadata (for_profile profile)
       (status_with code pushback) attempt (tracker_new 10)
       \<lparr>method_requires_idempotency = requires_idempotency, ra_has_idempotency_key = False\<rparr> rest"

definition resource_exhausted_not_retryable_without_pushback :: "rng \<Rightarrow> bool" where
  "resource_exhausted_not_retryable_without_pushback draw \<longleftrightarrow>
     (let (decision, budget) =
            pushback_call draw RpcReadOnly ResourceExhausted None 1 False (from_secs 10)
      in decision = Stop \<and> remaining budget = 10)"

definition resource_exhausted_retryable_with_pushback :: "rng \<Rightarrow> bool" where
  "resource_exhausted_retryable_with_pushback draw \<longleftrightarrow>
     (let (decision, budget) =
            pushback_call draw RpcReadOnly ResourceExhausted (Some ''100'') 1 False (from_secs 10)
      in decision = Retry 100 \<and> remaining budget = 9)"

definition unavailable_ignores_pushback_and_uses_jitter :: "rng \<Rightarrow> bool" where
  "unavailable_ignores_pushback_and_uses_jitter draw \<longleftrightarrow>
     (let (decision, budget) =
            pushback_call draw RpcDefault Unavailable (Some ''99999'') 0 False (from_secs 10)
      in decision = Retry (initial_backoff_ms (for_profile RpcDefault)) \<and> remaining budget = 9)"

definition pushback_skips_when_deadline_insufficient :: "rng \<Rightarrow> bool" where
  "pushback_skips_when_deadline_insufficient draw \<longleftrightarrow>
     (let (decision, budget) =
            pushback_call draw RpcReadOnly ResourceExhausted (Some ''100'') 1 False (from_millis 1)
      in decision = Stop \<and> remaining budget = 10)"

definition idempotency_admission_still_enforced_with_pushback :: "rng \<Rightarrow> bool" where
  "idempotency_admission_still_enforced_with_pushback draw \<longleftrightarrow>
     (let (decision, budget) =
            pushback_call draw RpcIdempotentWrite Unavailable None 1 True (from_secs 10)
      in decision = Stop \<and> remaining budget = 10)"

section \<open>circuit_breaker.rs\<close>

text \<open>Calls are a microsecond apart on the test's clock, which reads zero at creation; a sleep of two
  milliseconds moves it on.\<close>

definition opens_after_failure_threshold_and_recovers_in_half_open :: bool where
  "opens_after_failure_threshold_and_recovers_in_half_open \<longleftrightarrow>
     (let breaker = circuit_breaker_new
            \<lparr>failure_threshold = 2, recovery_timeout = from_millis 1, half_open_max_probes = 1\<rparr> 0;
          breaker = record_failure 1000 1000 breaker;
          (allowed1, breaker) = allow_request 2000 breaker;
          breaker = record_failure 3000 3000 breaker;
          (allowed2, breaker) = allow_request 4000 breaker;
          (allowed3, breaker) = allow_request 2005000 breaker;
          (state1, breaker) = state 2006000 breaker;
          breaker = record_success 2007000 breaker;
          (state2, breaker) = state 2008000 breaker
      in allowed1 \<and> \<not> allowed2 \<and> allowed3 \<and> state1 = HalfOpen \<and> state2 = Closed)"

definition half_open_rejects_excess_probes_until_resolution :: bool where
  "half_open_rejects_excess_probes_until_resolution \<longleftrightarrow>
     (let breaker = circuit_breaker_new
            \<lparr>failure_threshold = 1, recovery_timeout = from_millis 1, half_open_max_probes = 1\<rparr> 0;
          breaker = record_failure 1000 1000 breaker;
          (state1, breaker) = state 2000 breaker;
          (state2, breaker) = state 2003000 breaker;
          (allowed1, breaker) = allow_request 2004000 breaker;
          (allowed2, breaker) = allow_request 2005000 breaker;
          breaker = record_failure 2006000 2006000 breaker;
          (state3, breaker) = state 2007000 breaker;
          (allowed3, breaker) = allow_request 2008000 breaker
      in state1 = Open \<and> state2 = HalfOpen \<and> allowed1 \<and> \<not> allowed2 \<and> state3 = Open \<and> \<not> allowed3)"

definition half_open_allows_multiple_probes_when_configured :: bool where
  "half_open_allows_multiple_probes_when_configured \<longleftrightarrow>
     (let breaker = circuit_breaker_new
            \<lparr>failure_threshold = 1, recovery_timeout = from_millis 1, half_open_max_probes = 3\<rparr> 0;
          breaker = record_failure 1000 1000 breaker;
          (state1, breaker) = state 2002000 breaker;
          (allowed1, breaker) = allow_request 2003000 breaker;
          (allowed2, breaker) = allow_request 2004000 breaker;
          (allowed3, breaker) = allow_request 2005000 breaker;
          (allowed4, breaker) = allow_request 2006000 breaker;
          breaker = record_success 2007000 breaker;
          (state2, breaker) = state 2008000 breaker
      in state1 = HalfOpen \<and> allowed1 \<and> allowed2 \<and> allowed3 \<and> \<not> allowed4 \<and> state2 = Closed)"

section \<open>They hold\<close>

lemma profile_tests:
  critical_write_profile_does_not_retry
  default_profile_retries_unavailable_within_budget
  by code_simp+

lemma short_deadline [simp]: "\<not> deadline_covers_backoff b (from_millis (Suc 0))"
  by (simp add: deadline_covers_backoff_iff)

lemma attempts_left [simp]: "\<not> 3 \<le> (1 :: u32)" "\<not> 2 \<le> (1 :: u32)"
  by (simp_all add: word_le_nat_alt)

lemma long_deadline [simp]: "unat b \<le> 2000 \<Longrightarrow> deadline_covers_backoff b (from_secs 10)"
  by (simp add: deadline_covers_backoff_iff as_millis_def from_secs_def)

lemma profile_backoff_le [simp]:
  assumes "draws_in_range draw"
  shows "unat (retry_backoff_ms draw (for_profile p) n) \<le> 2000"
proof -
  have "unat (max_backoff_ms (for_profile p)) \<le> 2000" by (cases p) simp_all
  with profile_backoff_bounded [OF assms, of p n] show ?thesis by (simp add: word_le_nat_alt)
qed

lemmas decision_defs =
  should_retry_def should_retry_with_deadline_def should_retry_call_def
  should_retry_call_with_deadline_def allows_retry_def allows_retry_metadata_def consume_def
  tracker_new_def remaining_def Let_def

lemma budget_tests:
  assumes "draws_in_range draw"
  shows "should_retry_respects_budget_and_attempt_limits draw"
    and "should_retry_with_deadline_skips_when_remaining_is_insufficient draw"
    and "should_retry_with_deadline_proceeds_when_remaining_is_sufficient draw"
  using profile_backoff_le [OF assms, of RpcDefault 1]
  by (simp_all add: decision_defs should_retry_respects_budget_and_attempt_limits_def
      should_retry_with_deadline_skips_when_remaining_is_insufficient_def
      should_retry_with_deadline_proceeds_when_remaining_is_sufficient_def)

lemma backoff_test:
  assumes "draws_in_range draw1" and "draws_in_range draw2"
  shows "backoff_grows_with_attempts_and_stays_bounded draw1 draw2 draw3"
  unfolding backoff_grows_with_attempts_and_stays_bounded_def Let_def
  by (intro conjI profile_backoff_bounded assms) (simp add: retry_backoff_ms_def)

lemma idempotency_tests:
  assumes "draws_in_range draw"
  shows "blocks_retry_without_idempotency_key_when_required draw"
    and "allows_retry_when_idempotency_key_is_present draw"
    and "should_retry_call_with_deadline_skips_when_remaining_is_insufficient draw"
    and "should_retry_call_with_deadline_still_enforces_idempotency_admission draw"
    and "should_retry_call_with_deadline_proceeds_when_admission_and_deadline_ok draw"
  using profile_backoff_le [OF assms, of RpcIdempotentWrite 1]
  by (simp_all add: decision_defs blocks_retry_without_idempotency_key_when_required_def
      allows_retry_when_idempotency_key_is_present_def
      should_retry_call_with_deadline_skips_when_remaining_is_insufficient_def
      should_retry_call_with_deadline_still_enforces_idempotency_admission_def
      should_retry_call_with_deadline_proceeds_when_admission_and_deadline_ok_def)

lemma parsed_texts [simp]:
  "parse_u64 ''250'' = Some 250" "parse_u64 ''100'' = Some 100" "parse_u64 ''soon'' = None"
  by (simp_all add: parse_u64_def char_digit_def)

lemma extracted:
  "list_all visible_ascii t \<Longrightarrow>
     extract_retry_pushback_ms reference_metadata (status_with code (Some t)) = parse_u64 t"
  "extract_retry_pushback_ms reference_metadata (status_with code None) = None"
  by (simp_all add: extract_retry_pushback_ms_def status_with_def reference_metadata_def)

lemma status_with_code [simp]: "status_code (status_with code pushback) = code"
  by (simp add: status_with_def Let_def)

lemma extract_tests:
  extract_pushback_parses_valid_ascii_ms
  extract_pushback_returns_none_when_trailer_absent
  extract_pushback_returns_none_for_non_numeric
  by (simp_all add: extract_pushback_parses_valid_ascii_ms_def
      extract_pushback_returns_none_when_trailer_absent_def
      extract_pushback_returns_none_for_non_numeric_def extracted visible_ascii_def)

lemma pushback_tests:
  shows "effective_backoff_uses_pushback_clamped_to_max draw"
    and "effective_backoff_falls_back_to_jitter_when_pushback_absent draw"
    and "resource_exhausted_not_retryable_without_pushback draw"
    and "resource_exhausted_retryable_with_pushback draw"
    and "unavailable_ignores_pushback_and_uses_jitter draw"
    and "pushback_skips_when_deadline_insufficient draw"
    and "idempotency_admission_still_enforced_with_pushback draw"
proof -
  note defs = should_retry_call_with_pushback_def effective_retry_backoff_ms_def
    retry_backoff_ms_def decision_defs extracted visible_ascii_def
  show "effective_backoff_uses_pushback_clamped_to_max draw"
    by (simp add: effective_backoff_uses_pushback_clamped_to_max_def defs)
  show "effective_backoff_falls_back_to_jitter_when_pushback_absent draw"
    by (simp add: effective_backoff_falls_back_to_jitter_when_pushback_absent_def defs)
  show "resource_exhausted_not_retryable_without_pushback draw"
    by (simp add: resource_exhausted_not_retryable_without_pushback_def defs)
  show "resource_exhausted_retryable_with_pushback draw"
    by (simp add: resource_exhausted_retryable_with_pushback_def defs)
  show "unavailable_ignores_pushback_and_uses_jitter draw"
    by (simp add: unavailable_ignores_pushback_and_uses_jitter_def defs)
  show "pushback_skips_when_deadline_insufficient draw"
    by (simp add: pushback_skips_when_deadline_insufficient_def defs)
  show "idempotency_admission_still_enforced_with_pushback draw"
    by (simp add: idempotency_admission_still_enforced_with_pushback_def defs)
qed

lemma breaker_tests:
  opens_after_failure_threshold_and_recovers_in_half_open
  half_open_rejects_excess_probes_until_resolution
  half_open_allows_multiple_probes_when_configured
  by (simp_all add: opens_after_failure_threshold_and_recovers_in_half_open_def
      half_open_rejects_excess_probes_until_resolution_def
      half_open_allows_multiple_probes_when_configured_def circuit_breaker_new_def
      record_failure_def record_success_def allow_request_def state_def refresh_state_def
      recovery_due_def open_breaker_def elapsed_nanos_def acquire_half_open_probe_def
      from_u8_def CLOSED_U8_def OPEN_U8_def HALF_OPEN_U8_def saturating_add_def elapsed_since_def
      from_nanos_def from_millis_def Let_def)

end
