(* ===== verification/Identity_Tests.thy ===== *)
theory Identity_Tests
  imports End_To_End Server_Lifecycle
begin

text \<open>
  The unit tests of identities and caller contexts, as statements about the model: \<open>identity.rs\<close>,
  \<open>surface.rs\<close>, \<open>service_identity.rs\<close> and \<open>caller_context.rs\<close> of crate \<open>sdkwork-rpc-core\<close>,
  \<open>metadata.rs\<close> of crate \<open>sdkwork-rpc-client\<close> and \<open>security.rs\<close> of crate \<open>sdkwork-rpc-server\<close>. Each
  definition is the body of one test function. Clock readings and nonces that a test takes from the
  system are arguments; external code is the reference instance, in which a certificate is its
  list of subject alternative names. The lemmas at the end show that the tests pass.
\<close>

text \<open>\<open>expect\<close>: the rest of the test runs on the value, an error fails it.\<close>

definition expects :: "'e + 'a \<Rightarrow> ('a \<Rightarrow> bool) \<Rightarrow> bool" where
  "expects r P = (case r of Inl _ \<Rightarrow> False | Inr x \<Rightarrow> P x)"

lemma expects_simps [simp]: "expects (Inr x) P = P x" "\<not> expects (Inl e) P"
  by (simp_all add: expects_def)

section \<open>Core vocabulary\<close>

definition builds_canonical_identity_uri :: bool where
  "builds_canonical_identity_uri \<longleftrightarrow>
     build_rpc_identity_uri
       \<lparr>ip_namespace = ''acme'', ip_environment = ''production'', ip_rpc_surface = ''internal'',
        ip_proto_package = ''sdkwork.communication.internal.v1'',
        ip_service = ''RoomOrchestrationService'', ip_method = ''CreateRoom'',
        ip_operation_id = ''rooms.create''\<rparr> =
     ''sdkwork-rpc://acme/production/internal/sdkwork.communication.internal.v1/RoomOrchestrationService/CreateRoom?operationId=rooms.create''"

definition accepts_canonical_surfaces :: bool where
  "accepts_canonical_surfaces \<longleftrightarrow>
     validate_rpc_surface ''internal'' = Ok Internal \<and> \<not> is_ok (validate_rpc_surface ''public'')"

section \<open>Service identity\<close>

definition x509_with_sans :: "GeneralName list \<Rightarrow> unit x509" where
  "x509_with_sans sans =
     \<lparr>from_der = (\<lambda>_. Ok ()), subject_alternative_name = (\<lambda>_. Ok (Some sans))\<rparr>"

definition derives_allowed_spiffe_service_identity_from_certificate :: "bytes \<Rightarrow> bool" where
  "derives_allowed_spiffe_service_identity_from_certificate der \<longleftrightarrow>
     (let certificate = x509_with_sans
            [URI ''spiffe://sdkwork.internal/sdkwork/service/sdkwork-knowledgebase'']
      in expects (policy_new ''sdkwork.internal'' [''sdkwork-knowledgebase'']) (\<lambda>policy.
         expects (verify_tls_peer_certificate_der certificate reference_utils policy der) (\<lambda>identity.
           vi_service_id identity = ''sdkwork-knowledgebase'' \<and>
           vi_trust_domain identity = ''sdkwork.internal'' \<and>
           length (vi_certificate_sha256 identity) = 64)))"

definition rejects_ambiguous_or_untrusted_spiffe_identity :: "bytes \<Rightarrow> bytes \<Rightarrow> bool" where
  "rejects_ambiguous_or_untrusted_spiffe_identity der1 der2 \<longleftrightarrow>
     (let ambiguous = x509_with_sans
            [URI ''spiffe://sdkwork.internal/sdkwork/service/sdkwork-knowledgebase'',
             URI ''spiffe://sdkwork.internal/sdkwork/service/sdkwork-im''];
          wrong_domain = x509_with_sans
            [URI ''spiffe://other.internal/sdkwork/service/sdkwork-knowledgebase'']
      in expects (policy_new ''sdkwork.internal'' [''sdkwork-knowledgebase'']) (\<lambda>policy.
           \<not> is_ok (verify_tls_peer_certificate_der ambiguous reference_utils policy der1) \<and>
           \<not> is_ok (verify_tls_peer_certificate_der wrong_domain reference_utils policy der2)))"

section \<open>Caller context\<close>

definition signs_and_verifies_context_bound_to_peer_and_idempotency_key :: "string \<Rightarrow> bool" where
  "signs_and_verifies_context_bound_to_peer_and_idempotency_key nonce \<longleftrightarrow>
     expects (from_secret_bytes sample_key) (\<lambda>key.
     expects (signer_new ''sdkwork-knowledgebase'' key) (\<lambda>signer.
     expects (build sample_builder) (\<lambda>caller_context.
     let now = sample_now
     in expects (sign_at reference_utils reference_json signer caller_context (from_secs 60) now nonce)
          (\<lambda>signed.
        expects (verifier_new ''sdkwork-im'' [(''sdkwork-knowledgebase'', key)]) (\<lambda>verifier.
        expects (verify reference_utils reference_json verifier signed sample_peer
          (Some ''idempotency-1'') now) (\<lambda>verified.
          vc_actor_id verified = ''300001'' \<and>
          vc_issuer_service_id verified = ''sdkwork-knowledgebase''))))))"

definition rejects_signature_tampering_peer_mismatch_and_expired_context :: "string \<Rightarrow> bool" where
  "rejects_signature_tampering_peer_mismatch_and_expired_context nonce \<longleftrightarrow>
     expects (from_secret_bytes sample_key) (\<lambda>key.
     expects (signer_new ''sdkwork-knowledgebase'' key) (\<lambda>signer.
     expects (build sample_builder) (\<lambda>caller_context.
     let now = sample_now
     in expects (sign_at reference_utils reference_json signer caller_context (from_secs 60) now nonce)
          (\<lambda>signed.
        expects (verifier_new ''sdkwork-im'' [(''sdkwork-knowledgebase'', key)]) (\<lambda>verifier.
          let verify = verify reference_utils reference_json verifier;
              tampered = signed\<lparr>sc_signature := sc_signature signed @ ''A''\<rparr>;
              wrong_peer = sample_peer\<lparr>vi_service_id := ''sdkwork-other''\<rparr>
          in \<not> is_ok (verify tampered sample_peer (Some ''idempotency-1'') now) \<and>
             \<not> is_ok (verify signed wrong_peer (Some ''idempotency-1'') now) \<and>
             \<not> is_ok (verify signed sample_peer (Some ''idempotency-1'')
                        (now + int (from_secs 91))))))))"

section \<open>Client metadata\<close>

definition no_call_metadata :: RpcCallMetadata where
  "no_call_metadata =
     \<lparr>cm_authorization = None, cm_access_token = None, cm_request_id = None,
      cm_traceparent = None, cm_idempotency_key = None, cm_request_hash = None\<rparr>"

definition applies_standard_metadata_keys :: bool where
  "applies_standard_metadata_keys \<longleftrightarrow>
     (let map = call_metadata_apply_to reference_utils reference_keys reference_metadata
            (no_call_metadata\<lparr>cm_request_id := Some ''req-1'', cm_traceparent := Some ''00-abc-def-01'',
               cm_idempotency_key := Some ''idem-1''\<rparr>) (md_new reference_metadata)
      in map_option (mv_to_str reference_metadata)
           (md_get reference_metadata map (RPC_REQUEST_ID_METADATA reference_keys)) =
           Some (Some ''req-1'') \<and>
         has_idempotency_key reference_utils
           (no_call_metadata\<lparr>cm_idempotency_key := Some ''idem-1''\<rparr>))"

text \<open>The three tests of the signed credential issue it in the same way, with or without an
  idempotency key in the context.\<close>

definition credential_test_builder :: "string option \<Rightarrow> RpcCallerContextBuilder" where
  "credential_test_builder idempotency_key =
     set_audience_service_id ''sdkwork-im''
       (case_option id set_idempotency_key idempotency_key
         (set_request_id ''request-1'' (set_session_id ''session-1'' (set_actor_kind User
         (set_actor_id ''300001'' (set_organization_id ''200001'' (set_tenant_id ''100001''
           caller_context_builder)))))))"

definition test_credential ::
  "string option \<Rightarrow> system_time \<Rightarrow> string \<Rightarrow> RpcFrameworkError + RpcServiceCredential" where
  "test_credential idempotency_key now nonce =
     and_then (from_secret_bytes (replicate 32 (CHR 0x09))) (\<lambda>key.
     and_then (signer_new ''sdkwork-knowledgebase'' key) (\<lambda>signer.
     and_then (provider_new signer (from_secs 60)) (\<lambda>provider.
     and_then (build (credential_test_builder idempotency_key)) (\<lambda>caller_context.
       issue reference_utils reference_json provider caller_context now nonce))))"

definition signed_service_credential_writes_only_framework_owned_metadata ::
  "system_time \<Rightarrow> string \<Rightarrow> bool" where
  "signed_service_credential_writes_only_framework_owned_metadata now nonce \<longleftrightarrow>
     expects (test_credential (Some ''idempotency-1'') now nonce) (\<lambda>credential.
       let (applied, metadata) =
             credential_apply_to reference_keys reference_metadata credential (md_new reference_metadata)
       in is_ok applied \<and>
          md_get reference_metadata metadata RPC_CALLER_CONTEXT_METADATA \<noteq> None \<and>
          md_get reference_metadata metadata RPC_CALLER_CONTEXT_SIGNATURE_METADATA \<noteq> None \<and>
          Option.bind (md_get reference_metadata metadata (RPC_IDEMPOTENCY_KEY_METADATA reference_keys))
            (mv_to_str reference_metadata) = Some ''idempotency-1'')"

definition signed_service_credential_omits_absent_idempotency_metadata ::
  "system_time \<Rightarrow> string \<Rightarrow> bool" where
  "signed_service_credential_omits_absent_idempotency_metadata now nonce \<longleftrightarrow>
     expects (test_credential None now nonce) (\<lambda>credential.
       let (applied, metadata) =
             credential_apply_to reference_keys reference_metadata credential (md_new reference_metadata)
       in is_ok applied \<and>
          md_get reference_metadata metadata (RPC_IDEMPOTENCY_KEY_METADATA reference_keys) = None)"

definition signed_service_credential_rejects_conflicting_idempotency_metadata ::
  "system_time \<Rightarrow> string \<Rightarrow> bool" where
  "signed_service_credential_rejects_conflicting_idempotency_metadata now nonce \<longleftrightarrow>
     expects (test_credential (Some ''idempotency-1'') now nonce) (\<lambda>credential.
       let metadata = md_insert reference_metadata (md_new reference_metadata)
             (RPC_IDEMPOTENCY_KEY_METADATA reference_keys)
             (the (metadata_value reference_metadata ''different-idempotency-key''));
           (applied, metadata) =
             credential_apply_to reference_keys reference_metadata credential metadata
       in (case applied of Err (Validation _) \<Rightarrow> True | _ \<Rightarrow> False) \<and>
          md_get reference_metadata metadata RPC_CALLER_CONTEXT_METADATA = None)"

section \<open>Server security\<close>

definition test_security :: "RpcFrameworkError + RpcInternalServiceSecurity" where
  "test_security =
     and_then (policy_new ''sdkwork.internal'' [''sdkwork-knowledgebase'']) (\<lambda>policy.
       Ok (security_new policy None))"

text \<open>\<open>Request::new\<close>: no metadata, no peer, no extensions.\<close>

definition request_new :: "(string \<rightharpoonup> string) request" where
  "request_new =
     \<lparr>rq_metadata = md_new reference_metadata, rq_peer_certs = None, ext_service_identity = None,
      ext_caller_context = None\<rparr>"

definition fails_closed_without_a_tls_peer_certificate :: "system_time \<Rightarrow> bool" where
  "fails_closed_without_a_tls_peer_certificate now \<longleftrightarrow>
     expects test_security (\<lambda>security.
       case verify_and_inject reference_utils reference_json sample_x509 reference_metadata security
              now request_new of
         (Err error, _) \<Rightarrow> status_code error \<in> {FailedPrecondition, Unauthenticated}
       | (Ok _, _) \<Rightarrow> False)"

definition no_header_value_can_create_a_verified_identity :: "system_time \<Rightarrow> bool" where
  "no_header_value_can_create_a_verified_identity now \<longleftrightarrow>
     expects test_security (\<lambda>security.
       let request = request_new\<lparr>rq_metadata :=
             md_insert reference_metadata (rq_metadata request_new)
               RPC_SERVICE_IDENTITY_ASSERTION_METADATA
               (the (metadata_value reference_metadata ''sdkwork-knowledgebase''))\<rparr>;
           (result, request) = verify_and_inject reference_utils reference_json sample_x509
             reference_metadata security now request
       in \<not> is_ok result \<and> ext_service_identity request = None)"

definition internal_security_rejects_a_non_mtls_listener_config :: "file_system \<Rightarrow> bool" where
  "internal_security_rejects_a_non_mtls_listener_config fs \<longleftrightarrow>
     (let tls = \<lparr>st_server_cert_path = ''server.pem'', st_server_key_path = ''server.key'',
                 st_client_ca_certificate_path = None, st_client_auth_optional = False\<rparr>
      in expects test_security (\<lambda>security. \<not> is_ok (validate_mtls_listener security fs tls)))"

text \<open>
  The two mTLS tests run a server; here is what its interceptor decides. The handshake has
  accepted the client's certificate, so the request carries it; \<open>der\<close> stands for the certificate
  with the SPIFFE URI that \<open>x509_with_sans\<close> reads.
\<close>

definition mtls_security :: "RpcFrameworkError + RpcInternalServiceSecurity" where
  "mtls_security =
     and_then (from_secret_bytes (replicate 32 (CHR 0x04))) (\<lambda>signing_key.
     and_then (policy_new ''sdkwork.internal'' [''sdkwork-knowledgebase'']) (\<lambda>policy.
     and_then (verifier_new ''sdkwork-im'' [(''sdkwork-knowledgebase'', signing_key)]) (\<lambda>verifier.
       Ok (security_new policy (Some verifier)))))"

definition signed_health_request ::
  "system_time \<Rightarrow> string \<Rightarrow> RpcFrameworkError + (string \<rightharpoonup> string) request" where
  "signed_health_request now nonce =
     and_then (from_secret_bytes (replicate 32 (CHR 0x04))) (\<lambda>signing_key.
     and_then (signer_new ''sdkwork-knowledgebase'' signing_key) (\<lambda>signer.
     and_then (build (credential_test_builder (Some ''idempotency-1''))) (\<lambda>caller_context.
     and_then (sign reference_utils reference_json signer caller_context (from_secs 60) now nonce)
       (\<lambda>signed.
        let insert = (\<lambda>key value md. md_insert reference_metadata md key
              (the (metadata_value reference_metadata value)))
        in Ok (request_new\<lparr>rq_metadata :=
             insert (RPC_IDEMPOTENCY_KEY_METADATA reference_keys) ''idempotency-1''
               (insert RPC_CALLER_CONTEXT_SIGNATURE_METADATA (sc_signature signed)
                 (insert RPC_CALLER_CONTEXT_METADATA (sc_encoded_context signed)
                   (rq_metadata request_new)))\<rparr>)))))"

definition accepts_the_expected_mtls_spiffe_identity_and_signed_caller_context ::
  "bytes \<Rightarrow> system_time \<Rightarrow> string \<Rightarrow> system_time \<Rightarrow> bool" where
  "accepts_the_expected_mtls_spiffe_identity_and_signed_caller_context der signed_at nonce now \<longleftrightarrow>
     expects mtls_security (\<lambda>security.
     expects (signed_health_request signed_at nonce) (\<lambda>request.
       is_ok (interceptor_call reference_utils reference_json
         (x509_with_sans [URI ''spiffe://sdkwork.internal/sdkwork/service/sdkwork-knowledgebase''])
         reference_metadata security now (request\<lparr>rq_peer_certs := Some [der]\<rparr>))))"

definition unauthenticated :: "'md status + 'a \<Rightarrow> bool" where
  "unauthenticated r = (case r of Inl error \<Rightarrow> status_code error = Unauthenticated | Inr _ \<Rightarrow> False)"

definition rejects_wrong_spiffe_identity_and_spoofed_service_assertion ::
  "bytes \<Rightarrow> bytes \<Rightarrow> system_time \<Rightarrow> string \<Rightarrow> system_time \<Rightarrow> bool" where
  "rejects_wrong_spiffe_identity_and_spoofed_service_assertion der1 der2 signed_at nonce now \<longleftrightarrow>
     expects mtls_security (\<lambda>security.
     expects (signed_health_request signed_at nonce) (\<lambda>request.
       let check = (\<lambda>uri der request. interceptor_call reference_utils reference_json
             (x509_with_sans [URI uri]) reference_metadata security now
             (request\<lparr>rq_peer_certs := Some [der]\<rparr>));
           spoofed = request\<lparr>rq_metadata := md_insert reference_metadata (rq_metadata request)
             RPC_SERVICE_IDENTITY_ASSERTION_METADATA
             (the (metadata_value reference_metadata ''sdkwork-untrusted''))\<rparr>
       in unauthenticated (check ''spiffe://sdkwork.internal/sdkwork/service/sdkwork-untrusted''
            der1 request_new) \<and>
          unauthenticated (check ''spiffe://sdkwork.internal/sdkwork/service/sdkwork-knowledgebase''
            der2 spoofed)))"

section \<open>They hold\<close>

lemma vocabulary_tests:
  builds_canonical_identity_uri
  accepts_canonical_surfaces
  by code_simp+

lemma test_policy: "policy_new ''sdkwork.internal'' [''sdkwork-knowledgebase''] = Ok sample_policy"
  by code_simp

lemma service_identity_tests:
  "derives_allowed_spiffe_service_identity_from_certificate der"
  "rejects_ambiguous_or_untrusted_spiffe_identity der1 der2"
  unfolding derives_allowed_spiffe_service_identity_from_certificate_def
    rejects_ambiguous_or_untrusted_spiffe_identity_def test_policy Let_def expects_simps
  by code_simp+

lemma length_from_sextets: "from_sextets ss = Some bs \<Longrightarrow> length bs = length ss * 3 div 4"
  by (induction ss arbitrary: bs rule: from_sextets.induct) (auto split: if_splits)

lemma length_sextets_of_string: "sextets_of_string s = Some ss \<Longrightarrow> length ss = length s"
  by (induction s arbitrary: ss) (auto split: option.splits)

lemma length_rfc4648_decode: "rfc4648_decode s = Some b \<Longrightarrow> length b = length s * 3 div 4"
  by (auto simp: rfc4648_decode_def Option.bind_eq_Some_conv length_from_sextets
      dest!: length_sextets_of_string)

text \<open>A signature with one character more decodes to 33 bytes, a tag has 32.\<close>

lemma tampered_tag:
  assumes "length key = 32"
    and "rfc4648_decode (rfc4648_encode (reference_tag m key) @ ''A'') = Some tag"
  shows "tag \<noteq> reference_tag m key"
proof -
  have "length (reference_tag m key) = 32" using assms(1) by (simp add: reference_tag_def)
  moreover from this have "length tag = 33"
    using length_rfc4648_decode [OF assms(2)] by (simp add: rfc4648_encode_def length_to_sextets)
  ultimately show ?thesis by auto
qed

lemma test_key [simp]: "from_secret_bytes sample_key = Ok sample_key"
  by code_simp

lemma clock_advance: "clock_seconds (sample_now + int (from_secs 91)) = 1700000091"
  by (simp add: sample_now_def from_secs_def clock_seconds_def)

lemma reference_codec:
  "base64url_encode reference_utils = rfc4648_encode"
  "hmac_sha256_base64url reference_utils m k = rfc4648_encode (reference_tag m k)"
  by (simp_all add: reference_utils_def)

text \<open>The signed context of the two tests, and what a verifier does with it.\<close>

lemma test_context:
  assumes "valid_identifier nonce"
  obtains sctx b iss expi vc where
    "sign_at reference_utils reference_json sample_signer sample_context (from_secs 60) sample_now
       nonce = Ok sctx"
    "sctx = \<lparr>sc_encoded_context = rfc4648_encode b,
       sc_signature = rfc4648_encode (reference_tag (signing_input (rfc4648_encode b)) sample_key)\<rparr>"
    "from_slice reference_json b = Ok (payload_of sample_signer sample_context iss expi nonce)"
    "sint expi = 1700000060"
    "verify reference_utils reference_json sample_verifier sctx sample_peer (Some ''idempotency-1'')
       sample_now = Ok vc"
    "vc_actor_id vc = ''300001''" "vc_issuer_service_id vc = ''sdkwork-knowledgebase''"
proof -
  obtain sctx vc where sign: "sign_at reference_utils reference_json sample_signer sample_context
      (from_secs 60) sample_now nonce = Ok sctx"
    and vc: "verify reference_utils reference_json sample_verifier sctx sample_peer
      (Some ''idempotency-1'') sample_now = Ok vc"
      "vc_actor_id vc = ''300001''" "vc_issuer_service_id vc = ''sdkwork-knowledgebase''"
    using sign_then_verify [OF reference_base64url reference_hmac reference_json_laws
        sample_build sample_signer_new, of "[(''sdkwork-knowledgebase'', sample_key)]"
        sample_verifier sample_peer "from_secs 60" sample_now sample_now nonce]
      sample_verifier_new sample_clock assms
    by (auto simp: sample_context_def sample_peer_def from_secs_def as_secs_def)
  have ttl: "0 < from_secs 60" "from_secs 60 \<le> from_secs 300" "as_secs (from_secs 60) = 60"
    by (simp_all add: from_secs_def as_secs_def)
  have now: "0 \<le> sample_now" "clock_seconds sample_now + 300 < 2 ^ 63"
    by (simp_all add: sample_clock)
  show thesis
    by (rule sign_at_writes [OF sample_signer_new reference_json_laws(1) ttl(1,2) now,
        of sample_context nonce reference_utils])
      (rule that [OF sign _ _ _ vc], simp_all add: sign ttl(3) sample_clock reference_codec)
qed

lemmas test_verifier = is_ok_iff verify_Ok_iff [OF sample_verifier_new] accepts_def

lemma caller_context_tests:
  assumes "valid_identifier nonce"
  shows "signs_and_verifies_context_bound_to_peer_and_idempotency_key nonce"
    and "rejects_signature_tampering_peer_mismatch_and_expired_context nonce"
proof -
  obtain sctx b iss expi vc where sign: "sign_at reference_utils reference_json sample_signer
      sample_context (from_secs 60) sample_now nonce = Ok sctx"
    and sctx: "sctx = \<lparr>sc_encoded_context = rfc4648_encode b,
      sc_signature = rfc4648_encode (reference_tag (signing_input (rfc4648_encode b)) sample_key)\<rparr>"
    and b: "from_slice reference_json b = Ok (payload_of sample_signer sample_context iss expi nonce)"
      "sint expi = 1700000060"
    and vc: "verify reference_utils reference_json sample_verifier sctx sample_peer
      (Some ''idempotency-1'') sample_now = Ok vc"
      "vc_actor_id vc = ''300001''" "vc_issuer_service_id vc = ''sdkwork-knowledgebase''"
    using test_context [OF assms] by blast
  from sign vc show "signs_and_verifies_context_bound_to_peer_and_idempotency_key nonce"
    by (simp add: signs_and_verifies_context_bound_to_peer_and_idempotency_key_def sample_build
        sample_signer_new sample_verifier_new)
  have "\<not> is_ok (verify reference_utils reference_json sample_verifier
      (sctx\<lparr>sc_signature := sc_signature sctx @ ''A''\<rparr>) sample_peer (Some ''idempotency-1'') sample_now)"
    using tampered_tag [of sample_key]
    by (auto simp: test_verifier sctx reference_utils_def sample_peer_def sample_key_def)
  moreover have "\<not> is_ok (verify reference_utils reference_json sample_verifier sctx
      (sample_peer\<lparr>vi_service_id := ''sdkwork-other''\<rparr>) (Some ''idempotency-1'') sample_now)"
    by (auto simp: test_verifier)
  moreover have "\<not> is_ok (verify reference_utils reference_json sample_verifier sctx sample_peer
      (Some ''idempotency-1'') (sample_now + int (from_secs 91)))"
    using b
    by (auto simp: test_verifier sctx clock_advance reference_utils_def rfc4648_roundtrip
        payload_of_def)
  ultimately show "rejects_signature_tampering_peer_mismatch_and_expired_context nonce"
    using sign
    by (simp add: rejects_signature_tampering_peer_mismatch_and_expired_context_def sample_build
        sample_signer_new sample_verifier_new Let_def)
qed

lemma call_metadata_test: applies_standard_metadata_keys
  by code_simp

lemma credential_test_context:
  "is_ok (build (credential_test_builder (Some ''idempotency-1'')))"
  "is_ok (build (credential_test_builder None))"
  by code_simp+

lemma build_keeps:
  assumes "build bld = Ok ctx"
  shows "cc_idempotency_key ctx = cb_idempotency_key bld"
    and "cb_audience_service_id bld = Some (cc_audience_service_id ctx)"
  using assms by (auto simp: build_def required_identifier_def result_simps Let_def)

lemma credential_test_fields:
  "cb_idempotency_key (credential_test_builder k) = k"
  "cb_audience_service_id (credential_test_builder k) = Some ''sdkwork-im''"
  by (cases k; simp add: credential_test_builder_def set_audience_service_id_def
      set_idempotency_key_def set_request_id_def set_session_id_def set_actor_kind_def
      set_actor_id_def set_organization_id_def set_tenant_id_def caller_context_builder_def)+

lemma test_credential_issued:
  assumes "0 \<le> now" and "clock_seconds now + 300 < 2 ^ 63" and "k \<in> {None, Some ''idempotency-1''}"
  obtains c where "test_credential k now nonce = Ok c"
    and "credential_sendable reference_keys reference_metadata c" and "cr_idempotency_key c = k"
proof -
  let ?key = "replicate 32 (CHR 0x09)"
  have key: "from_secret_bytes ?key = Ok ?key" by code_simp
  obtain signer where s: "signer_new ''sdkwork-knowledgebase'' ?key = Ok signer"
    using signer_new_Ok_iff sample_ids(1) by blast
  obtain ctx where ctx: "build (credential_test_builder k) = Ok ctx"
    using assms(3) credential_test_context by (auto simp: is_ok_iff)
  have ttl: "0 < from_secs 60" "from_secs 60 \<le> from_secs 300" by (simp_all add: from_secs_def)
  obtain sctx where sctx: "sign_at reference_utils reference_json signer ctx (from_secs 60) now nonce =
      Ok sctx"
    using sign_at_writes [OF s reference_json_laws(1) ttl assms(1,2)] by metis
  let ?c = "\<lparr>cr_signed_caller_context = sctx, cr_idempotency_key = cc_idempotency_key ctx\<rparr>"
  have "cc_idempotency_key ctx = k"
    using build_keeps(1) [OF ctx] by (simp add: credential_test_fields)
  moreover have "test_credential k now nonce = Ok ?c"
    using ttl by (simp add: test_credential_def key s ctx sctx provider_new_def issue_def sign_def
        reject_if_def)
  moreover have "credential_sendable reference_keys reference_metadata ?c"
    by (rule issued_credential_sendable [OF reference_base64url(2) reference_text
          reference_json_laws(1) reference_json_rejects_empty reference_metadata_laws(3) _ ctx s ttl
          assms(1,2) sctx]) (simp add: reference_keys_def)
  ultimately show thesis by (intro that [of ?c]) simp_all
qed

lemma header_reference: "header reference_metadata md k = md k"
  by (cases "md k") (simp_all add: header_def reference_metadata_def)

lemma credential_tests:
  assumes "0 \<le> now" and "clock_seconds now + 300 < 2 ^ 63"
  shows "signed_service_credential_writes_only_framework_owned_metadata now nonce"
    and "signed_service_credential_omits_absent_idempotency_metadata now nonce"
    and "signed_service_credential_rejects_conflicting_idempotency_metadata now nonce"
proof -
  have empty: "md_new reference_metadata = Map.empty" and get: "md_get reference_metadata m k = m k"
    and str: "mv_to_str reference_metadata = Some" for m k
    by (simp_all add: reference_metadata_def)
  have idem: "RPC_IDEMPOTENCY_KEY_METADATA reference_keys = ''idempotency-key''"
    by (simp add: reference_keys_def)
  have applied: "\<exists>md. credential_apply_to reference_keys reference_metadata c Map.empty = (Ok (), md) \<and>
      md RPC_CALLER_CONTEXT_METADATA \<noteq> None \<and> md RPC_CALLER_CONTEXT_SIGNATURE_METADATA \<noteq> None \<and>
      md ''idempotency-key'' = cr_idempotency_key c"
    if "credential_sendable reference_keys reference_metadata c" for c
    using credential_applied [OF reference_metadata_laws(1,2) that
        fresh_metadata(3) [OF reference_metadata_laws(1)]] assertion_key_distinct(2)
    by (auto simp: fun_eq_iff header_reference empty idem)
  obtain c where c: "test_credential (Some ''idempotency-1'') now nonce = Ok c"
      "credential_sendable reference_keys reference_metadata c"
      "cr_idempotency_key c = Some ''idempotency-1''"
    using test_credential_issued [OF assms, of "Some ''idempotency-1''"] by auto
  from applied [OF c(2)] c(1,3)
  show "signed_service_credential_writes_only_framework_owned_metadata now nonce"
    by (auto simp: signed_service_credential_writes_only_framework_owned_metadata_def empty get str
        idem)
  have conflict: "\<exists>m. validate_bound_idempotency_metadata reference_keys reference_metadata
      [''idempotency-key'' \<mapsto> ''different-idempotency-key''] (Some ''idempotency-1'') =
      Err (Validation m)"
    by (simp add: validate_bound_idempotency_metadata_def idem get str)
  then show "signed_service_credential_rejects_conflicting_idempotency_metadata now nonce"
    using c(1,3) assertion_key_distinct(2)
    by (auto simp: signed_service_credential_rejects_conflicting_idempotency_metadata_def idem
        credential_apply_to_def reference_metadata_def visible_ascii_def)
  obtain c0 where "test_credential None now nonce = Ok c0"
      "credential_sendable reference_keys reference_metadata c0" "cr_idempotency_key c0 = None"
    using test_credential_issued [OF assms, of None] by auto
  with applied [of c0] show "signed_service_credential_omits_absent_idempotency_metadata now nonce"
    by (auto simp: signed_service_credential_omits_absent_idempotency_metadata_def empty get idem)
qed

lemma security_tests:
  "fails_closed_without_a_tls_peer_certificate now"
  "no_header_value_can_create_a_verified_identity now"
  "internal_security_rejects_a_non_mtls_listener_config fs"
  by (simp_all add: fails_closed_without_a_tls_peer_certificate_def
      no_header_value_can_create_a_verified_identity_def
      internal_security_rejects_a_non_mtls_listener_config_def test_security_def test_policy
      verify_and_inject_def request_new_def status_new_def validate_mtls_listener_def
      validate_mtls_def ok_or_def reject_if_def Let_def)

text \<open>The parts of the mTLS tests.\<close>

lemma mtls_key: "from_secret_bytes (replicate 32 (CHR 0x04)) = Ok (replicate 32 (CHR 0x04))"
  by code_simp

definition mtls_verifier :: RpcCallerContextVerifier where
  "mtls_verifier =
     sample_verifier\<lparr>vf_issuer_keys := [(''sdkwork-knowledgebase'', replicate 32 (CHR 0x04))]\<rparr>"

lemma mtls_verifier_new:
  "verifier_new ''sdkwork-im'' [(''sdkwork-knowledgebase'', replicate 32 (CHR 0x04))] =
     Ok mtls_verifier"
  by (simp add: verifier_new_Ok_iff sample_ids sample_verifier_def mtls_verifier_def btree_map_def)

lemma mtls_security_eq: "mtls_security = Ok (security_new sample_policy (Some mtls_verifier))"
  by (simp add: mtls_security_def mtls_key test_policy mtls_verifier_new)

lemma mtls_peer:
  "verify_tls_peer_certificate_der
     (x509_with_sans [URI ''spiffe://sdkwork.internal/sdkwork/service/sdkwork-knowledgebase''])
     reference_utils sample_policy der = Ok sample_peer"
  "verify_tls_peer_certificate_der
     (x509_with_sans [URI ''spiffe://sdkwork.internal/sdkwork/service/sdkwork-untrusted''])
     reference_utils sample_policy der =
     Err (Validation ''mTLS peer service identity `sdkwork-untrusted` is not allowed'')"
  by code_simp+

lemma signed_health_request_ok:
  assumes "0 \<le> t" and "clock_seconds t + 300 < 2 ^ 63" and "valid_identifier nonce"
    and "clock_ok now" "clock_seconds t - 30 \<le> clock_seconds now"
      "clock_seconds now \<le> clock_seconds t + 90"
  obtains e g vc where
    "signed_health_request t nonce = Ok (request_new\<lparr>rq_metadata :=
       [RPC_CALLER_CONTEXT_METADATA \<mapsto> e, RPC_CALLER_CONTEXT_SIGNATURE_METADATA \<mapsto> g,
        ''idempotency-key'' \<mapsto> ''idempotency-1'']\<rparr>)"
    and "verify reference_utils reference_json mtls_verifier
      \<lparr>sc_encoded_context = e, sc_signature = g\<rparr> sample_peer (Some ''idempotency-1'') now = Ok vc"
proof -
  let ?key = "replicate 32 (CHR 0x04)" and ?k = "Some ''idempotency-1''"
  obtain s where s: "signer_new ''sdkwork-knowledgebase'' ?key = Ok s"
    using signer_new_Ok_iff sample_ids(1) by blast
  obtain ctx where ctx: "build (credential_test_builder ?k) = Ok ctx"
    using credential_test_context by (auto simp: is_ok_iff)
  have aud: "cc_audience_service_id ctx = ''sdkwork-im''" and idem: "cc_idempotency_key ctx = ?k"
    using build_keeps [OF ctx] by (simp_all add: credential_test_fields)
  obtain sctx vc where sctx: "sign_at reference_utils reference_json s ctx (from_secs 60) t nonce =
      Ok sctx"
    and vc: "verify reference_utils reference_json mtls_verifier sctx sample_peer ?k now = Ok vc"
    using sign_then_verify [OF reference_base64url reference_hmac reference_json_laws ctx s,
        of "[(''sdkwork-knowledgebase'', ?key)]" mtls_verifier sample_peer "from_secs 60" t now nonce]
      mtls_verifier_new assms aud idem
    by (auto simp: sample_peer_def from_secs_def as_secs_def)
  have "credential_sendable reference_keys reference_metadata
      \<lparr>cr_signed_caller_context = sctx, cr_idempotency_key = cc_idempotency_key ctx\<rparr>"
    by (rule issued_credential_sendable [OF reference_base64url(2) reference_text
          reference_json_laws(1) reference_json_rejects_empty reference_metadata_laws(3) _ ctx s _ _
          assms(1,2) sctx]) (simp_all add: reference_keys_def from_secs_def)
  then have "signed_health_request t nonce = Ok (request_new\<lparr>rq_metadata :=
       [RPC_CALLER_CONTEXT_METADATA \<mapsto> sc_encoded_context sctx,
        RPC_CALLER_CONTEXT_SIGNATURE_METADATA \<mapsto> sc_signature sctx,
        ''idempotency-key'' \<mapsto> ''idempotency-1'']\<rparr>)"
    by (auto simp: signed_health_request_def mtls_key s ctx sign_def sctx request_new_def Let_def
        reference_keys_def credential_sendable_def sendable_def reference_metadata_def
        visible_ascii_def split: if_splits)
  from that [OF this] vc show thesis by (simp add: signed_context_eta)
qed

lemma assertion_key:
  "RPC_SERVICE_IDENTITY_ASSERTION_METADATA \<noteq> RPC_CALLER_CONTEXT_METADATA"
  "RPC_SERVICE_IDENTITY_ASSERTION_METADATA \<noteq> RPC_CALLER_CONTEXT_SIGNATURE_METADATA"
  "RPC_SERVICE_IDENTITY_ASSERTION_METADATA \<noteq> ''idempotency-key''"
  "RPC_CALLER_CONTEXT_METADATA \<noteq> ''idempotency-key''"
  "RPC_CALLER_CONTEXT_SIGNATURE_METADATA \<noteq> ''idempotency-key''"
  using assertion_key_distinct by auto

lemma mtls_tests:
  assumes "0 \<le> t" and "clock_seconds t + 300 < 2 ^ 63" and "valid_identifier nonce"
    and "clock_ok now" "clock_seconds t - 30 \<le> clock_seconds now"
      "clock_seconds now \<le> clock_seconds t + 90"
  shows "accepts_the_expected_mtls_spiffe_identity_and_signed_caller_context der t nonce now"
    and "rejects_wrong_spiffe_identity_and_spoofed_service_assertion der1 der2 t nonce now"
proof -
  obtain e g vc where r: "signed_health_request t nonce = Ok (request_new\<lparr>rq_metadata :=
       [RPC_CALLER_CONTEXT_METADATA \<mapsto> e, RPC_CALLER_CONTEXT_SIGNATURE_METADATA \<mapsto> g,
        ''idempotency-key'' \<mapsto> ''idempotency-1'']\<rparr>)"
    and vc: "verify reference_utils reference_json mtls_verifier
      \<lparr>sc_encoded_context = e, sc_signature = g\<rparr> sample_peer (Some ''idempotency-1'') now = Ok vc"
    using signed_health_request_ok [OF assms] by blast
  note defs = interceptor_call_def verify_and_inject_def mtls_security_eq r security_new_def mtls_peer
    validate_optional_service_assertion_def verify_optional_caller_context_def
    from_transport_metadata_def optional_metadata_def reference_metadata_def assertion_key
    assertion_key [symmetric] Let_def status_new_def
  show "accepts_the_expected_mtls_spiffe_identity_and_signed_caller_context der t nonce now"
    using vc
    by (simp add: accepts_the_expected_mtls_spiffe_identity_and_signed_caller_context_def defs)
  show "rejects_wrong_spiffe_identity_and_spoofed_service_assertion der1 der2 t nonce now"
    by (simp add: rejects_wrong_spiffe_identity_and_spoofed_service_assertion_def defs
        unauthenticated_def request_new_def sample_peer_def visible_ascii_def reject_if_def
        map_err_def)
qed

end
