(* ===== verification/Client_Tests.thy ===== *)
theory Client_Tests
  imports Service_Discovery Watching_Resolver Retry_Budget Server_Lifecycle "HOL-Library.Sublist"
begin

text \<open>
  The unit tests of crates \<open>sdkwork-rpc-client\<close>, \<open>sdkwork-rpc-discovery\<close> and of \<open>lib.rs\<close> of crate
  \<open>sdkwork-rpc-server\<close>, as statements about the model: each definition is the body of one test
  function. Clock readings, random draws, fresh identifiers and the file system are arguments. Left
  out are the tests that only ask for a trait (\<open>Send\<close>, \<open>Sync\<close>), the two that compare the largest
  of 256 draws of one backoff with that of another, which some draws fail (the facts that they
  sample are the interpretations of the locale \<open>full_jitter\<close>), and \<open>refill_restores_tokens_over_time\<close>
  (theory \<open>Retry_Rate\<close> has the refill).
\<close>

section \<open>load\_balance.rs and resolver.rs\<close>

definition test_endpoint :: "string \<Rightarrow> u32 \<Rightarrow> bool \<Rightarrow> ResolvedEndpoint" where
  "test_endpoint uri w is_healthy = \<lparr>endpoint = uri, weight = w, healthy = is_healthy\<rparr>"

definition pick_first_prefers_healthy_endpoint :: bool where
  "pick_first_prefers_healthy_endpoint \<longleftrightarrow>
     (let eps = [test_endpoint ''grpc://unhealthy:1'' 100 False,
                 test_endpoint ''grpc://healthy:2'' 100 True]
      in map_option endpoint (fst (pick_endpoint eps PickFirst cursor_default)) =
           Some ''grpc://healthy:2'')"

definition round_robin_cycles_through_healthy_endpoints :: bool where
  "round_robin_cycles_through_healthy_endpoints \<longleftrightarrow>
     (let eps = [test_endpoint ''grpc://a:1'' 100 True, test_endpoint ''grpc://b:2'' 100 True];
          (first, cursor) = pick_endpoint eps RoundRobin cursor_default;
          (second, cursor) = pick_endpoint eps RoundRobin cursor;
          (third, cursor) = pick_endpoint eps RoundRobin cursor
      in None \<notin> {first, second, third} \<and>
         map_option endpoint first \<noteq> map_option endpoint second \<and>
         map_option endpoint first = map_option endpoint third)"

definition weighted_honors_higher_weight :: bool where
  "weighted_honors_higher_weight \<longleftrightarrow>
     (let eps = [test_endpoint ''grpc://light:1'' 1 True, test_endpoint ''grpc://heavy:2'' 9 True];
          picked = picks (pick_endpoint eps Weighted) 100 cursor_default;
          heavy_hits = length (filter (\<lambda>e. map_option endpoint e = Some ''grpc://heavy:2'') picked)
      in None \<notin> set picked \<and> heavy_hits > 50)"

definition static_resolver_returns_configured_endpoint :: bool where
  "static_resolver_returns_configured_endpoint \<longleftrightarrow>
     (let resolver = static_single ''grpc://127.0.0.1:50051''
      in case static_resolve resolver ''sdkwork-commerce-app-rpc'' of
           Err _ \<Rightarrow> False
         | Ok eps \<Rightarrow>
             length eps = 1 \<and> endpoint (eps ! 0) = ''grpc://127.0.0.1:50051'')"

section \<open>retry\_budget.rs\<close>

text \<open>A call reads the clock when it makes a bucket and again when it refills.\<close>

definition first_acquire_for_new_service_succeeds :: "instant \<Rightarrow> bool" where
  "first_acquire_for_new_service_succeeds t \<longleftrightarrow>
     fst (try_acquire registry_default t t ''svc-a'')"

definition budget_exhaustion_fails_fast :: "instant \<Rightarrow> instant \<Rightarrow> instant \<Rightarrow> bool" where
  "budget_exhaustion_fails_fast t1 t2 t3 \<longleftrightarrow>
     (let registry = registry_new \<lparr>capacity = 2, refill_per_second = Fin 0\<rparr>;
          (acquired1, registry) = try_acquire registry t1 t1 ''svc-b'';
          (acquired2, registry) = try_acquire registry t2 t2 ''svc-b'';
          (acquired3, registry) = try_acquire registry t3 t3 ''svc-b''
      in acquired1 \<and> acquired2 \<and> \<not> acquired3)"

definition budgets_are_isolated_per_service :: "instant \<Rightarrow> instant \<Rightarrow> instant \<Rightarrow> bool" where
  "budgets_are_isolated_per_service t1 t2 t3 \<longleftrightarrow>
     (let registry = registry_new \<lparr>capacity = 1, refill_per_second = Fin 0\<rparr>;
          (acquired1, registry) = try_acquire registry t1 t1 ''svc-c'';
          (acquired2, registry) = try_acquire registry t2 t2 ''svc-d'';
          (acquired3, registry) = try_acquire registry t3 t3 ''svc-c''
      in acquired1 \<and> acquired2 \<and> \<not> acquired3)"

text \<open>A clone shares the mutex, so its calls go to the same registry.\<close>

definition clones_share_state :: "instant \<Rightarrow> instant \<Rightarrow> bool" where
  "clones_share_state t1 t2 \<longleftrightarrow>
     (let registry = registry_new \<lparr>capacity = 1, refill_per_second = Fin 0\<rparr>;
          (acquired1, registry) = try_acquire registry t1 t1 ''svc-f'';
          (acquired2, registry) = try_acquire registry t2 t2 ''svc-f''
      in acquired1 \<and> \<not> acquired2)"

section \<open>tls.rs and transport.rs\<close>

definition is_configuration_error :: "RpcFrameworkError + 'a \<Rightarrow> bool" where
  "is_configuration_error r = (case r of Err (Configuration _) \<Rightarrow> True | _ \<Rightarrow> False)"

definition server_verified_config_has_no_paths :: "file_system \<Rightarrow> bool" where
  "server_verified_config_has_no_paths fs \<longleftrightarrow>
     (let config = server_verified
      in ct_server_ca_certificate_path config = None \<and> ct_client_cert_path config = None \<and>
         ct_client_key_path config = None \<and> is_ok (client_tls_validate fs config))"

definition validate_rejects_nonexistent_ca_path :: "file_system \<Rightarrow> bool" where
  "validate_rejects_nonexistent_ca_path fs \<longleftrightarrow>
     (let config = with_server_ca server_verified ''/nonexistent/ca.pem''
      in is_configuration_error (client_tls_validate fs config))"

definition validate_rejects_nonexistent_client_cert_path :: "file_system \<Rightarrow> bool" where
  "validate_rejects_nonexistent_client_cert_path fs \<longleftrightarrow>
     (let config = with_client_identity server_verified ''/nonexistent/client.crt''
            ''/nonexistent/client.key''
      in is_configuration_error (client_tls_validate fs config))"

definition validate_rejects_cert_without_key :: "file_system \<Rightarrow> bool" where
  "validate_rejects_cert_without_key fs \<longleftrightarrow>
     (let config = server_verified\<lparr>ct_client_cert_path := Some ''/tmp/client.crt'',
                                   ct_client_key_path := None\<rparr>
      in is_configuration_error (client_tls_validate fs config))"

definition validate_rejects_key_without_cert :: "file_system \<Rightarrow> bool" where
  "validate_rejects_key_without_cert fs \<longleftrightarrow>
     (let config = server_verified\<lparr>ct_client_cert_path := None,
                                   ct_client_key_path := Some ''/tmp/client.key''\<rparr>
      in is_configuration_error (client_tls_validate fs config))"

definition builder_methods_are_chainable :: bool where
  "builder_methods_are_chainable \<longleftrightarrow>
     (let config = with_client_identity (with_server_ca (with_domain server_verified ''rpc.internal'')
            ''/tmp/ca.pem'') ''/tmp/client.crt'' ''/tmp/client.key''
      in ct_domain config = Some ''rpc.internal'' \<and>
         ct_client_cert_path config = Some ''/tmp/client.crt'' \<and>
         ct_client_key_path config = Some ''/tmp/client.key'')"

definition build_without_feature_returns_configuration_error :: bool where
  "build_without_feature_returns_configuration_error \<longleftrightarrow>
     is_configuration_error
       (build_client_tls_config_no_tls server_verified :: RpcFrameworkError + unit)"

definition converts_grpc_scheme_to_http_for_tonic :: bool where
  "converts_grpc_scheme_to_http_for_tonic \<longleftrightarrow>
     tonic_endpoint_uri reference_utils ''grpc://127.0.0.1:50051'' = Ok ''http://127.0.0.1:50051'' \<and>
     tonic_endpoint_uri reference_utils ''grpcs://example.com:443'' = Ok ''https://example.com:443''"

definition rejects_blank_endpoint :: bool where
  "rejects_blank_endpoint \<longleftrightarrow> \<not> is_ok (tonic_endpoint_uri reference_utils ''  '')"

definition default_channel_config_uses_keepalive :: bool where
  "default_channel_config_uses_keepalive \<longleftrightarrow>
     (let config = channel_config_default
      in gc_keepalive_while_idle config \<and> gc_keepalive_interval config \<ge> from_secs 30)"

definition default_channel_config_has_no_tls :: bool where
  "default_channel_config_has_no_tls \<longleftrightarrow> gc_tls channel_config_default = None"

definition channel_config_accepts_tls_override :: bool where
  "channel_config_accepts_tls_override \<longleftrightarrow>
     (let config = channel_config_default\<lparr>gc_tls := Some server_verified\<rparr> in gc_tls config \<noteq> None)"

section \<open>discovery\_resolver.rs and watching\_discovery\_resolver.rs\<close>

definition test_resolver_config :: "string \<Rightarrow> string \<Rightarrow> DiscoveryNameResolverConfig" where
  "test_resolver_config discovery_endpoint subject_id =
     \<lparr>dr_discovery_endpoint = discovery_endpoint, dr_namespace = ''sdkwork'',
      dr_environment = ''development'', dr_subject_id = subject_id, dr_healthy_only = True,
      dr_protocol = ''grpc''\<rparr>"

definition discovery_resolver_config_requires_endpoint :: bool where
  "discovery_resolver_config_requires_endpoint \<longleftrightarrow>
     \<not> is_ok (discovery_resolver_new reference_utils (test_resolver_config [] ''resolver-1'')
               :: RpcFrameworkError + unit DiscoveryNameResolver)"

definition discovery_resolver_rejects_blank_service_name ::
  "fresh \<Rightarrow> (string \<times> bool \<Rightarrow> DiscoverInstancesRequest \<Rightarrow> (string \<rightharpoonup> string)
     \<Rightarrow> string + ServiceInstance list) \<Rightarrow> bool" where
  "discovery_resolver_rejects_blank_service_name F rpc \<longleftrightarrow>
     (case discovery_resolver_new reference_utils
             (test_resolver_config ''http://127.0.0.1:50051'' ''resolver-1'') of
        Err _ \<Rightarrow> False
      | Ok resolver \<Rightarrow>
          (case fst (discovery_resolve reference_externals F rpc resolver ''  '') of
             Err (Validation _) \<Rightarrow> True
           | _ \<Rightarrow> False))"

definition reconnect_backoff_never_exceeds_max :: "(u32 \<Rightarrow> rng) \<Rightarrow> bool" where
  "reconnect_backoff_never_exceeds_max draw \<longleftrightarrow>
     (let initial = from_millis 100; limit = from_millis 500
      in list_all (\<lambda>n. let attempt = word_of_nat n
                       in reconnect_backoff (draw attempt) attempt initial limit \<le> limit) [0..<20])"

definition last_revision_starts_at_zero :: bool where
  "last_revision_starts_at_zero \<longleftrightarrow>
     (case watching_resolver_new reference_utils
             (test_resolver_config ''http://127.0.0.1:50051'' ''watcher-1'')
             :: RpcFrameworkError + unit WatchingDiscoveryNameResolver of
        Err _ \<Rightarrow> False
      | Ok resolver \<Rightarrow> wr_last_revision resolver = 0)"

definition watch_loop_config_defaults_are_sane :: bool where
  "watch_loop_config_defaults_are_sane \<longleftrightarrow>
     (let config = watch_loop_config_default
      in initial_reconnect_backoff config < max_reconnect_backoff config \<and> cache_ttl config > 0)"

section \<open>endpoint.rs, metadata.rs and rpc\_metadata.rs\<close>

definition normalizes_http_endpoint_without_scheme :: bool where
  "normalizes_http_endpoint_without_scheme \<longleftrightarrow>
     normalize_http_endpoint reference_utils ''127.0.0.1:19090'' = ''http://127.0.0.1:19090''"

definition normalizes_grpc_endpoint_without_scheme :: bool where
  "normalizes_grpc_endpoint_without_scheme \<longleftrightarrow>
     normalize_grpc_endpoint reference_utils ''127.0.0.1:50051'' = ''grpc://127.0.0.1:50051''"

definition includes_required_discovery_metadata_keys :: bool where
  "includes_required_discovery_metadata_keys \<longleftrightarrow>
     (let metadata = build_registration_metadata
            \<lparr>rm_rpc_surface = ''internal'', rm_sdk_family = ''sdkwork-commerce-rpc-sdk'',
             rm_domain = ''commerce'',
             rm_proto_packages = [''sdkwork.commerce.app.v3'', ''sdkwork.commerce.backend.v3''],
             rm_operation_manifest_ref =
               ''sdks/sdkwork-commerce-rpc-sdk/rpc/sdkwork-commerce-rpc.manifest.json'',
             rm_deployment_profile = Some ''standalone'', rm_runtime_target = Some ''server''\<rparr>
      in metadata ''rpc_surface'' = Some ''internal'' \<and>
         metadata ''sdk_family'' = Some ''sdkwork-commerce-rpc-sdk'' \<and>
         (case metadata ''proto_packages'' of
            None \<Rightarrow> False
          | Some packages \<Rightarrow> sublist ''sdkwork.commerce.app.v3'' packages))"

definition is_ascii_hexdigit :: "char \<Rightarrow> bool" where
  "is_ascii_hexdigit c \<longleftrightarrow> c \<in> set ''0123456789abcdefABCDEF''"

definition traceparent_is_w3c_compliant :: "fresh \<Rightarrow> bool" where
  "traceparent_is_w3c_compliant F \<longleftrightarrow>
     (let parts = split_on (CHR ''-'') (build_traceparent F)
      in length parts = 4 \<and> parts ! 0 = ''00'' \<and> length (parts ! 1) = 32 \<and>
         length (parts ! 2) = 16 \<and> parts ! 3 = ''01'' \<and>
         list_all is_ascii_hexdigit (parts ! 1) \<and> list_all is_ascii_hexdigit (parts ! 2) \<and>
         parts ! 1 \<noteq> ''00000000000000000000000000000000'' \<and> parts ! 2 \<noteq> ''0000000000000000'')"

definition traceparent_parent_id_is_never_32_chars :: "fresh list \<Rightarrow> bool" where
  "traceparent_parent_id_is_never_32_chars samples \<longleftrightarrow>
     list_all (\<lambda>F. let parts = split_on (CHR ''-'') (build_traceparent F)
                   in 2 < length parts \<and> length (parts ! 2) = 16) samples"

definition unsigned_subject_provider_returns_plaintext :: bool where
  "unsigned_subject_provider_returns_plaintext \<longleftrightarrow> unsigned_local_subject ''svc-1'' = ''svc-1''"

definition registry_metadata_includes_required_headers :: "fresh \<Rightarrow> bool" where
  "registry_metadata_includes_required_headers F \<longleftrightarrow>
     (let keys = map fst (registry_read_metadata reference_keys F (unsigned_local_subject ''svc-1''))
      in ''x-sdkwork-subject-id'' \<in> set keys \<and> ''x-sdkwork-registry-permissions'' \<in> set keys \<and>
         ''x-request-id'' \<in> set keys \<and> ''traceparent'' \<in> set keys)"

definition unsigned_convenience_wrappers_match_provider_api :: "fresh \<Rightarrow> fresh \<Rightarrow> bool" where
  "unsigned_convenience_wrappers_match_provider_api F1 F2 \<longleftrightarrow>
     (let via_provider = registry_read_metadata reference_keys F1 (unsigned_local_subject ''svc-1'');
          via_convenience = unsigned_registry_read_metadata reference_keys F2 ''svc-1''
      in via_provider ! 0 = via_convenience ! 0 \<and> via_provider ! 1 = via_convenience ! 1)"

section \<open>lifecycle.rs and the server's lib.rs\<close>

definition sample_config :: DiscoveryInstanceConfig where
  "sample_config =
     \<lparr>ic_discovery_endpoint = ''http://127.0.0.1:19090'', ic_namespace = ''sdkwork'',
      ic_environment = ''development'', ic_service_name = ''sdkwork-commerce-app-rpc'',
      ic_instance_id = ''commerce-1'', ic_advertised_endpoint = ''grpc://127.0.0.1:50051'',
      ic_protocol = ''grpc'', ic_version = ''0.1.0'', ic_region = ''local'', ic_zone = ''local'',
      ic_lease_ttl_seconds = 30, ic_subject_id = ''sdkwork-commerce-service-host'',
      ic_metadata = [''rpc_surface'' \<mapsto> ''app''], ic_revision_cas_on_register = True,
      ic_expected_revision = None\<rparr>"

definition validates_required_metadata :: bool where
  "validates_required_metadata \<longleftrightarrow>
     (let config = sample_config\<lparr>ic_metadata := (ic_metadata sample_config)(''rpc_surface'' := None)\<rparr>
      in \<not> is_ok (instance_config_validate reference_utils config))"

definition builds_grpc_advertised_endpoint :: bool where
  "builds_grpc_advertised_endpoint \<longleftrightarrow>
     grpc_advertised_endpoint reference_utils ''127.0.0.1:50051'' = ''grpc://127.0.0.1:50051''"

definition renew_backoff_never_exceeds_max :: "(u32 \<Rightarrow> rng) \<Rightarrow> bool" where
  "renew_backoff_never_exceeds_max draw \<longleftrightarrow>
     (let initial = from_millis 500; limit = from_secs 5
      in list_all (\<lambda>n. let failures = word_of_nat n
                       in renew_backoff (draw failures) failures initial limit \<le> limit) [1..<20])"

definition renew_loop_config_defaults_are_sane :: bool where
  "renew_loop_config_defaults_are_sane \<longleftrightarrow>
     (let config = renew_loop_config_default
      in rl_initial_backoff config < rl_max_backoff config \<and> rl_max_consecutive_failures config > 0)"

definition serve_error_display_distinguishes_variants :: bool where
  "serve_error_display_distinguishes_variants \<longleftrightarrow>
     sublist ''transport'' (serve_error_display (ServeTransport ''bind failed'')) \<and>
     sublist ''deregister'' (serve_error_display (DiscoveryDeregister ''not found'')) \<and>
     sublist ''signal'' (serve_error_display (Signal ''no tty''))"

section \<open>They hold\<close>

lemma pick_first_test: pick_first_prefers_healthy_endpoint
  by (simp add: pick_first_prefers_healthy_endpoint_def pick_endpoint_def candidates_of_def
      first_of_def test_endpoint_def)

lemma round_robin_test: round_robin_cycles_through_healthy_endpoints
proof -
  have "2 mod Suc (Suc 0) = 0" by (simp add: numeral_2_eq_2)
  then show ?thesis
    by (simp add: round_robin_cycles_through_healthy_endpoints_def round_robin.pick_wheel
        round_robin_ok_def candidates_of_def cursor_default_def advance_def saturating_add_def
        test_endpoint_def)
qed

lemma static_resolver_test: static_resolver_returns_configured_endpoint
  by (simp add: static_resolver_returns_configured_endpoint_def static_resolve_def static_single_def)

lemma weighted_test: weighted_honors_higher_weight
proof -
  define light where "light = test_endpoint ''grpc://light:1'' 1 True"
  define heavy where "heavy = test_endpoint ''grpc://heavy:2'' 9 True"
  have wheel: "weight_wheel (candidates_of [light, heavy]) = light # replicate 9 heavy"
    by (simp add: light_def heavy_def test_endpoint_def candidates_of_def weight_wheel_def
        weight_of_def)
  have spoke: "(light # replicate 9 heavy) ! (i mod 10) = (if i mod 10 = 0 then light else heavy)" for i
  proof (cases "i mod 10")
    case (Suc k)
    moreover have "i mod 10 < 10" by simp
    ultimately show ?thesis by simp
  qed simp
  have picked: "picks (pick_endpoint [light, heavy] Weighted) 100 cursor_default =
      map (\<lambda>i. Some (if i mod 10 = 0 then light else heavy)) [0..<100]"
    using weighted.picks_wheel [of "[light, heavy]" cursor_default 100]
    by (simp add: weighted_ok_def cursor_default_def wheel spoke del: upt_conv_Cons)
  have hit: "map_option endpoint (Some (if i mod 10 = 0 then light else heavy)) =
      Some ''grpc://heavy:2'' \<longleftrightarrow> i mod 10 \<noteq> 0" for i :: nat
    by (simp add: light_def heavy_def test_endpoint_def)
  have "50 < length (filter (\<lambda>i. i mod 10 \<noteq> 0) [0..<100])" by code_simp
  then have "50 < length (filter (\<lambda>e. map_option endpoint e = Some ''grpc://heavy:2'')
      (picks (pick_endpoint [light, heavy] Weighted) 100 cursor_default))"
    unfolding picked filter_map comp_def hit by (simp only: length_map)
  moreover have "None \<notin> set (picks (pick_endpoint [light, heavy] Weighted) 100 cursor_default)"
    unfolding picked by auto
  ultimately show ?thesis
    unfolding weighted_honors_higher_weight_def Let_def light_def heavy_def by blast
qed

lemma first_acquire_test: "first_acquire_for_new_service_succeeds t"
  by (simp add: first_acquire_for_new_service_succeeds_def try_acquire_def registry_default_def
      registry_new_def budget_config_default_def bucket_for_def bucket_new_def refill_def
      elapsed_since_def as_secs_f64_zero f64_less_def try_consume_def Let_def)

lemma retry_budget_tests:
  assumes "as_secs t1 < 2 ^ 52" and "as_secs t2 < 2 ^ 52" and "as_secs t3 < 2 ^ 52"
  shows "budget_exhaustion_fails_fast t1 t2 t3"
    and "budgets_are_isolated_per_service t1 t2 t3"
    and "clones_share_state t1 t2"
proof -
  define one where "one = registry_new \<lparr>capacity = 1, refill_per_second = Fin 0\<rparr>"
  define two where "two = registry_new \<lparr>capacity = 2, refill_per_second = Fin 0\<rparr>"
  have left: "refill_per_second (budget_config one) = Fin 0" "tokens_left one s 1"
    "refill_per_second (budget_config two) = Fin 0" "tokens_left two s 2" for s
    by (simp_all add: one_def two_def registry_new_def tokens_left_def)
  show "budget_exhaustion_fails_fast t1 t2 t3"
    using budget_run_zero [OF _ left(3,4), of "[Acquire ''svc-b'' t1 t1, Acquire ''svc-b'' t2 t2,
        Acquire ''svc-b'' t3 t3]" "''svc-b''"] assms
    by (auto simp: budget_exhaustion_fails_fast_def two_def [symmetric] answers_for_def
        case_prod_beta Let_def)
  show "budgets_are_isolated_per_service t1 t2 t3"
    using budget_run_zero [OF _ left(1,2), of "[Acquire ''svc-c'' t1 t1, Acquire ''svc-d'' t2 t2,
        Acquire ''svc-c'' t3 t3]" "''svc-c''"]
      budget_run_zero [OF _ left(1,2), of "[Acquire ''svc-c'' t1 t1, Acquire ''svc-d'' t2 t2,
        Acquire ''svc-c'' t3 t3]" "''svc-d''"] assms
    by (auto simp: budgets_are_isolated_per_service_def one_def [symmetric] answers_for_def
        case_prod_beta Let_def)
  show "clones_share_state t1 t2"
    using budget_run_zero [OF _ left(1,2), of "[Acquire ''svc-f'' t1 t1, Acquire ''svc-f'' t2 t2]"
        "''svc-f''"] assms
    by (auto simp: clones_share_state_def one_def [symmetric] answers_for_def case_prod_beta Let_def)
qed

lemma tls_tests:
  "server_verified_config_has_no_paths fs"
  "\<not> path_exists fs ''/nonexistent/ca.pem'' \<Longrightarrow> validate_rejects_nonexistent_ca_path fs"
  "\<not> path_exists fs ''/nonexistent/client.crt'' \<Longrightarrow> validate_rejects_nonexistent_client_cert_path fs"
  "validate_rejects_cert_without_key fs"
  "validate_rejects_key_without_cert fs"
  builder_methods_are_chainable
  build_without_feature_returns_configuration_error
  by (simp_all add: server_verified_config_has_no_paths_def validate_rejects_nonexistent_ca_path_def
      validate_rejects_nonexistent_client_cert_path_def validate_rejects_cert_without_key_def
      validate_rejects_key_without_cert_def builder_methods_are_chainable_def
      build_without_feature_returns_configuration_error_def is_configuration_error_def
      client_tls_validate_def server_verified_def with_server_ca_def with_client_identity_def
      with_domain_def build_client_tls_config_no_tls_def reject_if_def Let_def)

lemma transport_tests:
  converts_grpc_scheme_to_http_for_tonic
  rejects_blank_endpoint
  by code_simp+

lemma channel_config_tests:
  default_channel_config_uses_keepalive
  default_channel_config_has_no_tls
  channel_config_accepts_tls_override
  by (simp_all add: default_channel_config_uses_keepalive_def default_channel_config_has_no_tls_def
      channel_config_accepts_tls_override_def channel_config_default_def Let_def)

lemma blank_endpoint_test: discovery_resolver_config_requires_endpoint
  by code_simp

lemma test_resolver_config_ok:
  "resolver_config_validate reference_utils
     (test_resolver_config ''http://127.0.0.1:50051'' ''resolver-1'') = Ok ()"
  "resolver_config_validate reference_utils
     (test_resolver_config ''http://127.0.0.1:50051'' ''watcher-1'') = Ok ()"
  "is_blank reference_utils (Some ''  '')"
  by code_simp+

lemma resolver_tests:
  "discovery_resolver_rejects_blank_service_name F rpc"
  last_revision_starts_at_zero
  by (simp_all add: discovery_resolver_rejects_blank_service_name_def discovery_resolve_def
      last_revision_starts_at_zero_def watching_resolver_new_def with_watch_config_def
      discovery_resolver_new_def reference_externals_def test_resolver_config_ok)

lemma default_config_tests:
  watch_loop_config_defaults_are_sane
  renew_loop_config_defaults_are_sane
  by (simp_all add: watch_loop_config_defaults_are_sane_def renew_loop_config_defaults_are_sane_def
      watch_loop_config_default_def renew_loop_config_default_def from_secs_def from_millis_def
      Let_def)

lemma backoff_tests:
  assumes "\<And>n. draws_in_range (draw n)"
  shows "reconnect_backoff_never_exceeds_max draw" and "renew_backoff_never_exceeds_max draw"
  using assms
  by (auto simp: reconnect_backoff_never_exceeds_max_def renew_backoff_never_exceeds_max_def
      list_all_iff Let_def from_secs_def from_millis_def intro!: reconnect_backoff_le renew_backoff_le)

lemma endpoint_tests:
  normalizes_http_endpoint_without_scheme
  normalizes_grpc_endpoint_without_scheme
  builds_grpc_advertised_endpoint
  by code_simp+

lemma registration_tests:
  includes_required_discovery_metadata_keys
  validates_required_metadata
  serve_error_display_distinguishes_variants
  by code_simp+

lemma hexdigit: "list_all lower_hex s \<Longrightarrow> list_all is_ascii_hexdigit s"
proof -
  have "''0123456789abcdefABCDEF'' = ''0123456789abcdef'' @ ''ABCDEF''" by simp
  then have "lower_hex c \<Longrightarrow> is_ascii_hexdigit c" for c
    unfolding lower_hex_def is_ascii_hexdigit_def by (simp only: set_append) (rule UnI1)
  then show "list_all lower_hex s \<Longrightarrow> list_all is_ascii_hexdigit s" by (auto simp: list_all_iff)
qed

lemma traceparent_tests:
  "uuid_v4_simple (fresh_uuid_simple F) \<Longrightarrow> traceparent_is_w3c_compliant F"
  "list_all (\<lambda>F. uuid_v4_simple (fresh_uuid_simple F)) samples \<Longrightarrow>
     traceparent_parent_id_is_never_32_chars samples"
proof -
  have fields: "\<exists>t p. split_on (CHR ''-'') (build_traceparent F) = [''00'', t, p, ''01''] \<and>
      length t = 32 \<and> list_all lower_hex t \<and> \<not> list_all (\<lambda>c. c = CHR ''0'') t \<and>
      length p = 16 \<and> list_all lower_hex p \<and> \<not> list_all (\<lambda>c. c = CHR ''0'') p"
    if "uuid_v4_simple (fresh_uuid_simple F)" for F
    using traceparent_w3c_helper [OF that] by (auto simp: w3c_traceparent_def split: list.splits)
  show "uuid_v4_simple (fresh_uuid_simple F) \<Longrightarrow> traceparent_is_w3c_compliant F"
    using fields [of F] by (auto simp: traceparent_is_w3c_compliant_def hexdigit)
  show "list_all (\<lambda>F. uuid_v4_simple (fresh_uuid_simple F)) samples \<Longrightarrow>
      traceparent_parent_id_is_never_32_chars samples"
    using fields
    by (fastforce simp: traceparent_parent_id_is_never_32_chars_def list_all_iff Let_def)
qed

lemma subject_tests:
  unsigned_subject_provider_returns_plaintext
  "registry_metadata_includes_required_headers F"
  "unsigned_convenience_wrappers_match_provider_api F1 F2"
  by (simp_all add: unsigned_subject_provider_returns_plaintext_def
      registry_metadata_includes_required_headers_def
      unsigned_convenience_wrappers_match_provider_api_def registry_read_metadata_def
      unsigned_registry_read_metadata_def registry_metadata_def unsigned_local_subject_def
      reference_keys_def)

end
