(* ===== verification/Spec2Isabelle.thy ===== *)
theory Spec2Isabelle
  imports Context_Authenticity Service_Discovery Watch_Resume Resilience Circuit_Breaker_Threads
    Server_Lifecycle Client_Transport Retry_Rate Lease_Survival Resilience_Tests Identity_Tests
    Client_Tests
begin

text \<open>
  \<^bold>\<open>The SDKWork RPC framework.\<close> Five Rust crates under \<open>src/crates\<close>: \<open>sdkwork-rpc-core\<close> (errors, names,
  caller context, service identity), \<open>sdkwork-rpc-resilience\<close> (retry decisions, circuit breaker),
  \<open>sdkwork-rpc-discovery\<close> (registration of server instances and their leases), \<open>sdkwork-rpc-client\<close>
  (name resolution, load balancing, channels, credentials, retry budget) and \<open>sdkwork-rpc-server\<close>
  (interceptor, serving, shutdown). A calling service signs a caller context, resolves and picks
  an endpoint, connects a channel and sends its credential as metadata; the called service
  derives the caller's identity from the TLS certificate, verifies the context against it and
  registers itself with the discovery control plane while it serves.

  \<^bold>\<open>Conventions.\<close> A \<open>struct\<close> is a \<open>record\<close>, an \<open>enum\<close> a \<open>datatype\<close>, \<open>Result\<close> a sum whose left side is
  the error; strings and byte vectors are character lists (a Rust \<open>str\<close> is its UTF-8 bytes);
  \<open>u8\<close> to \<open>u64\<close>, \<open>i64\<close> and \<open>usize\<close> (64 bits) are words with the wrapping, checked or saturating
  operation the code names; a \<open>Duration\<close> is its nanoseconds; an \<open>f64\<close> is a rational rounded to 53
  bits, an infinity or NaN. A \<open>&mut\<close> argument is passed in and returned, on errors too. Clock
  readings, UUIDs, nonces and random draws are arguments. Code outside the repository
  (\<open>sdkwork_utils_rust\<close>, \<open>x509-parser\<close>, \<open>serde_json\<close>, tonic, tokio, the file system, the generated
  discovery protocol) is a record of functions given to the definitions that use it
  (\<open>External_Api\<close>, \<open>Tls_Api\<close>); what a property needs of it is a named hypothesis, and
  \<open>Reference_Utils\<close> and \<open>Tls_Api\<close> give instances at which these hypotheses hold together, which
  the witnesses use.

  \<^bold>\<open>Theories.\<close>
  \<^item> \<open>RPC_Prelude\<close>, \<open>Rust_Str\<close>, \<open>Rust_F64\<close>: results, machine integers, durations, the \<open>str\<close> methods,
    binary64 rounding (locale \<open>rounded\<close>).
  \<^item> \<open>Core_Vocabulary\<close>: lib.rs, bootstrap.rs, identity.rs, profile.rs, surface.rs of the core; locale
    \<open>named_enum\<close> for enums with \<open>as_str\<close> and \<open>parse\<close>.
  \<^item> \<open>Service_Identity\<close> (service_identity.rs): the SPIFFE policy and the certificate check.
  \<^item> \<open>Caller_Context\<close> (caller_context.rs): builder, signer and verifier. Signing then verifying gives
    back every field; the verifier accepts exactly under its listed conditions; replay is bounded.
  \<^item> \<open>Resilience\<close> (lib.rs, backoff.rs, idempotency.rs, pushback.rs) with \<open>Full_Jitter\<close>: the retry
    decision, its budget and its delays. The contract \<open>full_jitter\<close> is met by the retry, the
    renewal and the reconnect backoff.
  \<^item> \<open>Circuit_Breaker\<close> (circuit_breaker.rs): the methods run alone refine a three-state machine.
    \<open>Circuit_Breaker_Threads\<close>: the atomic loads, stores and exchanges of the methods interleaved
    by any number of threads under sequential consistency, with the invariant that holds and two
    promises that do not.
  \<^item> \<open>Discovery_Metadata\<close> (endpoint.rs, metadata.rs, rpc_metadata.rs) and \<open>Discovery_Lifecycle\<close>
    (lifecycle.rs): registration, the renewal loop turn by turn and deregistration. \<open>Lease_Survival\<close>:
    the lease does not run out under the loop, failed renewals and call latencies included.
  \<^item> \<open>Load_Balance\<close> (resolver.rs, load_balance.rs): the picking algorithms as walks around a wheel
    (locale \<open>cyclic_picker\<close>). \<open>Discovery_Resolver\<close> and \<open>Watching_Resolver\<close>
    (discovery_resolver.rs, watching_discovery_resolver.rs): the query of the control plane, the
    cache that a watch stream keeps, sessions and reconnects (locale \<open>healthy_resolver\<close>).
    \<open>Watch_Resume\<close>: against a control plane that replays its log, reconnects lose and repeat nothing
    for one watched service, and do lose mutations for two.
  \<^item> \<open>Client_Metadata\<close>, \<open>Wire_Text\<close> (metadata.rs), \<open>Client_Transport\<close> (transport.rs, tls.rs, lib.rs) and
    \<open>Retry_Budget\<close> (retry_budget.rs) of the client. \<open>Retry_Rate\<close>: the grants over a time are bounded by
    capacity and rate, with the error of every rounding accounted for.
  \<^item> \<open>Server_Security\<close> (security.rs) and \<open>Server_Lifecycle\<close> (lib.rs) of the server: what the
    interceptor accepts, and runs of the serving functions as timed lists of effects.
  \<^item> \<open>End_To_End\<close> and this theory: the composition of credential, metadata and interceptor.
    \<open>Context_Authenticity\<close>: histories of signers, senders and interceptors under symbolic
    cryptography; what is admitted was signed. \<open>Service_Discovery\<close>: registration, resolution,
    load balancing and connection together.
  \<^item> \<open>Resilience_Tests\<close>, \<open>Identity_Tests\<close>, \<open>Client_Tests\<close>: the unit tests of the crates as statements
    about the model, each under the name of its test function, and proofs that they pass for
    every clock reading, draw and fresh identifier that the test may get.

  \<^bold>\<open>Loops and fuel.\<close> Loops over data are structural recursions. The renewal loop, the reconnect loop
  and the watch session run until their task is dropped; they are run on a given list of turns or
  messages, so a property of every finite list is one of every moment of the endless run. A
  future that never completes makes the result of a server run \<open>None\<close>; that the run returns is
  proved where the code promises it (\<open>drain_bounded\<close>). No definition takes fuel.

  \<^bold>\<open>Ordering and sharing.\<close> Breaker calls interleave at their atomic steps. Retry-budget calls hold the
  mutex, so they are whole steps in the order of locking. A resolve of the watching resolver
  gives up the cache lock while it asks the control plane, so asking and storing are separate
  steps of \<open>watch_reachable\<close>. A watch message is one step, although the session raises the revision
  (an atomic maximum) just before it takes the cache lock. Opening a channel is a function of its
  target, so two processes that open the same target both succeed or both fail; the property on
  reachability (\<open>Service_Discovery\<close>) uses this for the server and the client.

  \<^bold>\<open>Not modelled.\<close> Log output (of the renewal loop the kind of event is kept), the re-export lists,
  \<open>Debug\<close> output, plain accessors, weak memory orderings (the breaker's steps are sequentially
  consistent), the spawning of tasks itself, and the packages named above. Of the unit tests, those
  that start servers are kept to the interceptor's decision, and those that only ask for a trait
  or hold only for likely draws are left out.
\<close>

section \<open>A call between two services\<close>

text \<open>C1. End to end. A calling service builds a caller context, its credential provider issues a
  credential and the client applies it to fresh call metadata; the call arrives over a connection
  whose leaf certificate identifies the calling service under the policy of the called one, which
  trusts the caller's key. Then issuing and applying succeed, the interceptor passes the request
  on, and the handler reads the certificate's identity and a caller context whose every field is
  the one the caller built.\<close>
theorem service_call_end_to_end:
  assumes U: "base64url_roundtrip U" "base64url_length U" "base64url_text U" "hmac_verifies U"
    and J: "json_roundtrip J" "json_compact J" "json_rejects_empty J"
    and M: "metadata_get_insert M" "metadata_value_reads_back M" "metadata_accepts_ascii M"
    and K: "RPC_IDEMPOTENCY_KEY_METADATA K = ''idempotency-key''"
    and ctx: "build bld = Ok ctx"
    and s: "signer_new issuer key = Ok s" and p: "provider_new s ttl = Ok p"
    and v: "verifier_new (cc_audience_service_id ctx) pairs = Ok v"
    and key: "map_of (rev pairs) issuer = Some key"
    and peer: "verify_tls_peer_certificate_der C U policy leaf = Ok identity"
      "vi_service_id identity = issuer" "rq_peer_certs req = Some (leaf # rest)"
    and ttl: "from_secs 1 \<le> ttl"
    and now: "0 \<le> now" "clock_seconds now + 300 < 2 ^ 63"
    and later: "clock_ok later" "clock_seconds now - 30 \<le> clock_seconds later"
      "clock_seconds later \<le> clock_seconds now + int (as_secs ttl) + 30"
    and nonce: "valid_identifier nonce"
  shows "\<exists>c md req' iss expi.
    issue U J p ctx now nonce = Ok c \<and>
    credential_apply_to K M c (md_new M) = (Ok (), md) \<and>
    interceptor_call U J C M (security_new policy (Some v)) later (req\<lparr>rq_metadata := md\<rparr>) =
      Ok req' \<and>
    require_verified_rpc_service_identity M req' = Ok identity \<and>
    require_verified_rpc_caller_context M req' =
      Ok \<lparr>vc_issuer_service_id = issuer, vc_audience_service_id = cc_audience_service_id ctx,
          vc_tenant_id = cc_tenant_id ctx, vc_organization_id = cc_organization_id ctx,
          vc_actor_id = cc_actor_id ctx, vc_actor_kind = cc_actor_kind ctx,
          vc_session_id = cc_session_id ctx, vc_request_id = cc_request_id ctx,
          vc_trace_id = cc_trace_id ctx, vc_idempotency_key = cc_idempotency_key ctx,
          vc_issued_at_unix_seconds = iss, vc_expires_at_unix_seconds = expi, vc_nonce = nonce\<rparr>"
proof -
  have p_def: "p = \<lparr>cp_signer = s, cp_ttl = ttl\<rparr>" and ttl300: "ttl \<le> from_secs 300"
    using p by (auto simp: provider_new_def result_simps)
  have pos: "0 < ttl" using ttl by (simp add: from_secs_def)
  obtain sctx iss expi vc where sign: "sign_at U J s ctx ttl now nonce = Ok sctx"
    and vc: "verify U J v sctx identity (cc_idempotency_key ctx) later = Ok vc"
    and fields: "vc = \<lparr>vc_issuer_service_id = issuer,
          vc_audience_service_id = cc_audience_service_id ctx,
          vc_tenant_id = cc_tenant_id ctx, vc_organization_id = cc_organization_id ctx,
          vc_actor_id = cc_actor_id ctx, vc_actor_kind = cc_actor_kind ctx,
          vc_session_id = cc_session_id ctx, vc_request_id = cc_request_id ctx,
          vc_trace_id = cc_trace_id ctx, vc_idempotency_key = cc_idempotency_key ctx,
          vc_issued_at_unix_seconds = iss, vc_expires_at_unix_seconds = expi, vc_nonce = nonce\<rparr>"
    using sign_then_verify [OF U(1,2,4) J(1,2) ctx s v key peer(2) ttl ttl300 now later nonce]
    by blast
  let ?c = "\<lparr>cr_signed_caller_context = sctx, cr_idempotency_key = cc_idempotency_key ctx\<rparr>"
  have "credential_sendable K M ?c"
    by (rule issued_credential_sendable [OF U(2,3) J(1,3) M(3) K ctx s pos ttl300 now sign])
  from interceptor_on_credential [OF M(1,2) K this peer(1) _ peer(3), of J v later vc] vc
  obtain md where applied: "credential_apply_to K M ?c (md_new M) = (Ok (), md)"
    and passed: "interceptor_call U J C M (security_new policy (Some v)) later (req\<lparr>rq_metadata := md\<rparr>) =
      Ok (req\<lparr>rq_metadata := md, ext_service_identity := Some identity,
              ext_caller_context := Some vc\<rparr>)"
    by auto
  have issued: "issue U J p ctx now nonce = Ok ?c"
    by (simp add: issue_def p_def sign)
  show ?thesis
    by (intro exI conjI, rule issued, rule applied, rule passed)
      (simp_all add: require_verified_rpc_service_identity_def
        require_verified_rpc_caller_context_def fields)
qed

theorem service_call_end_to_end_witness:
  "\<exists>c md req'.
    issue reference_utils reference_json \<lparr>cp_signer = sample_signer, cp_ttl = from_secs 60\<rparr>
      sample_context sample_now ''0123456789abcdef0123456789abcdef'' = Ok c \<and>
    credential_apply_to reference_keys reference_metadata c Map.empty = (Ok (), md) \<and>
    interceptor_call reference_utils reference_json sample_x509 reference_metadata
      (security_new sample_policy (Some sample_verifier)) sample_now
      (sample_request\<lparr>rq_metadata := md\<rparr>) = Ok req' \<and>
    require_verified_rpc_service_identity reference_metadata req' = Ok sample_peer"
proof -
  have p: "provider_new sample_signer (from_secs 60) =
      Ok \<lparr>cp_signer = sample_signer, cp_ttl = from_secs 60\<rparr>"
    by (simp add: provider_new_def from_secs_def)
  show ?thesis
    using service_call_end_to_end [OF reference_base64url reference_text reference_hmac
        reference_json_laws reference_json_rejects_empty reference_metadata_laws _
        sample_build sample_signer_new p, of reference_keys
        "[(''sdkwork-knowledgebase'', sample_key)]" sample_verifier sample_x509 sample_policy
        "''DER''" sample_peer sample_request "[]" sample_now sample_now
        "''0123456789abcdef0123456789abcdef''"]
      sample_verifier_new sample_peer_verified sample_clock sample_nonce
    by (simp add: reference_keys_def sample_context_def sample_peer_def sample_request_def
        from_secs_def as_secs_def reference_metadata_def) blast
qed

end
